(* ===== verification/Prelude.thy ===== *)
theory Prelude
  imports Main "HOL-Library.Finite_Map"
begin

text \<open>
  The shared ground of the development.

  \<^item> Go maps with string keys and values are finite maps; reading an absent key
    gives the zero value, the empty string.
  \<^item> Go code that has effects is a function on a world: it returns either a value
    (\<open>Ret\<close>) or a run-time panic (\<open>Panic\<close>), and the world it left behind.
    \<open>bindM\<close> sequences two such actions; a panic stops the sequence and keeps the
    effects made before it, as unwinding does.
  \<^item> \<open>preserves\<close> says that an action keeps a predicate of the world whether it
    returns or panics. Its rules are collected in \<open>preserves_rules\<close>, and the
    components add one rule per operation, so that the invariant of a handler is
    proved by applying the rules to its body.
  \<^item> \<open>returns\<close> says that an action never panics; its rules, one per operation, are
    collected in \<open>returns_rules\<close>.
  \<^item> \<open>yields\<close> says that every value an action returns has a property, from whatever world
    it starts; its rules are collected in \<open>yields_rules\<close>.
  \<^item> \<open>run_simps\<close> collects the equations that execute an action symbolically.
  \<^item> machine integers of Go's type \<open>int\<close> (64 bit) are \<open>int\<close> with the
    wrap-around written out by \<open>wrap64\<close>.
\<close>

named_theorems preserves_rules "an action keeps a predicate of the world"
named_theorems returns_rules "an action never panics"
named_theorems yields_rules "what an action returns"
named_theorems run_simps "symbolic execution of actions"

section \<open>Go maps\<close>

type_synonym gomap = "(string, string) fmap"

definition goget :: "gomap \<Rightarrow> string \<Rightarrow> string" where
  "goget m k = (case fmlookup m k of None \<Rightarrow> '''' | Some v \<Rightarrow> v)"

lemma goget_fmupd [simp]: "goget (fmupd k v m) k' = (if k = k' then v else goget m k')"
  by (simp add: goget_def)

lemma goget_fmdrop [simp]: "goget (fmdrop k m) k' = (if k = k' then '''' else goget m k')"
  by (simp add: goget_def)

lemma goget_empty [simp]: "goget fmempty k = ''''"
  by (simp add: goget_def)

section \<open>Actions with panics\<close>

datatype 'a res = Ret 'a | Panic string

type_synonym ('w, 'a) action = "'w \<Rightarrow> 'a res \<times> 'w"

definition returnM :: "'a \<Rightarrow> ('w, 'a) action" where
  "returnM x w = (Ret x, w)"

definition panicM :: "string \<Rightarrow> ('w, 'a) action" where
  "panicM p w = (Panic p, w)"

definition bindM :: "('w, 'a) action \<Rightarrow> ('a \<Rightarrow> ('w, 'b) action) \<Rightarrow> ('w, 'b) action" where
  "bindM m f w = (case m w of (Ret x, w') \<Rightarrow> f x w' | (Panic p, w') \<Rightarrow> (Panic p, w'))"

definition thenM :: "('w, 'a) action \<Rightarrow> ('w, 'b) action \<Rightarrow> ('w, 'b) action" where
  "thenM m n = bindM m (\<lambda>_. n)"

definition readM :: "('w \<Rightarrow> 'a) \<Rightarrow> ('w, 'a) action" where
  "readM f w = (Ret (f w), w)"

definition modifyM :: "('w \<Rightarrow> 'w) \<Rightarrow> ('w, unit) action" where
  "modifyM f w = (Ret (), f w)"

definition skipM :: "('w, unit) action" where
  "skipM = returnM ()"

fun forM :: "'a list \<Rightarrow> ('a \<Rightarrow> ('w, unit) action) \<Rightarrow> ('w, unit) action" where
  "forM [] f = skipM"
| "forM (x # xs) f = thenM (f x) (forM xs f)"

text \<open>A deferred call runs when the function ends, also by a panic.\<close>

definition deferM :: "('w, 'a) action \<Rightarrow> ('w, 'b) action \<Rightarrow> ('w, 'a) action" where
  "deferM m d w =
     (case m w of (r, w') \<Rightarrow> (case d w' of (Ret _, w'') \<Rightarrow> (r, w'') | (Panic p, w'') \<Rightarrow> (Panic p, w'')))"

subsection \<open>Symbolic execution\<close>

lemma run_returnM [run_simps]: "returnM x w = (Ret x, w)"
  by (simp add: returnM_def)

lemma run_skipM [run_simps]: "skipM w = (Ret (), w)"
  by (simp add: skipM_def returnM_def)

lemma run_panicM [run_simps]: "panicM p w = (Panic p, w)"
  by (simp add: panicM_def)

lemma run_readM [run_simps]: "readM f w = (Ret (f w), w)"
  by (simp add: readM_def)

lemma run_modifyM [run_simps]: "modifyM f w = (Ret (), f w)"
  by (simp add: modifyM_def)

lemma run_bindM_Ret [run_simps]: "m w = (Ret x, w') \<Longrightarrow> bindM m f w = f x w'"
  by (simp add: bindM_def)

lemma run_bindM_Panic [run_simps]: "m w = (Panic p, w') \<Longrightarrow> bindM m f w = (Panic p, w')"
  by (simp add: bindM_def)

lemma run_thenM [run_simps]: "thenM m n w = bindM m (\<lambda>_. n) w"
  by (simp add: thenM_def)

lemma run_deferM [run_simps]: "m w = (r, w1) \<Longrightarrow> d w1 = (Ret x, w2) \<Longrightarrow> deferM m d w = (r, w2)"
  by (simp add: deferM_def)

lemma bindM_returnM [simp]: "bindM (returnM x) f = f x"
  by (simp add: bindM_def returnM_def fun_eq_iff)

lemma bindM_assoc: "bindM (bindM m f) g = bindM m (\<lambda>x. bindM (f x) g)"
  by (auto simp: bindM_def fun_eq_iff split: prod.split res.split)

lemma snd_bindM:
  "snd (bindM m f w) =
     (case m w of (Ret x, w') \<Rightarrow> snd (f x w') | (Panic p, w') \<Rightarrow> w')"
  by (simp add: bindM_def split: prod.split res.split)

subsection \<open>Predicates every action keeps\<close>

definition preserves :: "('w \<Rightarrow> bool) \<Rightarrow> ('w, 'a) action \<Rightarrow> bool" where
  "preserves I m \<longleftrightarrow> (\<forall>w. I w \<longrightarrow> I (snd (m w)))"

lemma preservesI: "(\<And>w. I w \<Longrightarrow> I (snd (m w))) \<Longrightarrow> preserves I m"
  by (simp add: preserves_def)

lemma preservesD: "preserves I m \<Longrightarrow> I w \<Longrightarrow> I (snd (m w))"
  by (simp add: preserves_def)

lemma preservesD_run: "preserves I m \<Longrightarrow> m w = (r, w') \<Longrightarrow> I w \<Longrightarrow> I w'"
  by (metis preservesD snd_conv)

lemma preserves_returnM [preserves_rules]: "preserves I (returnM x)"
  by (simp add: preserves_def returnM_def)

lemma preserves_skipM [preserves_rules]: "preserves I skipM"
  by (simp add: preserves_def skipM_def returnM_def)

lemma preserves_panicM [preserves_rules]: "preserves I (panicM p)"
  by (simp add: preserves_def panicM_def)

lemma preserves_readM [preserves_rules]: "preserves I (readM f)"
  by (simp add: preserves_def readM_def)

lemma preserves_bindM [preserves_rules]:
  assumes "preserves I m" and "\<And>x. preserves I (f x)"
  shows "preserves I (bindM m f)"
  using assms by (auto simp: preserves_def snd_bindM split: prod.split res.split)

lemma preserves_bind_known:
  "(\<And>w. I w \<Longrightarrow> m w = (Ret x, w)) \<Longrightarrow> preserves I (f x) \<Longrightarrow> preserves I (bindM m f)"
  by (simp add: preserves_def bindM_def)

lemma preserves_thenM [preserves_rules]:
  "preserves I m \<Longrightarrow> preserves I n \<Longrightarrow> preserves I (thenM m n)"
  by (simp add: thenM_def preserves_bindM)

lemma preserves_deferM [preserves_rules]:
  assumes "preserves I m" and "preserves I d"
  shows "preserves I (deferM m d)"
proof (rule preservesI)
  fix w
  assume "I w"
  obtain r w1 where m: "m w = (r, w1)" by fastforce
  obtain r2 w2 where d: "d w1 = (r2, w2)" by fastforce
  have "I w2" using preservesD_run [OF assms(2) d] preservesD_run [OF assms(1) m] \<open>I w\<close> by blast
  then show "I (snd (deferM m d w))" using m d by (simp add: deferM_def split: res.split)
qed

lemma preserves_modifyM: "(\<And>w. I w \<Longrightarrow> I (f w)) \<Longrightarrow> preserves I (modifyM f)"
  by (simp add: preserves_def modifyM_def)

lemma preserves_if [preserves_rules]:
  "(b \<Longrightarrow> preserves I m) \<Longrightarrow> (\<not> b \<Longrightarrow> preserves I n) \<Longrightarrow> preserves I (if b then m else n)"
  by simp

lemma preserves_option [preserves_rules]:
  "(x = None \<Longrightarrow> preserves I m) \<Longrightarrow> (\<And>y. x = Some y \<Longrightarrow> preserves I (n y)) \<Longrightarrow>
   preserves I (case x of None \<Rightarrow> m | Some y \<Rightarrow> n y)"
  by (cases x) auto

lemma preserves_prod [preserves_rules]:
  "(\<And>a b. x = (a, b) \<Longrightarrow> preserves I (m a b)) \<Longrightarrow>
   preserves I (case x of (a, b) \<Rightarrow> m a b)"
  by (cases x) auto

lemma preserves_list [preserves_rules]:
  "(x = [] \<Longrightarrow> preserves I m) \<Longrightarrow> (\<And>y ys. x = y # ys \<Longrightarrow> preserves I (n y ys)) \<Longrightarrow>
   preserves I (case x of [] \<Rightarrow> m | y # ys \<Rightarrow> n y ys)"
  by (cases x) auto

lemma preserves_Let [preserves_rules]:
  "preserves I (f x) \<Longrightarrow> preserves I (Let x f)"
  by (simp add: Let_def)

lemma preserves_forM [preserves_rules]:
  "(\<And>x. x \<in> set xs \<Longrightarrow> preserves I (f x)) \<Longrightarrow> preserves I (forM xs f)"
  by (induction xs) (auto intro: preserves_skipM preserves_thenM)

subsection \<open>Actions that never panic\<close>

definition returns :: "('w, 'a) action \<Rightarrow> bool" where
  "returns m \<longleftrightarrow> (\<forall>w. \<exists>x. fst (m w) = Ret x)"

lemma returnsD: "returns m \<Longrightarrow> \<exists>x w'. m w = (Ret x, w')"
  unfolding returns_def by (metis prod.collapse)

lemma returns_no_panic: "returns m \<Longrightarrow> fst (m w) \<noteq> Panic p"
  unfolding returns_def by (metis res.distinct(1))

lemma returns_returnM [returns_rules]: "returns (returnM x)"
  by (simp add: returns_def returnM_def)

lemma returns_skipM [returns_rules]: "returns skipM"
  by (simp add: returns_def skipM_def returnM_def)

lemma returns_readM [returns_rules]: "returns (readM f)"
  by (simp add: returns_def readM_def)

lemma returns_modifyM [returns_rules]: "returns (modifyM f)"
  by (simp add: returns_def modifyM_def)

lemma returns_bindM [returns_rules]:
  assumes "returns m" and "\<And>x. returns (f x)"
  shows "returns (bindM m f)"
  unfolding returns_def
proof
  fix w
  obtain x w1 where "m w = (Ret x, w1)" using returnsD [OF assms(1)] by blast
  then show "\<exists>y. fst (bindM m f w) = Ret y"
    using assms(2) [of x] by (simp add: bindM_def returns_def)
qed

lemma returns_deferM [returns_rules]: "returns m \<Longrightarrow> returns d \<Longrightarrow> returns (deferM m d)"
  unfolding returns_def deferM_def by (auto split: prod.split res.split) (metis fst_conv res.distinct(1))+

lemma returns_thenM [returns_rules]: "returns m \<Longrightarrow> returns n \<Longrightarrow> returns (thenM m n)"
  by (simp add: thenM_def returns_bindM)

lemma returns_if [returns_rules]:
  "(b \<Longrightarrow> returns m) \<Longrightarrow> (\<not> b \<Longrightarrow> returns n) \<Longrightarrow> returns (if b then m else n)"
  by simp

lemma returns_option [returns_rules]:
  "(x = None \<Longrightarrow> returns m) \<Longrightarrow> (\<And>y. x = Some y \<Longrightarrow> returns (n y)) \<Longrightarrow>
   returns (case x of None \<Rightarrow> m | Some y \<Rightarrow> n y)"
  by (cases x) auto

lemma returns_prod [returns_rules]:
  "(\<And>a b. x = (a, b) \<Longrightarrow> returns (m a b)) \<Longrightarrow> returns (case x of (a, b) \<Rightarrow> m a b)"
  by (cases x) auto

lemma returns_list [returns_rules]:
  "(x = [] \<Longrightarrow> returns m) \<Longrightarrow> (\<And>y ys. x = y # ys \<Longrightarrow> returns (n y ys)) \<Longrightarrow>
   returns (case x of [] \<Rightarrow> m | y # ys \<Rightarrow> n y ys)"
  by (cases x) auto

lemma returns_sum [returns_rules]:
  "(\<And>a. x = Inl a \<Longrightarrow> returns (m a)) \<Longrightarrow> (\<And>b. x = Inr b \<Longrightarrow> returns (n b)) \<Longrightarrow>
   returns (case x of Inl a \<Rightarrow> m a | Inr b \<Rightarrow> n b)"
  by (cases x) auto

lemma returns_Let [returns_rules]: "returns (f x) \<Longrightarrow> returns (Let x f)"
  by (simp add: Let_def)

lemma returns_forM [returns_rules]:
  "(\<And>x. x \<in> set xs \<Longrightarrow> returns (f x)) \<Longrightarrow> returns (forM xs f)"
  by (induction xs) (auto intro: returns_skipM returns_thenM)

subsection \<open>Values an action may return\<close>

definition yields :: "('a \<Rightarrow> bool) \<Rightarrow> ('w, 'a) action \<Rightarrow> bool" where
  "yields Q m \<longleftrightarrow> (\<forall>w x w'. m w = (Ret x, w') \<longrightarrow> Q x)"

lemma yieldsD: "yields Q m \<Longrightarrow> m w = (Ret x, w') \<Longrightarrow> Q x"
  by (auto simp: yields_def)

lemma yields_mono: "yields P m \<Longrightarrow> (\<And>x. P x \<Longrightarrow> Q x) \<Longrightarrow> yields Q m"
  by (auto simp: yields_def)

lemma yields_True [simp]: "yields (\<lambda>_. True) m"
  by (simp add: yields_def)

lemma yields_returnM [yields_rules]: "Q x \<Longrightarrow> yields Q (returnM x)"
  by (simp add: yields_def returnM_def)

lemma yields_panicM [yields_rules]: "yields Q (panicM p)"
  by (simp add: yields_def panicM_def)

lemma yields_bind_inv:
  assumes "yields P m" and "\<And>x. P x \<Longrightarrow> yields Q (f x)"
  shows "yields Q (bindM m f)"
  unfolding yields_def
proof (intro allI impI)
  fix w y w'
  assume run: "bindM m f w = (Ret y, w')"
  obtain r w1 where m: "m w = (r, w1)" by fastforce
  with run obtain x where "r = Ret x" "f x w1 = (Ret y, w')"
    by (cases r) (auto simp: bindM_def)
  with m assms show "Q y" by (auto dest: yieldsD)
qed

lemma yields_bindM [yields_rules]: "(\<And>x. yields Q (f x)) \<Longrightarrow> yields Q (bindM m f)"
  by (rule yields_bind_inv [of "\<lambda>_. True"]) simp_all

lemma yields_thenM [yields_rules]: "yields Q n \<Longrightarrow> yields Q (thenM m n)"
  by (simp add: thenM_def yields_bindM)

lemma yields_if [yields_rules]:
  "(b \<Longrightarrow> yields Q m) \<Longrightarrow> (\<not> b \<Longrightarrow> yields Q n) \<Longrightarrow> yields Q (if b then m else n)"
  by simp

lemma yields_option [yields_rules]:
  "(x = None \<Longrightarrow> yields Q m) \<Longrightarrow> (\<And>y. x = Some y \<Longrightarrow> yields Q (n y)) \<Longrightarrow>
   yields Q (case x of None \<Rightarrow> m | Some y \<Rightarrow> n y)"
  by (cases x) auto

lemma yields_prod [yields_rules]:
  "(\<And>a b. x = (a, b) \<Longrightarrow> yields Q (m a b)) \<Longrightarrow> yields Q (case x of (a, b) \<Rightarrow> m a b)"
  by (cases x) auto

lemma yields_list [yields_rules]:
  "(x = [] \<Longrightarrow> yields Q m) \<Longrightarrow> (\<And>y ys. x = y # ys \<Longrightarrow> yields Q (n y ys)) \<Longrightarrow>
   yields Q (case x of [] \<Rightarrow> m | y # ys \<Rightarrow> n y ys)"
  by (cases x) auto

lemma yields_sum [yields_rules]:
  "(\<And>a. x = Inl a \<Longrightarrow> yields Q (m a)) \<Longrightarrow> (\<And>b. x = Inr b \<Longrightarrow> yields Q (n b)) \<Longrightarrow>
   yields Q (case x of Inl a \<Rightarrow> m a | Inr b \<Rightarrow> n b)"
  by (cases x) auto

lemma yields_Let [yields_rules]: "yields Q (f x) \<Longrightarrow> yields Q (Let x f)"
  by (simp add: Let_def)

section \<open>Machine integers\<close>

definition wrap64 :: "int \<Rightarrow> int" where
  "wrap64 i = (i + 2 ^ 63) mod 2 ^ 64 - 2 ^ 63"

definition int64 :: "int \<Rightarrow> bool" where
  "int64 i \<longleftrightarrow> - (2 ^ 63) \<le> i \<and> i < 2 ^ 63"

lemma wrap64_id [simp]: "int64 i \<Longrightarrow> wrap64 i = i"
  by (simp add: wrap64_def int64_def)

lemma int64_wrap64 [simp]: "int64 (wrap64 i)"
  by (simp add: wrap64_def int64_def)

end
