(* ===== verification/GoStrings.thy ===== *)
theory GoStrings
  imports Prelude "HOL-Library.Sublist" "HOL-Library.List_Lexorder" "HOL-Library.Char_ord"
    "HOL-Library.Multiset"
begin

text \<open>
  What the program uses of Go's \<open>strings\<close>, \<open>strconv\<close> and \<open>sort\<close> packages.
  A Go string is a byte string, here a \<open>string\<close> of 8-bit characters. Case mapping and
  trimming are those Go performs on ASCII bytes; bytes above 0x7F are left alone
  (Go maps non-ASCII letters and trims non-ASCII spaces too, through the Unicode
  tables, which are not modelled). Every separator the program splits at is a single
  byte, so \<open>Split\<close> takes a character.
  Positions are \<open>nat option\<close>, \<open>None\<close> where Go returns -1.
\<close>

section \<open>Characters\<close>

definition to_lower :: "char \<Rightarrow> char" where
  "to_lower c = (let n = (of_char c :: nat) in if 65 \<le> n \<and> n \<le> 90 then char_of (n + 32) else c)"

definition is_space :: "char \<Rightarrow> bool" where
  "is_space c = (let n = (of_char c :: nat) in n = 32 \<or> (9 \<le> n \<and> n \<le> 13))"

definition newline :: string where
  "newline = [CHR 0x0A]"

section \<open>The strings package\<close>

definition ToLower :: "string \<Rightarrow> string" where
  "ToLower s = map to_lower s"

definition TrimLeft :: "string \<Rightarrow> string" where
  "TrimLeft s = dropWhile is_space s"

definition TrimRight :: "string \<Rightarrow> string" where
  "TrimRight s = rev (dropWhile is_space (rev s))"

definition TrimSpace :: "string \<Rightarrow> string" where
  "TrimSpace s = TrimRight (TrimLeft s)"

definition HasPrefix :: "string \<Rightarrow> string \<Rightarrow> bool" where
  "HasPrefix s p = prefix p s"

definition HasSuffix :: "string \<Rightarrow> string \<Rightarrow> bool" where
  "HasSuffix s p = suffix p s"

fun Index :: "string \<Rightarrow> string \<Rightarrow> nat option" where
  "Index [] sub = (if sub = [] then Some 0 else None)"
| "Index (c # cs) sub = (if prefix sub (c # cs) then Some 0 else map_option Suc (Index cs sub))"

fun LastIndex :: "string \<Rightarrow> string \<Rightarrow> nat option" where
  "LastIndex [] sub = (if sub = [] then Some 0 else None)"
| "LastIndex (c # cs) sub =
     (case LastIndex cs sub of
        Some i \<Rightarrow> Some (Suc i)
      | None \<Rightarrow> if prefix sub (c # cs) then Some 0 else None)"

definition Contains :: "string \<Rightarrow> string \<Rightarrow> bool" where
  "Contains s sub = (Index s sub \<noteq> None)"

fun Split :: "char \<Rightarrow> string \<Rightarrow> string list" where
  "Split c [] = [[]]"
| "Split c (x # xs) =
     (if x = c then [] # Split c xs
      else (case Split c xs of [] \<Rightarrow> [[x]] | y # ys \<Rightarrow> (x # y) # ys))"

text \<open>\<open>strings.SplitN(s, sep, 2)\<close>: at most two parts, cut at the first separator.\<close>

definition SplitN2 :: "char \<Rightarrow> string \<Rightarrow> string list" where
  "SplitN2 c s = (case Index s [c] of None \<Rightarrow> [s] | Some i \<Rightarrow> [take i s, drop (Suc i) s])"

text \<open>\<open>strings.SplitN(s, sep, 1)\<close>: one part, the whole string.\<close>

definition SplitN1 :: "char \<Rightarrow> string \<Rightarrow> string list" where
  "SplitN1 c s = [s]"

fun Join :: "string list \<Rightarrow> string \<Rightarrow> string" where
  "Join [] sep = []"
| "Join [x] sep = x"
| "Join (x # y # ys) sep = x @ sep @ Join (y # ys) sep"

text \<open>\<open>strings.Replace(s, old, new, 1)\<close>.\<close>

definition Replace1 :: "string \<Rightarrow> string \<Rightarrow> string \<Rightarrow> string" where
  "Replace1 s old new =
     (case Index s old of None \<Rightarrow> s | Some i \<Rightarrow> take i s @ new @ drop (i + length old) s)"

text \<open>
  \<open>strings.ReplaceAll\<close>: non-overlapping occurrences from the left. An empty \<open>old\<close>
  matches before every character and at the end.
\<close>

function ReplaceAll :: "string \<Rightarrow> string \<Rightarrow> string \<Rightarrow> string" where
  "ReplaceAll s old new =
     (if old = [] then concat (map (\<lambda>c. new @ [c]) s) @ new
      else (case s of
          [] \<Rightarrow> []
        | c # cs \<Rightarrow>
            if prefix old s then new @ ReplaceAll (drop (length old) s) old new
            else c # ReplaceAll cs old new))"
  by pat_completeness auto
termination
  by (relation "measure (\<lambda>(s, old, new). length s)") auto

declare ReplaceAll.simps [simp del]

definition TrimSuffix :: "string \<Rightarrow> string \<Rightarrow> string" where
  "TrimSuffix s p = (if suffix p s then take (length s - length p) s else s)"

text \<open>\<open>sort.Strings\<close>: byte-wise lexicographic order.\<close>

definition sortStrings :: "string list \<Rightarrow> string list" where
  "sortStrings xs = sort xs"

section \<open>The strconv package\<close>

definition is_digit :: "char \<Rightarrow> bool" where
  "is_digit c = (let n = (of_char c :: nat) in 48 \<le> n \<and> n \<le> 57)"

definition digit_val :: "char \<Rightarrow> nat" where
  "digit_val c = of_char c - 48"

definition parse_digits :: "string \<Rightarrow> nat" where
  "parse_digits s = foldl (\<lambda>n c. 10 * n + digit_val c) 0 s"

text \<open>
  \<open>strconv.ParseInt(s, 10, 64)\<close>, and \<open>strconv.Atoi\<close> on a 64-bit platform: an optional
  sign, at least one digit, nothing else, and a value that fits in 64 bits.
\<close>

definition ParseInt :: "string \<Rightarrow> int option" where
  "ParseInt s =
     (let (neg, ds) =
        (case s of
           [] \<Rightarrow> (False, [])
         | c # cs \<Rightarrow> if c = CHR ''-'' then (True, cs) else if c = CHR ''+'' then (False, cs) else (False, s))
      in if ds = [] \<or> \<not> list_all is_digit ds then None
         else let v = (if neg then - int (parse_digits ds) else int (parse_digits ds))
              in if int64 v then Some v else None)"

definition Atoi :: "string \<Rightarrow> int option" where
  "Atoi s = ParseInt s"

definition digit_char :: "nat \<Rightarrow> char" where
  "digit_char d = char_of (48 + d)"

fun show_nat :: "nat \<Rightarrow> string" where
  "show_nat n = (if n < 10 then [digit_char n] else show_nat (n div 10) @ [digit_char (n mod 10)])"

declare show_nat.simps [simp del]

definition Itoa :: "int \<Rightarrow> string" where
  "Itoa i = (if i < 0 then CHR ''-'' # show_nat (nat (- i)) else show_nat (nat i))"

text \<open>The verb \<open>%q\<close> of package fmt on a string; bytes from 128 on are kept.\<close>

definition hex_digit :: "nat \<Rightarrow> char" where
  "hex_digit n = ''0123456789abcdef'' ! n"

definition quote_char :: "char \<Rightarrow> string" where
  "quote_char c =
     (let n = of_char c :: nat in
      if n = 0x22 \<or> n = 0x5C then [CHR 0x5C, c]
      else if 0x20 \<le> n \<and> n \<noteq> 0x7F then [c]
      else if 7 \<le> n \<and> n \<le> 13 then [CHR 0x5C, ''abtnvfr'' ! (n - 7)]
      else [CHR 0x5C, CHR ''x'', hex_digit (n div 16), hex_digit (n mod 16)])"

definition GoQuote :: "string \<Rightarrow> string" where
  "GoQuote s = [CHR 0x22] @ concat (map quote_char s) @ [CHR 0x22]"

definition FormatBool :: "bool \<Rightarrow> string" where
  "FormatBool b = (if b then ''true'' else ''false'')"

section \<open>Lemmas\<close>

subsection \<open>Case and white space\<close>

lemma to_lower_idem [simp]: "to_lower (to_lower c) = to_lower c"
  by (auto simp: to_lower_def Let_def)

lemma ToLower_idem [simp]: "ToLower (ToLower s) = ToLower s"
  by (simp add: ToLower_def)

lemma ToLower_Nil [simp]: "ToLower [] = []"
  by (simp add: ToLower_def)

lemma ToLower_eq_Nil [simp]: "ToLower s = [] \<longleftrightarrow> s = []"
  by (simp add: ToLower_def)

lemma ToLower_append: "ToLower (s @ t) = ToLower s @ ToLower t"
  by (simp add: ToLower_def)

lemma is_space_to_lower [simp]: "is_space (to_lower c) = is_space c"
  by (auto simp: to_lower_def is_space_def Let_def)

lemma TrimLeft_Nil [simp]: "TrimLeft [] = []"
  by (simp add: TrimLeft_def)

lemma TrimRight_Nil [simp]: "TrimRight [] = []"
  by (simp add: TrimRight_def)

lemma TrimSpace_Nil [simp]: "TrimSpace [] = []"
  by (simp add: TrimSpace_def)

lemma TrimRight_snoc: "TrimRight (s @ [c]) = (if is_space c then TrimRight s else s @ [c])"
  by (simp add: TrimRight_def)

lemma TrimRight_idem [simp]: "TrimRight (TrimRight s) = TrimRight s"
  by (simp add: TrimRight_def)

lemma TrimLeft_idem [simp]: "TrimLeft (TrimLeft s) = TrimLeft s"
  by (simp add: TrimLeft_def)

lemma TrimRight_Cons:
  "TrimRight (c # s) = (if is_space c \<and> TrimRight s = [] then [] else c # TrimRight s)"
  by (induction s rule: rev_induct) (auto simp: TrimRight_def dropWhile_append)

lemma TrimLeft_TrimRight: "TrimLeft (TrimRight s) = TrimRight (TrimLeft s)"
proof (induction s)
  case (Cons c s)
  then show ?case
    by (cases "is_space c") (auto simp: TrimRight_Cons TrimLeft_def)
qed simp

lemma TrimSpace_idem [simp]: "TrimSpace (TrimSpace s) = TrimSpace s"
  by (simp add: TrimSpace_def TrimLeft_TrimRight)

lemma set_TrimSpace: "set (TrimSpace s) \<subseteq> set s"
  by (auto simp: TrimSpace_def TrimLeft_def TrimRight_def dest!: set_dropWhileD)

lemma dropWhile_none: "\<forall>c \<in> set s. \<not> P c \<Longrightarrow> dropWhile P s = s"
  by (induction s) auto

lemma TrimSpace_no_space: "\<forall>c \<in> set s. \<not> is_space c \<Longrightarrow> TrimSpace s = s"
  by (simp add: TrimSpace_def TrimLeft_def TrimRight_def dropWhile_none)

lemma dropWhile_map_lower:
  "dropWhile is_space (map to_lower s) = map to_lower (dropWhile is_space s)"
  by (induction s) auto

lemma TrimSpace_ToLower: "TrimSpace (ToLower s) = ToLower (TrimSpace s)"
  by (simp add: TrimSpace_def ToLower_def TrimLeft_def TrimRight_def rev_map dropWhile_map_lower)

subsection \<open>Searching\<close>

lemma Index_SomeD:
  "Index s sub = Some i \<Longrightarrow> s = take i s @ sub @ drop (i + length sub) s"
proof (induction s arbitrary: i)
  case (Cons c s)
  show ?case
  proof (cases "prefix sub (c # s)")
    case True
    with Cons.prems show ?thesis by (auto simp: prefix_def)
  next
    case False
    with Cons.prems obtain j where "i = Suc j" and "Index s sub = Some j" by auto
    with Cons.IH [of j] show ?thesis by simp
  qed
qed (auto split: if_splits)

lemma Index_bound: "Index s sub = Some i \<Longrightarrow> i + length sub \<le> length s"
  by (induction s arbitrary: i) (auto split: if_splits dest: prefix_length_le)

lemma Index_prefix: "prefix sub s \<Longrightarrow> Index s sub = Some 0"
  by (cases s) auto

lemma Index_append_Some: "\<exists>i. Index (u @ sub @ v) sub = Some i"
proof (induction u)
  case Nil
  show ?case by (simp add: Index_prefix)
qed auto

lemma Contains_iff: "Contains s sub \<longleftrightarrow> sublist sub s"
proof
  assume "Contains s sub"
  then obtain i where "Index s sub = Some i" by (auto simp: Contains_def)
  then show "sublist sub s" using Index_SomeD by (metis sublist_def)
next
  assume "sublist sub s"
  then obtain u v where "s = u @ sub @ v" by (auto simp: sublist_def)
  then show "Contains s sub" using Index_append_Some by (auto simp: Contains_def)
qed

lemma Contains_Nil [simp]: "Contains s []"
  by (simp add: Contains_iff)

lemma Contains_char [simp]: "Contains s [c] \<longleftrightarrow> c \<in> set s"
  by (auto simp: Contains_iff sublist_def in_set_conv_decomp)

lemma Index_char_None: "Index s [c] = None \<longleftrightarrow> c \<notin> set s"
  using Contains_char [of s c] by (auto simp: Contains_def)

lemma Index_char_absent [simp]: "c \<notin> set s \<Longrightarrow> Index s [c] = None"
  by (simp add: Index_char_None)

lemma Index_char_Some:
  "Index s [c] = Some i \<Longrightarrow> c \<notin> set (take i s) \<and> i < length s \<and> s ! i = c"
  by (induction s arbitrary: i) (auto split: if_splits)

lemma LastIndex_None: "LastIndex s sub = None \<longleftrightarrow> \<not> Contains s sub"
  by (induction s) (auto simp: Contains_def split: option.splits)

lemma LastIndex_char_absent [simp]: "c \<notin> set s \<Longrightarrow> LastIndex s [c] = None"
  by (simp add: LastIndex_None)

lemma LastIndex_char_Some:
  "LastIndex s [c] = Some i \<Longrightarrow> c \<notin> set (drop (Suc i) s) \<and> i < length s \<and> s ! i = c"
  by (induction s arbitrary: i) (auto simp: LastIndex_None split: if_splits option.splits)

lemma Index_decomp: "c \<notin> set u \<Longrightarrow> Index (u @ c # v) [c] = Some (length u)"
  by (induction u) auto

lemma LastIndex_decomp: "c \<notin> set v \<Longrightarrow> LastIndex (u @ c # v) [c] = Some (length u)"
  by (induction u) auto

subsection \<open>Splitting and joining\<close>

lemma Split_not_Nil [simp]: "Split c s \<noteq> []"
  by (cases s) (auto split: list.splits)

lemma Split_cong_Cons:
  "x \<noteq> c \<Longrightarrow> Split c (x # xs) = (x # hd (Split c xs)) # tl (Split c xs)"
  by (cases "Split c xs") auto

lemma Split_no_sep: "p \<in> set (Split c s) \<Longrightarrow> c \<notin> set p"
  by (induction s arbitrary: p) (auto split: if_splits list.splits)

lemma Split_none [simp]: "c \<notin> set s \<Longrightarrow> Split c s = [s]"
  by (induction s) auto

lemma set_Split: "p \<in> set (Split c s) \<Longrightarrow> set p \<subseteq> set s"
proof (induction s arbitrary: p)
  case (Cons x xs)
  then show ?case by (cases "Split c xs") (fastforce split: if_splits)+
qed simp

lemma Split_append: "c \<notin> set u \<Longrightarrow> Split c (u @ c # v) = u # Split c v"
  by (induction u) auto

lemma Join_Split [simp]: "Join (Split c s) [c] = s"
proof (induction s)
  case (Cons x xs)
  show ?case
  proof (cases "Split c xs")
    case (Cons y ys)
    with Cons.IH show ?thesis by (cases ys) (auto split: list.splits)
  qed simp
qed simp

lemma Split_Join:
  "xs \<noteq> [] \<Longrightarrow> \<forall>p \<in> set xs. c \<notin> set p \<Longrightarrow> Split c (Join xs [c]) = xs"
  by (induction xs "[c]" rule: Join.induct) (auto simp: Split_append)

lemma length_Split: "length (Split c s) = Suc (count_list s c)"
  by (induction s) (auto split: list.splits)

lemma Join_eq_Nil: "Join xs sep = [] \<Longrightarrow> sep \<noteq> [] \<Longrightarrow> xs = [] \<or> xs = [[]]"
  by (cases "(xs, sep)" rule: Join.cases) auto

lemma set_Join: "set (Join xs sep) \<subseteq> \<Union> (set ` set xs) \<union> set sep"
  by (induction xs sep rule: Join.induct) auto

lemma SplitN2_cases:
  "c \<notin> set s \<and> SplitN2 c s = [s] \<or>
   (\<exists>u v. s = u @ c # v \<and> c \<notin> set u \<and> SplitN2 c s = [u, v])"
proof (cases "c \<in> set s")
  case True
  then obtain u v where "s = u @ c # v" and "c \<notin> set u" by (metis split_list_first)
  then show ?thesis by (auto simp: SplitN2_def Index_decomp)
qed (simp add: SplitN2_def)

subsection \<open>Replacing\<close>

lemma ReplaceAll_Nil [simp]: "old \<noteq> [] \<Longrightarrow> ReplaceAll [] old new = []"
  by (simp add: ReplaceAll.simps)

lemma ReplaceAll_char_empty: "ReplaceAll s [c] [] = filter (\<lambda>x. x \<noteq> c) s"
proof (induction s)
  case (Cons x xs)
  then show ?case by (subst ReplaceAll.simps) simp
qed simp

lemma ReplaceAll_not_Contains:
  assumes "\<not> Contains s old"
  shows "ReplaceAll s old new = s"
  using assms
proof (induction s)
  case Nil
  then show ?case by (cases "old = []") auto
next
  case (Cons c cs)
  have "old \<noteq> []" using Cons.prems by auto
  moreover have "\<not> prefix old (c # cs)" and "\<not> Contains cs old"
    using Cons.prems by (auto simp: Contains_def split: if_splits)
  ultimately show ?case using Cons.IH by (subst ReplaceAll.simps) simp
qed

subsection \<open>Sorting\<close>

lemma sortStrings_simps [simp]:
  "set (sortStrings xs) = set xs" "mset (sortStrings xs) = mset xs"
  "sorted (sortStrings xs)" "length (sortStrings xs) = length xs"
  "sortStrings (sortStrings xs) = sortStrings xs" "distinct (sortStrings xs) = distinct xs"
  by (simp_all add: sortStrings_def sorted_sort_id)

lemma sortStrings_Nil [simp]: "sortStrings [] = []" "sortStrings xs = [] \<longleftrightarrow> xs = []"
  by (simp_all add: sortStrings_def flip: length_0_conv)

subsection \<open>Numbers\<close>

lemma parse_digits_snoc: "parse_digits (s @ [c]) = 10 * parse_digits s + digit_val c"
  by (simp add: parse_digits_def)

lemma digit_char_simps:
  "d < 10 \<Longrightarrow> is_digit (digit_char d)" "d < 10 \<Longrightarrow> digit_val (digit_char d) = d"
  by (auto simp: is_digit_def digit_char_def digit_val_def)

lemma show_nat_digits: "list_all is_digit (show_nat n)"
proof (induction n rule: show_nat.induct)
  case (1 n)
  then show ?case by (subst show_nat.simps) (simp add: digit_char_simps)
qed

lemma show_nat_not_Nil [simp]: "show_nat n \<noteq> []"
  by (subst show_nat.simps) simp

lemma parse_show_nat [simp]: "parse_digits (show_nat n) = n"
proof (induction n rule: show_nat.induct)
  case (1 n)
  then show ?case
    by (subst show_nat.simps)
      (auto simp: parse_digits_snoc digit_char_simps, simp add: parse_digits_def digit_char_simps)
qed

lemma show_nat_hd: "\<exists>c cs. show_nat n = c # cs \<and> is_digit c"
  using show_nat_digits [of n] show_nat_not_Nil [of n] by (cases "show_nat n") auto

lemma Atoi_Itoa: "int64 i \<Longrightarrow> Atoi (Itoa i) = Some i"
proof (cases "i < 0")
  case True
  moreover assume "int64 i"
  ultimately show ?thesis
    using show_nat_digits [of "nat (- i)"] by (simp add: Atoi_def ParseInt_def Itoa_def)
next
  case False
  moreover assume "int64 i"
  moreover obtain c cs where "show_nat (nat i) = c # cs" and "is_digit c"
    using show_nat_hd by blast
  moreover from this have "c \<noteq> CHR ''-''" and "c \<noteq> CHR ''+''" by (auto simp: is_digit_def)
  ultimately show ?thesis
    using show_nat_digits [of "nat i"] parse_show_nat [of "nat i"]
    by (simp add: Atoi_def ParseInt_def Itoa_def)
qed

lemma ParseInt_range: "ParseInt s = Some i \<Longrightarrow> int64 i"
  by (auto simp: ParseInt_def Let_def split: if_splits prod.splits)

lemma Atoi_Nil [simp]: "Atoi [] = None"
  by (simp add: Atoi_def ParseInt_def)

end
