(* ===== verification/Externals.thy ===== *)
theory Externals
  imports GoStrings
begin

text \<open>
  Code the program calls and does not contain: third-party packages (vendored address,
  markdown, MIME and DKIM libraries, the password hash), and the parts of Go's standard
  library that are parsers of their own (mail addresses, URLs, time stamps) or that ask
  the network (name resolution). Each is a field of \<open>externals\<close>, and every
  definition that reaches one takes the record \<open>X\<close> as an argument, so a theorem
  holds for every behaviour of that code; where a theorem relies on documented behaviour,
  it names one of the laws below as a hypothesis.
\<close>

text \<open>What the program reads of a \<open>*url.URL\<close>: its text and its parts.\<close>

record url =
  url_text :: string
  url_hostname :: string
  url_port :: string
  url_username :: string
  url_password :: string

text \<open>
  The message \<open>Compose\<close> asks the enmime builder for: addresses, extra headers in the order
  they are set, subject and bodies.
\<close>

record mailspec =
  ms_from :: string
  ms_to :: string
  ms_cc :: "string list"
  ms_subject :: string
  ms_headers :: "(string \<times> string) list"
  ms_text :: "string option"
  ms_html :: "string option"

record externals =
  ext_ParseAddress :: "string \<Rightarrow> string option"
    \<comment> \<open>net/mail: the address part, None for an error\<close>
  ext_ParseAddressList :: "string \<Rightarrow> string list"
    \<comment> \<open>net/mail: the address parts, empty for an error\<close>
  ext_emailaddress :: "string \<Rightarrow> (string \<times> string) option"
    \<comment> \<open>go-emailaddress Parse: local part and domain\<close>
  ext_url :: "string \<Rightarrow> url option"
    \<comment> \<open>net/url Parse\<close>
  ext_FormatTime :: "int \<Rightarrow> string"
    \<comment> \<open>a time (Unix seconds, UTC) in layout RFC1123Z\<close>
  ext_ParseTime :: "string \<Rightarrow> int option"
    \<comment> \<open>the inverse, None for an error\<close>
  ext_FormatCompact :: "int \<Rightarrow> string"
    \<comment> \<open>a time (Unix seconds, UTC) in layout 20060102T150405Z\<close>
  ext_DateOnly :: "int \<Rightarrow> string"
    \<comment> \<open>the day of a time (Unix seconds, UTC) in layout DateOnly\<close>
  ext_range :: "string list \<Rightarrow> string list"
    \<comment> \<open>the order in which a range over a map takes the keys, given sorted\<close>
  ext_hash :: "string \<Rightarrow> string + string"
    \<comment> \<open>argon2pw GenerateSaltedHash: an error or the hash\<close>
  ext_checkhash :: "string \<Rightarrow> string \<Rightarrow> bool"
    \<comment> \<open>argon2pw CompareHashWithPassword: hash, password\<close>
  ext_ResolveIP :: "string \<Rightarrow> string + string"
    \<comment> \<open>net ResolveIPAddr: an error or the address as text\<close>
  ext_dkim :: "string + string \<times> string"
    \<comment> \<open>go-secgen DKIM: an error or signature and private key\<close>
  ext_markdown :: "string \<Rightarrow> string \<times> string"
    \<comment> \<open>mautrix RenderMarkdown: plain and formatted body\<close>
  ext_mime :: "string \<Rightarrow> string"
    \<comment> \<open>mimetype Detect on the content, as text\<close>
  ext_html2md :: "string \<Rightarrow> string"
    \<comment> \<open>mautrix HTMLToMarkdown\<close>
  ext_mailstrip :: "string \<Rightarrow> string"
    \<comment> \<open>mailstrip Parse and String: quotes and signature removed\<close>
  ext_build :: "mailspec \<Rightarrow> string option"
    \<comment> \<open>enmime Build and Encode: the message text, None for an error\<close>
  ext_pem :: "string \<Rightarrow> string option"
    \<comment> \<open>encoding/pem Decode: the block's bytes\<close>
  ext_pkcs8 :: "string \<Rightarrow> string option"
    \<comment> \<open>crypto/x509 ParsePKCS8PrivateKey, a key that can sign\<close>
  ext_dkimsign :: "string \<Rightarrow> string \<Rightarrow> string \<Rightarrow> string \<Rightarrow> string option"
    \<comment> \<open>go-msgauth Sign: domain, selector, key, message; None for an error\<close>

text \<open>Documented behaviour the theorems name as hypotheses.\<close>

text \<open>
  \<open>emailaddress.Parse\<close> cuts the address at its last at-sign, and rejects an empty domain.
\<close>

definition emailaddress_law :: "externals \<Rightarrow> bool" where
  "emailaddress_law X \<longleftrightarrow>
     (\<forall>s l d. ext_emailaddress X s = Some (l, d) \<longrightarrow>
        s = l @ ''@'' @ d \<and> d \<noteq> [] \<and> CHR ''@'' \<notin> set d)"

text \<open>
  Parsing a time stamp inverts formatting it, at the resolution of one second, for the times
  the layout can write (up to the year 9999).
\<close>

definition valid_time :: "int \<Rightarrow> bool" where
  "valid_time t \<longleftrightarrow> 0 \<le> t \<and> t < 253402300800"

definition time_law :: "externals \<Rightarrow> bool" where
  "time_law X \<longleftrightarrow>
     (\<forall>t. valid_time t \<longrightarrow> ext_ParseTime X (ext_FormatTime X t) = Some t \<and> ext_FormatTime X t \<noteq> [])"

text \<open>A range over a map takes every key once, in some order.\<close>

definition range_law :: "externals \<Rightarrow> bool" where
  "range_law X \<longleftrightarrow> (\<forall>xs. mset (ext_range X xs) = mset xs)"

text \<open>A text that parses as a URL prints to a text that parses to the same URL.\<close>

definition url_law :: "externals \<Rightarrow> bool" where
  "url_law X \<longleftrightarrow> (\<forall>s u. ext_url X s = Some u \<longrightarrow> ext_url X (url_text u) = Some u)"

text \<open>
  Concrete functions that obey the laws, for the theorems that evaluate the program at an
  input: time stamps are decimal numbers, any text is a URL that prints as itself, an address
  is cut at its last at-sign, a hash is the password behind a mark.
\<close>

definition demo_address :: "string \<Rightarrow> (string \<times> string) option" where
  "demo_address s =
     (case LastIndex s ''@'' of
        None \<Rightarrow> None
      | Some i \<Rightarrow> if drop (Suc i) s = [] then None else Some (take i s, drop (Suc i) s))"

definition demo_ext :: externals where
  "demo_ext =
     \<lparr>ext_ParseAddress = (\<lambda>s. if Contains s ''@'' then Some s else None),
      ext_ParseAddressList = (\<lambda>s. Split (CHR '','') s),
      ext_emailaddress = demo_address,
      ext_url = (\<lambda>s. Some \<lparr>url_text = s, url_hostname = s, url_port = [], url_username = [],
                         url_password = []\<rparr>),
      ext_FormatTime = Itoa, ext_ParseTime = Atoi,
      ext_FormatCompact = Itoa, ext_DateOnly = (\<lambda>t. Itoa (t div 86400)), ext_range = id,
      ext_hash = (\<lambda>p. Inr (CHR ''#'' # p)), ext_checkhash = (\<lambda>h p. h = CHR ''#'' # p),
      ext_ResolveIP = Inr, ext_dkim = Inr (''sig'', ''pem''),
      ext_markdown = (\<lambda>s. (s, s)), ext_mime = (\<lambda>_. ''text/plain''), ext_html2md = id,
      ext_mailstrip = id, ext_build = (\<lambda>m. ms_text m), ext_pem = (\<lambda>_. None),
      ext_pkcs8 = (\<lambda>_. None), ext_dkimsign = (\<lambda>_ _ _ _. None)\<rparr>"

lemma demo_ext_sel [simp]:
  "ext_url demo_ext s = Some \<lparr>url_text = s, url_hostname = s, url_port = [], url_username = [],
                         url_password = []\<rparr>"
  "ext_FormatTime demo_ext = Itoa" "ext_ParseTime demo_ext = Atoi"
  "ext_hash demo_ext p = Inr (CHR ''#'' # p)" "ext_checkhash demo_ext h p = (h = CHR ''#'' # p)"
  "ext_FormatCompact demo_ext = Itoa" "ext_range demo_ext = id"
  "ext_ResolveIP demo_ext = Inr" "ext_markdown demo_ext s = (s, s)"
  "ext_emailaddress demo_ext = demo_address"
  by (simp_all add: demo_ext_def)

lemma demo_time_law [simp]: "time_law demo_ext"
proof -
  have "Atoi (Itoa t) = Some t \<and> Itoa t \<noteq> []" if "valid_time t" for t
    using that by (simp add: Atoi_Itoa valid_time_def int64_def) (simp add: Itoa_def)
  then show ?thesis by (simp add: time_law_def)
qed

lemma demo_range_law [simp]: "range_law demo_ext"
  by (simp add: range_law_def)

lemma demo_url_law [simp]: "url_law demo_ext"
  by (simp add: url_law_def)

lemma demo_emailaddress_law [simp]: "emailaddress_law demo_ext"
  by (auto simp: emailaddress_law_def demo_address_def id_take_nth_drop [symmetric]
      split: option.splits if_splits dest: LastIndex_char_Some)
    (metis LastIndex_char_Some id_take_nth_drop)

end
