(* ===== verification/Utils.thy ===== *)
theory Utils
  imports Externals
begin

text \<open>
  The package internal/utils: network addresses, domains, booleans, numbers and lists kept
  as strings (utils.go), addresses (mail.go), the send command (command.go) and attachments
  (file.go). The package variable \<open>domains\<close> is an argument of the functions that read
  it. An index out of range is a \<open>Panic\<close>.
\<close>

definition liftM :: "'a res \<Rightarrow> ('w, 'a) action" where
  "liftM r w = (r, w)"

lemma run_liftM [run_simps]: "liftM r w = (r, w)"
  by (simp add: liftM_def)

lemma preserves_liftM [preserves_rules]: "preserves I (liftM r)"
  by (simp add: preserves_def liftM_def)

section \<open>utils.go\<close>

text \<open>
  A \<open>net.Addr\<close> is the text its \<open>String\<close> method gives. \<open>net.SplitHostPort\<close>: the port
  starts after the last colon; a host in brackets may hold colons, any other may not.
\<close>

type_synonym netaddr = string

definition SplitHostPort :: "string \<Rightarrow> (string \<times> string) option" where
  "SplitHostPort hp =
     (case LastIndex hp '':'' of
        None \<Rightarrow> None
      | Some i \<Rightarrow>
          (let port = drop (Suc i) hp in
           if hp ! 0 = CHR ''['' then
             (case Index hp '']'' of
                None \<Rightarrow> None
              | Some e \<Rightarrow>
                  if Suc e = i \<and> \<not> Contains (drop 1 hp) ''['' \<and> \<not> Contains (drop (Suc e) hp) '']''
                  then Some (drop 1 (take e hp), port) else None)
           else if Contains (take i hp) '':'' \<or> Contains hp ''['' \<or> Contains hp '']'' then None
           else Some (take i hp, port)))"

definition AddrIP :: "netaddr \<Rightarrow> string" where
  "AddrIP addr =
     (case SplitHostPort addr of
        Some (host, _) \<Rightarrow> if host \<noteq> [] then host else addr
      | None \<Rightarrow> addr)"

definition first_domain :: "string list \<Rightarrow> string res" where
  "first_domain domains = (case domains of [] \<Rightarrow> Panic ''index out of range'' | d # _ \<Rightarrow> Ret d)"

definition SanitizeDomain :: "string list \<Rightarrow> string \<Rightarrow> string res" where
  "SanitizeDomain domains d =
     (let d = TrimSpace d in
      if d = [] then first_domain domains
      else if d \<in> set domains then Ret d
      else first_domain domains)"

definition SanitizeURL :: "externals \<Rightarrow> string \<Rightarrow> string" where
  "SanitizeURL X str = (case ext_url X str of None \<Rightarrow> [] | Some u \<Rightarrow> url_text u)"

definition Bool :: "string \<Rightarrow> bool" where
  "Bool str =
     (let str = ToLower str in
      if str = [] then False else str = ''1'' \<or> str = ''true'' \<or> str = ''yes'')"

definition SanitizeBoolString :: "string \<Rightarrow> string" where
  "SanitizeBoolString str = FormatBool (Bool str)"

definition Int_of :: "string \<Rightarrow> int" where
  "Int_of str = (if str = [] then 0 else case Atoi str of None \<Rightarrow> 0 | Some i \<Rightarrow> i)"

definition Int64 :: "string \<Rightarrow> int" where
  "Int64 str = (if str = [] then 0 else case ParseInt str of None \<Rightarrow> 0 | Some i \<Rightarrow> i)"

definition SanitizeIntString :: "string \<Rightarrow> string" where
  "SanitizeIntString str = Itoa (Int_of str)"

definition SliceString :: "string list \<Rightarrow> string" where
  "SliceString strs = Join (sortStrings (filter (\<lambda>s. s \<noteq> []) (map TrimSpace strs))) '',''"

definition StringSlice :: "string \<Rightarrow> string list" where
  "StringSlice str =
     (if str = [] then []
      else let str = TrimSpace str in
        if \<not> Contains str '','' then [str]
        else map TrimSpace (Split (CHR '','') str))"

definition SanitizeStringSlice :: "string \<Rightarrow> string" where
  "SanitizeStringSlice str = SliceString (StringSlice str)"

text \<open>\<open>MapKeys\<close> returns the keys of a map in order.\<close>

definition MapKeys :: "(string, 'v) fmap \<Rightarrow> string list" where
  "MapKeys m = sorted_list_of_fset (fmdom m)"

text \<open>The loop of \<open>Chunks\<close>, and \<open>Chunks\<close>, whose capacity computation divides by the size.\<close>

function chunks_loop :: "nat \<Rightarrow> 'a list \<Rightarrow> 'a list list" where
  "chunks_loop n xs =
     (if 0 < n \<and> n < length xs then take n xs # chunks_loop n (drop n xs) else [xs])"
  by pat_completeness auto
termination
  by (relation "measure (\<lambda>(n, xs). length xs)") auto

declare chunks_loop.simps [simp del]

definition Chunks :: "'a list \<Rightarrow> nat \<Rightarrow> 'a list list res" where
  "Chunks xs n = (if n = 0 then Panic ''integer divide by zero'' else Ret (chunks_loop n xs))"

section \<open>mail.go\<close>

definition EmailParts :: "externals \<Rightarrow> string \<Rightarrow> string \<times> string \<times> string" where
  "EmailParts X email =
     (let email = ToLower (TrimSpace email);
          (mailbox, hostname) =
            (case ext_emailaddress X email of
               Some (local, host) \<Rightarrow> (local, host)
             | None \<Rightarrow>
                 (case Index email ''@'' of None \<Rightarrow> email | Some i \<Rightarrow> take i email,
                  case LastIndex email ''@'' of None \<Rightarrow> email | Some i \<Rightarrow> drop (Suc i) email))
      in case Index mailbox ''+'' of
           None \<Rightarrow> (mailbox, [], hostname)
         | Some i \<Rightarrow>
             (ReplaceAll (take i mailbox) ''+'' [], ReplaceAll (drop i mailbox) ''+'' [], hostname))"

definition Mailbox :: "externals \<Rightarrow> string \<Rightarrow> string" where
  "Mailbox X email = fst (EmailParts X email)"

definition Subaddress :: "externals \<Rightarrow> string \<Rightarrow> string" where
  "Subaddress X email = fst (snd (EmailParts X email))"

definition Hostname :: "externals \<Rightarrow> string \<Rightarrow> string" where
  "Hostname X email = snd (snd (EmailParts X email))"

text \<open>The loop of \<open>EmailsList\<close> from index \<open>i\<close>, where \<open>cnt\<close> is \<open>len(domains) - 1\<close>.\<close>

fun emails_loop :: "string \<Rightarrow> string \<Rightarrow> int \<Rightarrow> int \<Rightarrow> string list \<Rightarrow> string" where
  "emails_loop mailbox host cnt i [] = []"
| "emails_loop mailbox host cnt i (d # ds) =
     (if i < cnt then '', '' else []) @
     (if d = host then [] else mailbox @ ''@'' @ d) @
     emails_loop mailbox host cnt (i + 1) ds"

definition EmailsList :: "string list \<Rightarrow> string \<Rightarrow> string \<Rightarrow> string res" where
  "EmailsList domains mailbox d =
     (case SanitizeDomain domains d of
        Panic p \<Rightarrow> Panic p
      | Ret host \<Rightarrow>
          Ret (mailbox @ ''@'' @ host @
               emails_loop mailbox host (int (length domains) - 1) 0 domains))"

section \<open>command.go\<close>

definition MinSendCommandParts :: nat where
  "MinSendCommandParts = 3"

text \<open>\<open>ParseSend\<close>: \<open>None\<close> is the error \<open>ErrInvalidArgs\<close>.\<close>

definition ParseSend :: "string list \<Rightarrow> (string \<times> string \<times> string) option res" where
  "ParseSend commandSlice =
     (let lines = Split (CHR 0x0A) (Join commandSlice '' '') in
      if length lines < MinSendCommandParts then Ret None
      else (case Split (CHR '' '') (lines ! 0) of
              _ # to # _ \<Rightarrow> Ret (Some (to, lines ! 1, Join (drop 2 lines) newline))
            | _ \<Rightarrow> Panic ''index out of range''))"

section \<open>file.go\<close>

datatype msgtype = MsgFile | MsgImage | MsgVideo | MsgAudio

record gofile =
  f_name :: string
  f_type :: string
  f_msgtype :: msgtype
  f_length :: nat
  f_content :: string

definition mimeMsgType :: "string \<Rightarrow> msgtype" where
  "mimeMsgType mime =
     (if mime = [] then MsgFile
      else if \<not> Contains mime ''/'' then MsgFile
      else let msection = hd (Split (CHR ''/'') mime) in
        if msection = ''image'' then MsgImage
        else if msection = ''video'' then MsgVideo
        else if msection = ''audio'' then MsgAudio
        else MsgFile)"

definition NewFile :: "externals \<Rightarrow> string \<Rightarrow> string \<Rightarrow> gofile" where
  "NewFile X name content =
     \<lparr>f_name = name, f_type = ext_mime X content, f_msgtype = mimeMsgType (ext_mime X content),
      f_length = length content, f_content = content\<rparr>"

section \<open>Lemmas\<close>

subsection \<open>Addresses\<close>

lemma AddrIP_host_port:
  assumes "h \<noteq> []" and "set h \<inter> set '':[]'' = {}" and "set p \<inter> set '':[]'' = {}"
  shows "AddrIP (h @ '':'' @ p) = h"
proof -
  have "LastIndex (h @ '':'' @ p) '':'' = Some (length h)"
    using assms(3) by (simp add: LastIndex_decomp)
  moreover have "(h @ '':'' @ p) ! 0 \<noteq> CHR ''[''"
    using assms(1,2) by (cases h) auto
  ultimately show ?thesis
    using assms by (auto simp: AddrIP_def SplitHostPort_def)
qed

lemma AddrIP_bracketed:
  assumes "h \<noteq> []" and "set h \<inter> set ''[]'' = {}" and "set p \<inter> set '':[]'' = {}"
  shows "AddrIP (''['' @ h @ '']:'' @ p) = h"
proof -
  let ?hp = "''['' @ h @ '']:'' @ p"
  have "LastIndex ((CHR ''['' # h @ '']'') @ CHR '':'' # p) '':'' = Some (length (CHR ''['' # h @ '']''))"
    using assms(3) by (intro LastIndex_decomp) simp
  then have "LastIndex ?hp '':'' = Some (Suc (Suc (length h)))" by simp
  moreover have "Index ((CHR ''['' # h) @ CHR '']'' # CHR '':'' # p) '']'' = Some (length (CHR ''['' # h))"
    using assms(2) by (intro Index_decomp) simp
  then have "Index ?hp '']'' = Some (Suc (length h))" by simp
  ultimately show ?thesis
    using assms by (auto simp: AddrIP_def SplitHostPort_def)
qed

lemma AddrIP_no_colon: "CHR '':'' \<notin> set a \<Longrightarrow> AddrIP a = a"
  by (simp add: AddrIP_def SplitHostPort_def)

subsection \<open>Booleans and numbers\<close>

lemma Bool_FormatBool [simp]: "Bool (FormatBool b) = b"
  by (cases b) (simp_all add: Bool_def FormatBool_def ToLower_def to_lower_def)

lemma Bool_Nil [simp]: "Bool [] = False"
  by (simp add: Bool_def)

lemma SanitizeBoolString_idem: "SanitizeBoolString (SanitizeBoolString s) = SanitizeBoolString s"
  by (simp add: SanitizeBoolString_def)

lemma int64_Int_of: "int64 (Int_of s)"
  by (auto simp: Int_of_def Atoi_def int64_def split: option.split dest: ParseInt_range)

lemma Itoa_not_Nil [simp]: "Itoa i \<noteq> []"
  by (simp add: Itoa_def)

lemma Int_of_SanitizeIntString [simp]: "Int_of (SanitizeIntString s) = Int_of s"
  using Atoi_Itoa [OF int64_Int_of [of s]]
  by (simp add: SanitizeIntString_def Int_of_def [of "Itoa _"])

lemma Int_of_Nil [simp]: "Int_of [] = 0"
  by (simp add: Int_of_def)

subsection \<open>Lists kept as strings\<close>

lemma SliceString_Nil [simp]: "SliceString [] = []"
  by (simp add: SliceString_def)

lemma StringSlice_Nil [simp]: "StringSlice [] = []"
  by (simp add: StringSlice_def)

lemma StringSlice_trimmed: "s \<in> set (StringSlice str) \<Longrightarrow> TrimSpace s = s"
  by (auto simp: StringSlice_def Let_def split: if_splits)

lemma StringSlice_no_comma: "s \<in> set (StringSlice str) \<Longrightarrow> CHR '','' \<notin> set s"
  using set_TrimSpace by (fastforce simp: StringSlice_def Let_def dest: Split_no_sep split: if_splits)

lemma TrimSpace_fix_iff:
  "TrimSpace s = s \<longleftrightarrow> s = [] \<or> \<not> is_space (hd s) \<and> \<not> is_space (last s)"
proof (cases s rule: rev_cases)
  case (snoc t c)
  show ?thesis
  proof (cases "is_space (hd s)")
    case True
    then have "length (TrimLeft s) < length s"
      using snoc unfolding TrimLeft_def
      by (metis append_is_Nil_conv dropWhile.simps(2) length_Cons length_dropWhile_le less_Suc_eq_le
          list.collapse not_Cons_self2)
    moreover have "length (TrimRight (TrimLeft s)) \<le> length (TrimLeft s)"
      by (simp add: TrimRight_def) (metis length_dropWhile_le length_rev)
    ultimately show ?thesis using True snoc by (auto simp: TrimSpace_def)
  next
    case False
    then have "TrimLeft s = s" by (simp add: TrimLeft_def dropWhile_eq_self_iff)
    moreover have "length (TrimRight t) \<le> length t"
      by (simp add: TrimRight_def) (metis length_dropWhile_le length_rev)
    ultimately show ?thesis using False snoc by (auto simp: TrimSpace_def TrimRight_snoc)
  qed
qed simp

lemma hd_last_Join:
  "xs \<noteq> [] \<Longrightarrow> \<forall>s \<in> set xs. s \<noteq> [] \<Longrightarrow>
   Join xs sep \<noteq> [] \<and> hd (Join xs sep) = hd (hd xs) \<and> last (Join xs sep) = last (last xs)"
  by (induction xs sep rule: Join.induct) auto

lemma TrimSpace_Join:
  assumes "xs \<noteq> []" and "\<forall>s \<in> set xs. s \<noteq> [] \<and> TrimSpace s = s"
  shows "TrimSpace (Join xs sep) = Join xs sep"
  using assms hd_last_Join [of xs sep] hd_in_set [of xs] last_in_set [of xs]
  by (auto simp: TrimSpace_fix_iff)

lemma StringSlice_Split:
  "str \<noteq> [] \<Longrightarrow> StringSlice str = map TrimSpace (Split (CHR '','') (TrimSpace str))"
  by (simp add: StringSlice_def Let_def)

lemma StringSlice_Join:
  assumes "\<forall>s \<in> set xs. s \<noteq> [] \<and> TrimSpace s = s \<and> CHR '','' \<notin> set s"
  shows "StringSlice (Join xs '','') = xs"
proof (cases "xs = []")
  case False
  with assms have "Join xs '','' \<noteq> []" and "TrimSpace (Join xs '','') = Join xs '',''"
    using hd_last_Join [of xs "'',''"] by (auto intro: TrimSpace_Join)
  then have "StringSlice (Join xs '','') = map TrimSpace xs"
    using False assms by (simp add: StringSlice_Split Split_Join)
  then show ?thesis using assms by (simp add: map_idI)
qed simp

definition slice_items :: "string list \<Rightarrow> string list" where
  "slice_items strs = sortStrings (filter (\<lambda>s. s \<noteq> []) (map TrimSpace strs))"

lemma SliceString_items: "SliceString strs = Join (slice_items strs) '',''"
  by (simp add: SliceString_def slice_items_def)

lemma slice_items_idem [simp]: "slice_items (slice_items strs) = slice_items strs"
proof -
  have "map TrimSpace (slice_items strs) = slice_items strs"
    by (rule map_idI) (auto simp: slice_items_def)
  moreover have "filter (\<lambda>s. s \<noteq> []) (slice_items strs) = slice_items strs"
    by (rule filter_True) (auto simp: slice_items_def)
  ultimately show ?thesis by (simp add: slice_items_def [of "slice_items strs"])
    (simp add: slice_items_def)
qed

lemma StringSlice_SliceString:
  assumes "\<forall>s \<in> set strs. CHR '','' \<notin> set s"
  shows "StringSlice (SliceString strs) = slice_items strs"
  unfolding SliceString_items
proof (rule StringSlice_Join, rule ballI)
  fix s assume "s \<in> set (slice_items strs)"
  then obtain t where t: "t \<in> set strs" "s = TrimSpace t" "s \<noteq> []"
    by (auto simp: slice_items_def)
  with assms set_TrimSpace [of t] show "s \<noteq> [] \<and> TrimSpace s = s \<and> CHR '','' \<notin> set s"
    by auto
qed

lemma SanitizeStringSlice_fix:
  "SanitizeStringSlice (SanitizeStringSlice str) = SanitizeStringSlice str"
  using StringSlice_SliceString [of "StringSlice str"] StringSlice_no_comma [of _ str]
  by (simp add: SanitizeStringSlice_def SliceString_items)

subsection \<open>Chunks\<close>

lemma concat_chunks_loop: "concat (chunks_loop n xs) = xs"
proof (induction n xs rule: chunks_loop.induct)
  case (1 n xs)
  then show ?case by (subst chunks_loop.simps) simp
qed

lemma chunks_loop_short: "length xs \<le> n \<Longrightarrow> chunks_loop n xs = [xs]"
  by (subst chunks_loop.simps) simp

lemma chunks_loop_step:
  "0 < n \<Longrightarrow> n < length xs \<Longrightarrow> chunks_loop n xs = take n xs # chunks_loop n (drop n xs)"
  by (subst chunks_loop.simps) simp

lemma chunks_loop_not_Nil [simp]: "chunks_loop n xs \<noteq> []"
  by (subst chunks_loop.simps) simp

lemma chunks_loop_sizes:
  assumes "0 < n"
  shows "(\<forall>c \<in> set (chunks_loop n xs). length c \<le> n) \<and>
    (\<forall>c \<in> set (butlast (chunks_loop n xs)). length c = n)"
  using assms
proof (induction n xs rule: chunks_loop.induct)
  case (1 n xs)
  show ?case
  proof (cases "n < length xs")
    case True
    with "1.prems" have eq: "chunks_loop n xs = take n xs # chunks_loop n (drop n xs)"
      by (rule chunks_loop_step)
    have "(\<forall>c \<in> set (chunks_loop n (drop n xs)). length c \<le> n) \<and>
      (\<forall>c \<in> set (butlast (chunks_loop n (drop n xs))). length c = n)"
      using "1.IH" "1.prems" True by blast
    moreover have "length (take n xs) = n" using True by simp
    ultimately show ?thesis unfolding eq
      by (simp only: butlast.simps chunks_loop_not_Nil if_False list.set) (blast intro: eq_imp_le)
  next
    case False
    then show ?thesis by (simp add: chunks_loop_short)
  qed
qed

subsection \<open>Email addresses\<close>

lemma EmailParts_host:
  "Hostname X email =
     (case ext_emailaddress X (ToLower (TrimSpace email)) of
        Some (local, host) \<Rightarrow> host
      | None \<Rightarrow> (case LastIndex (ToLower (TrimSpace email)) ''@'' of
                  None \<Rightarrow> ToLower (TrimSpace email)
                | Some i \<Rightarrow> drop (Suc i) (ToLower (TrimSpace email))))"
  by (auto simp: Hostname_def EmailParts_def Let_def split: option.split prod.split)

definition after_last_at :: "string \<Rightarrow> string" where
  "after_last_at s = (case LastIndex s ''@'' of None \<Rightarrow> s | Some i \<Rightarrow> drop (Suc i) s)"

lemma Hostname_after_last_at:
  assumes "emailaddress_law X"
  shows "Hostname X email = after_last_at (ToLower (TrimSpace email))"
proof (cases "ext_emailaddress X (ToLower (TrimSpace email))")
  case (Some p)
  obtain l d where p: "p = (l, d)" by fastforce
  with Some assms have e: "ToLower (TrimSpace email) = l @ CHR ''@'' # d" and "CHR ''@'' \<notin> set d"
    by (auto simp: emailaddress_law_def)
  then have "LastIndex (ToLower (TrimSpace email)) ''@'' = Some (length l)"
    by (simp add: LastIndex_decomp)
  with Some p e show ?thesis by (simp add: EmailParts_host after_last_at_def)
qed (simp add: EmailParts_host after_last_at_def)

lemma after_last_at_decomp: "CHR ''@'' \<notin> set h \<Longrightarrow> after_last_at (u @ ''@'' @ h) = h"
  by (simp add: after_last_at_def LastIndex_decomp)

lemma Mailbox_no_plus: "CHR ''+'' \<notin> set (Mailbox X email)"
  by (auto simp: Mailbox_def EmailParts_def Let_def ReplaceAll_char_empty Index_char_None
      split: option.split prod.split)

lemma Subaddress_no_plus: "CHR ''+'' \<notin> set (Subaddress X email)"
  by (auto simp: Subaddress_def EmailParts_def Let_def ReplaceAll_char_empty
      split: option.split prod.split)


subsection \<open>The list of a mailbox's addresses\<close>

lemma emails_loop_others:
  "host \<notin> set ds \<Longrightarrow> i + int (length ds) \<le> cnt \<Longrightarrow>
   emails_loop mb host cnt i (ds @ es) =
     concat (map (\<lambda>d. '', '' @ mb @ ''@'' @ d) ds) @ emails_loop mb host cnt (i + int (length ds)) es"
  by (induction ds arbitrary: i) (auto simp: algebra_simps)

lemma Join_append_Cons: "Join ((a @ b) # xs) sep = a @ Join (b # xs) sep"
  by (cases xs) auto

lemma concat_Join: "x @ concat (map (\<lambda>y. sep @ f y) ys) = Join (x # map f ys) sep"
  by (induction ys arbitrary: x) (auto simp: Join_append_Cons)

lemma SanitizeDomain_member: "d \<in> set domains \<Longrightarrow> TrimSpace d = d \<Longrightarrow> SanitizeDomain domains d = Ret d \<or> d = []"
  by (auto simp: SanitizeDomain_def)

lemma SanitizeDomain_in: "SanitizeDomain domains d = Ret h \<Longrightarrow> h \<in> set domains"
  by (auto simp: SanitizeDomain_def first_domain_def Let_def split: if_splits list.splits)

lemma EmailsList_last:
  assumes "SanitizeDomain (ds @ [h]) d = Ret h" and "h \<notin> set ds"
  shows "EmailsList (ds @ [h]) mb d = Ret (Join (map (\<lambda>x. mb @ ''@'' @ x) (h # ds)) '', '')"
  using assms concat_Join [of "mb @ ''@'' @ h" "'', ''" "\<lambda>x. mb @ ''@'' @ x" ds]
  by (simp add: EmailsList_def emails_loop_others)

lemma EmailsList_second_last:
  assumes "SanitizeDomain (ds @ [h, e]) d = Ret h" and "h \<notin> set ds" and "e \<noteq> h"
  shows "EmailsList (ds @ [h, e]) mb d = Ret (Join (map (\<lambda>x. mb @ ''@'' @ x) (h # ds @ [e])) '', '')"
  using assms concat_Join [of "mb @ ''@'' @ h" "'', ''" "\<lambda>x. mb @ ''@'' @ x" "ds @ [e]"]
  by (simp add: EmailsList_def emails_loop_others)

subsection \<open>The send command\<close>

lemma hd_Split_append: "c \<notin> set u \<Longrightarrow> hd (Split c (u @ v)) = u @ hd (Split c v)"
  by (induction u) (auto split: list.splits)

lemma ParseSend_dispatched:
  assumes sp: "Split (CHR '' '') msg = cmd # rest" and nl: "CHR 0x0A \<notin> set cmd"
  shows "ParseSend (cmd # rest) \<noteq> Panic p"
proof (cases rest)
  case Nil
  then have "Split (CHR 0x0A) (Join (cmd # rest) '' '') = [cmd]" using nl by simp
  then show ?thesis by (simp add: ParseSend_def MinSendCommandParts_def)
next
  case (Cons r rs)
  let ?m = "Join (r # rs) '' ''"
  have "Join (cmd # rest) '' '' = cmd @ CHR '' '' # ?m" using Cons by simp
  moreover have "hd (Split (CHR 0x0A) ((cmd @ '' '') @ ?m)) = (cmd @ '' '') @ hd (Split (CHR 0x0A) ?m)"
    using nl by (intro hd_Split_append) simp
  ultimately have "Split (CHR 0x0A) (Join (cmd # rest) '' '') ! 0 = cmd @ CHR '' '' # hd (Split (CHR 0x0A) ?m)"
    by (simp add: hd_conv_nth)
  moreover have "CHR '' '' \<notin> set cmd" using sp Split_no_sep [of cmd "CHR '' ''" msg] by simp
  ultimately have "Split (CHR '' '') (Split (CHR 0x0A) (Join (cmd # rest) '' '') ! 0) =
    cmd # Split (CHR '' '') (hd (Split (CHR 0x0A) ?m))"
    by (simp add: Split_append)
  then show ?thesis by (auto simp: ParseSend_def Let_def split: list.splits)
qed

lemma ParseSend_Some:
  assumes "ParseSend cs = Ret (Some (to, subject, body))"
  shows "\<exists>pre. Join cs '' '' = pre @ newline @ subject @ newline @ body \<and> CHR 0x0A \<notin> set subject"
proof -
  let ?ls = "Split (CHR 0x0A) (Join cs '' '')"
  have len: "3 \<le> length ?ls" and sub: "subject = ?ls ! 1" and body: "body = Join (drop 2 ?ls) newline"
    using assms by (auto simp: ParseSend_def MinSendCommandParts_def Let_def split: if_splits list.splits)
  then obtain a b c ds where ls: "?ls = a # b # c # ds"
    by (metis One_nat_def Suc_le_length_iff numeral_3_eq_3)
  then have s: "subject = b" and t: "body = Join (c # ds) newline" using sub body by simp_all
  have "Join cs '' '' = Join ?ls newline" by (simp add: newline_def)
  then have "Join cs '' '' = a @ newline @ subject @ newline @ body"
    unfolding ls s t by simp
  moreover have "CHR 0x0A \<notin> set subject" using s ls Split_no_sep [of b "CHR 0x0A" "Join cs '' ''"] by simp
  ultimately show ?thesis by blast
qed

end
