(* ===== verification/Linkpearl.thy ===== *)
theory Linkpearl
  imports Utils
begin

text \<open>
  The Matrix side as the bot sees it: the vendored library linkpearl on top of a
  homeserver. The state holds linkpearl's account-data cache, the data the homeserver
  stores, the events rooms hold, and the messages the bot sent.

  The homeserver may fail any call: \<open>hs_fault n\<close> is the error of the \<open>n\<close>-th call, if it
  has one. An account-data call linkpearl answers from its cache makes no call.
  The cache entry and the map a caller gets are one Go object, so a write to a map that
  came from the cache shows in the cache at once; \<open>alias_write\<close> is that write.
  Account data of the user and of a room have separate keys (linkpearl concatenates room
  and name). Not modelled: the encryption of stored values, which linkpearl inverts when
  it reads, the retries of a single send, and the eviction of a cache entry while a
  handler runs.
\<close>

section \<open>Events and state\<close>

record relates =
  rel_thread :: string
  rel_reply :: string

record mxcontent =
  c_body :: string
  c_formatted :: string
  c_notice :: bool
  c_rel :: "relates option"
  c_raw :: gomap

record mxevent =
  e_id :: string
  e_room :: string
  e_sender :: string
  e_ts :: int
  e_content :: mxcontent

datatype ackey = UserData string | RoomData string string

record lp_state =
  acc :: "(ackey, gomap) fmap"
  hs_data :: "(ackey, gomap) fmap"
  hs_calls :: nat
  hs_fault :: "nat \<Rightarrow> string option"
  hs_evid :: "nat \<Rightarrow> string"
  hs_events :: "(string \<times> string, mxevent) fmap"
  hs_sent :: "mxevent list"
  lp_user :: string
  time_now :: int

section \<open>Calls\<close>

definition api_call :: "('a lp_state_scheme, string option) action" where
  "api_call w = (Ret (hs_fault w (hs_calls w)), w\<lparr>hs_calls := Suc (hs_calls w)\<rparr>)"

definition cache_put :: "ackey \<Rightarrow> gomap \<Rightarrow> ('a lp_state_scheme, unit) action" where
  "cache_put k m = modifyM (\<lambda>w. w\<lparr>acc := fmupd k m (acc w)\<rparr>)"

text \<open>A write to a map obtained under the key \<open>k\<close>; a map that is not cached is private.\<close>

definition alias_write :: "ackey \<Rightarrow> gomap \<Rightarrow> ('a lp_state_scheme, unit) action" where
  "alias_write k m =
     modifyM (\<lambda>w. if fmlookup (acc w) k = None then w else w\<lparr>acc := fmupd k m (acc w)\<rparr>)"

definition GetAccountData :: "ackey \<Rightarrow> ('a lp_state_scheme, gomap \<times> string option) action" where
  "GetAccountData k =
     bindM (readM (\<lambda>w. fmlookup (acc w) k)) (\<lambda>cached.
     case cached of
       Some m \<Rightarrow> returnM (m, None)
     | None \<Rightarrow>
         bindM api_call (\<lambda>err.
         case err of
           Some e \<Rightarrow>
             if Contains e ''M_NOT_FOUND''
             then thenM (cache_put k fmempty) (returnM (fmempty, None))
             else returnM (fmempty, Some e)
         | None \<Rightarrow>
             bindM (readM (\<lambda>w. fmlookup (hs_data w) k)) (\<lambda>stored.
             case stored of
               None \<Rightarrow> thenM (cache_put k fmempty) (returnM (fmempty, None))
             | Some m \<Rightarrow> thenM (cache_put k m) (returnM (m, None)))))"

definition SetAccountData :: "ackey \<Rightarrow> gomap \<Rightarrow> ('a lp_state_scheme, string option) action" where
  "SetAccountData k m =
     thenM (cache_put k m)
     (bindM api_call (\<lambda>err.
      case err of
        Some e \<Rightarrow> returnM (Some e)
      | None \<Rightarrow>
          thenM (modifyM (\<lambda>w. w\<lparr>hs_data := fmupd k m (hs_data w)\<rparr>)) (returnM None)))"

text \<open>The event a call that sends \<open>content\<close> to a room creates.\<close>

definition mk_event :: "'a lp_state_scheme \<Rightarrow> string \<Rightarrow> mxcontent \<Rightarrow> mxevent" where
  "mk_event w room content =
     \<lparr>e_id = hs_evid w (hs_calls w), e_room = room, e_sender = lp_user w,
      e_ts = time_now w, e_content = content\<rparr>"

definition lp_Send :: "string \<Rightarrow> mxcontent \<Rightarrow> ('a lp_state_scheme, string + string) action" where
  "lp_Send room content =
     bindM api_call (\<lambda>err.
     case err of
       Some e \<Rightarrow> returnM (Inl e)
     | None \<Rightarrow>
         bindM (readM (\<lambda>w. mk_event w room content)) (\<lambda>evt.
         thenM (modifyM (\<lambda>w. w\<lparr>hs_sent := hs_sent w @ [evt],
                               hs_events := fmupd (room, e_id evt) evt (hs_events w)\<rparr>))
         (returnM (Inr (e_id evt)))))"

definition RelatesTo :: "string \<Rightarrow> bool \<Rightarrow> relates option" where
  "RelatesTo parentID nothreads =
     (if parentID = [] then None
      else if nothreads then Some \<lparr>rel_thread = [], rel_reply = parentID\<rparr>
      else Some \<lparr>rel_thread = parentID, rel_reply = parentID\<rparr>)"

definition EventParent :: "string \<Rightarrow> mxcontent \<Rightarrow> string" where
  "EventParent currentID content =
     (case c_rel content of
        None \<Rightarrow> currentID
      | Some r \<Rightarrow>
          if rel_thread r \<noteq> [] then rel_thread r
          else if rel_reply r \<noteq> [] then rel_reply r else currentID)"

definition EventField :: "mxcontent \<Rightarrow> string \<Rightarrow> string" where
  "EventField content f = goget (c_raw content) f"

text \<open>
  \<open>SendNotice\<close> with its optional relation: \<open>None\<close> when the caller passes none. A notice with
  a relation that cannot be sent is sent once more without it.
\<close>

definition notice_content :: "externals \<Rightarrow> string \<Rightarrow> relates option \<Rightarrow> mxcontent" where
  "notice_content X msg rel =
     \<lparr>c_body = fst (ext_markdown X msg), c_formatted = snd (ext_markdown X msg),
      c_notice = True, c_rel = rel, c_raw = fmempty\<rparr>"

definition SendNotice ::
  "externals \<Rightarrow> string \<Rightarrow> string \<Rightarrow> relates option option \<Rightarrow> ('a lp_state_scheme, unit) action" where
  "SendNotice X room msg relates =
     (let rel = (case relates of None \<Rightarrow> None | Some r \<Rightarrow> r) in
      bindM (lp_Send room (notice_content X msg rel)) (\<lambda>r.
      case r of
        Inr _ \<Rightarrow> skipM
      | Inl _ \<Rightarrow>
          if relates \<noteq> None
          then bindM (lp_Send room (notice_content X msg None)) (\<lambda>_. skipM)
          else skipM))"

text \<open>
  \<open>SendFile\<close>: the media is uploaded first; an event with a relation that cannot be sent is sent
  once more without it. Only the name of the file shows in the event.
\<close>

definition file_content :: "gofile \<Rightarrow> relates option \<Rightarrow> mxcontent" where
  "file_content f rel =
     \<lparr>c_body = f_name f, c_formatted = [], c_notice = False, c_rel = rel, c_raw = fmempty\<rparr>"

definition SendFile :: "string \<Rightarrow> gofile \<Rightarrow> relates option \<Rightarrow> ('a lp_state_scheme, string option) action" where
  "SendFile room f rel =
     bindM api_call (\<lambda>err.
     if err \<noteq> None then returnM err
     else
       bindM (lp_Send room (file_content f rel)) (\<lambda>r.
       case r of
         Inr _ \<Rightarrow> returnM None
       | Inl e \<Rightarrow>
           if rel = None then returnM (Some e)
           else
             bindM (lp_Send room (file_content f None)) (\<lambda>r.
             case r of Inr _ \<Rightarrow> returnM None | Inl e \<Rightarrow> returnM (Some e))))"

text \<open>Reactions: their event identifiers are account data of the room, one entry per message.\<close>

definition reactionKey :: "string \<Rightarrow> string \<Rightarrow> ackey" where
  "reactionKey room eid = RoomData room (''cc.etke.linkpearl.reaction.'' @ eid)"

definition getReactionAD :: "string \<Rightarrow> string \<Rightarrow> string \<Rightarrow> ('a lp_state_scheme, string) action" where
  "getReactionAD room eid reaction =
     bindM (GetAccountData (reactionKey room eid)) (\<lambda>(existing, err).
     returnM (if err \<noteq> None then [] else goget existing reaction))"

definition updateReactionsAD ::
  "string \<Rightarrow> string \<Rightarrow> string \<Rightarrow> string \<Rightarrow> ('a lp_state_scheme, string option) action" where
  "updateReactionsAD room eid reaction reactionID =
     bindM (GetAccountData (reactionKey room eid)) (\<lambda>(existing, err).
     if err \<noteq> None then returnM err
     else
       (let existing = (if reactionID = [] then fmdrop reaction existing
                        else fmupd reaction reactionID existing) in
        thenM (alias_write (reactionKey room eid) existing)
        (SetAccountData (reactionKey room eid) existing)))"

definition SendReaction :: "string \<Rightarrow> string \<Rightarrow> string \<Rightarrow> ('a lp_state_scheme, string option) action" where
  "SendReaction room eid reaction =
     bindM (getReactionAD room eid reaction) (\<lambda>existing.
     if existing \<noteq> [] then returnM None
     else
       bindM (readM (\<lambda>w. hs_evid w (hs_calls w))) (\<lambda>newid.
       bindM api_call (\<lambda>err.
       if err \<noteq> None then returnM err else updateReactionsAD room eid reaction newid)))"

definition RedactReaction :: "string \<Rightarrow> string \<Rightarrow> string \<Rightarrow> ('a lp_state_scheme, string option) action" where
  "RedactReaction room eid reaction =
     bindM (getReactionAD room eid reaction) (\<lambda>existing.
     if existing = [] then returnM None
     else
       bindM api_call (\<lambda>err.
       if err \<noteq> None then returnM err else updateReactionsAD room eid reaction []))"

definition ReplaceReaction ::
  "string \<Rightarrow> string \<Rightarrow> string \<Rightarrow> string \<Rightarrow> ('a lp_state_scheme, string option) action" where
  "ReplaceReaction room eid oldReaction newReaction =
     bindM (RedactReaction room eid oldReaction) (\<lambda>err.
     if err \<noteq> None then returnM err else SendReaction room eid newReaction)"

definition GetEvent :: "string \<Rightarrow> string \<Rightarrow> ('a lp_state_scheme, string + mxevent) action" where
  "GetEvent room eid =
     bindM api_call (\<lambda>err.
     case err of
       Some e \<Rightarrow> returnM (Inl e)
     | None \<Rightarrow>
         bindM (readM (\<lambda>w. fmlookup (hs_events w) (room, eid))) (\<lambda>ev.
         case ev of None \<Rightarrow> returnM (Inl ''M_NOT_FOUND'') | Some e \<Rightarrow> returnM (Inr e)))"

section \<open>The contract of account data\<close>

text \<open>
  What a client of account data relies on: a value is readable at once after it is
  written, whether or not the homeserver took the write; a value read once stays
  readable without a call; other keys are not touched.
\<close>

locale account_data =
  fixes get :: "'k \<Rightarrow> ('w, gomap \<times> string option) action"
    and put :: "'k \<Rightarrow> gomap \<Rightarrow> ('w, string option) action"
    and cached :: "'w \<Rightarrow> 'k \<Rightarrow> gomap option"
  assumes get_cached: "cached w k = Some m \<Longrightarrow> get k w = (Ret (m, None), w)"
    and get_result: "get k w = (Ret (m, None), w') \<Longrightarrow> cached w' k = Some m"
    and get_frame: "k' \<noteq> k \<Longrightarrow> cached (snd (get k w)) k' = cached w k'"
    and get_total: "\<exists>m e. fst (get k w) = Ret (m, e)"
    and put_result: "cached (snd (put k m w)) k = Some m"
    and put_frame: "k' \<noteq> k \<Longrightarrow> cached (snd (put k m w)) k' = cached w k'"
    and put_total: "\<exists>e. fst (put k m w) = Ret e"
begin

lemma put_then_get: "get k (snd (put k m w)) = (Ret (m, None), snd (put k m w))"
  by (rule get_cached) (rule put_result)

lemma get_stable: "get k w = (Ret (m, None), w') \<Longrightarrow> get k w' = (Ret (m, None), w')"
  by (blast intro: get_cached get_result)

lemma put_keeps_other:
  "cached w k' = Some m' \<Longrightarrow> k' \<noteq> k \<Longrightarrow> get k' (snd (put k m w)) = (Ret (m', None), snd (put k m w))"
  by (simp add: get_cached put_frame)

lemma put_put:
  "get k (snd (put k m2 (snd (put k m1 w)))) = (Ret (m2, None), snd (put k m2 (snd (put k m1 w))))"
  by (rule put_then_get)

end

interpretation lpad: account_data GetAccountData SetAccountData "\<lambda>w k. fmlookup (acc w) k"
proof unfold_locales
  fix w :: "'a lp_state_scheme" and k :: ackey and m
  assume "fmlookup (acc w) k = Some m"
  then show "GetAccountData k w = (Ret (m, None), w)"
    by (simp add: GetAccountData_def run_simps)
next
  fix k :: ackey and m and w w' :: "'a lp_state_scheme"
  assume "GetAccountData k w = (Ret (m, None), w')"
  then show "fmlookup (acc w') k = Some m"
    by (auto simp: GetAccountData_def cache_put_def api_call_def run_simps bindM_def thenM_def
        split: option.splits if_splits)
next
  fix k k' :: ackey and w :: "'a lp_state_scheme"
  assume "k' \<noteq> k"
  then show "fmlookup (acc (snd (GetAccountData k w))) k' = fmlookup (acc w) k'"
    by (auto simp: GetAccountData_def cache_put_def api_call_def run_simps bindM_def thenM_def
        split: option.splits if_splits)
next
  fix k :: ackey and w :: "'a lp_state_scheme"
  show "\<exists>m e. fst (GetAccountData k w) = Ret (m, e)"
    by (auto simp: GetAccountData_def cache_put_def api_call_def run_simps bindM_def thenM_def
        split: option.splits if_splits)
next
  fix k :: ackey and m and w :: "'a lp_state_scheme"
  show "fmlookup (acc (snd (SetAccountData k m w))) k = Some m"
    by (auto simp: SetAccountData_def cache_put_def api_call_def run_simps bindM_def thenM_def
        split: option.splits)
next
  fix k k' :: ackey and m and w :: "'a lp_state_scheme"
  assume "k' \<noteq> k"
  then show "fmlookup (acc (snd (SetAccountData k m w))) k' = fmlookup (acc w) k'"
    by (auto simp: SetAccountData_def cache_put_def api_call_def run_simps bindM_def thenM_def
        split: option.splits)
next
  fix k :: ackey and m and w :: "'a lp_state_scheme"
  show "\<exists>e. fst (SetAccountData k m w) = Ret e"
    by (auto simp: SetAccountData_def cache_put_def api_call_def run_simps bindM_def thenM_def
        split: option.splits)
qed

lemmas run_GetAccountData_cached [run_simps] = lpad.get_cached

lemma run_api_call [run_simps]:
  "api_call w = (Ret (hs_fault w (hs_calls w)), w\<lparr>hs_calls := Suc (hs_calls w)\<rparr>)"
  by (simp add: api_call_def)

lemma run_SetAccountData [run_simps]:
  "SetAccountData k m w =
     (Ret (hs_fault w (hs_calls w)),
      w\<lparr>acc := fmupd k m (acc w), hs_calls := Suc (hs_calls w),
        hs_data := (if hs_fault w (hs_calls w) = None then fmupd k m (hs_data w) else hs_data w)\<rparr>)"
  by (simp add: SetAccountData_def cache_put_def api_call_def bindM_def thenM_def modifyM_def
      returnM_def split: option.split)

lemma run_alias_write [run_simps]:
  "fmlookup (acc w) k = Some old \<Longrightarrow> alias_write k m w = (Ret (), w\<lparr>acc := fmupd k m (acc w)\<rparr>)"
  by (simp add: alias_write_def modifyM_def)

section \<open>What these calls leave alone\<close>

text \<open>
  A predicate that only looks at the fields a component adds to the state is kept by
  every call of this theory.
\<close>

definition lp_frame :: "('a lp_state_scheme \<Rightarrow> bool) \<Rightarrow> bool" where
  "lp_frame I \<longleftrightarrow> (\<forall>w w'. lp_state.more w = lp_state.more w' \<longrightarrow> I w = I w')"

lemma lp_frameD: "lp_frame I \<Longrightarrow> I w \<Longrightarrow> lp_state.more w' = lp_state.more w \<Longrightarrow> I w'"
  by (metis lp_frame_def)

lemma lp_frame_modify:
  "lp_frame I \<Longrightarrow> (\<And>w. lp_state.more (f w) = lp_state.more w) \<Longrightarrow> preserves I (modifyM f)"
  by (rule preserves_modifyM) (erule (1) lp_frameD, simp)

lemma preserves_api_call [preserves_rules]: "lp_frame I \<Longrightarrow> preserves I api_call"
  by (auto simp: api_call_def intro!: preservesI elim: lp_frameD)

lemma preserves_cache_put [preserves_rules]: "lp_frame I \<Longrightarrow> preserves I (cache_put k m)"
  by (simp add: cache_put_def lp_frame_modify)

lemma preserves_alias_write [preserves_rules]: "lp_frame I \<Longrightarrow> preserves I (alias_write k m)"
  by (simp add: alias_write_def lp_frame_modify)

lemma preserves_GetAccountData [preserves_rules]: "lp_frame I \<Longrightarrow> preserves I (GetAccountData k)"
  unfolding GetAccountData_def by (intro preserves_rules)

lemma preserves_SetAccountData [preserves_rules]: "lp_frame I \<Longrightarrow> preserves I (SetAccountData k m)"
  unfolding SetAccountData_def by (intro preserves_rules lp_frame_modify) simp_all

lemma preserves_sum [preserves_rules]:
  "(\<And>a. x = Inl a \<Longrightarrow> preserves I (m a)) \<Longrightarrow> (\<And>b. x = Inr b \<Longrightarrow> preserves I (n b)) \<Longrightarrow>
   preserves I (case x of Inl a \<Rightarrow> m a | Inr b \<Rightarrow> n b)"
  by (cases x) auto

lemma preserves_lp_Send [preserves_rules]: "lp_frame I \<Longrightarrow> preserves I (lp_Send room content)"
  unfolding lp_Send_def by (intro preserves_rules lp_frame_modify) simp_all

lemma preserves_SendNotice [preserves_rules]: "lp_frame I \<Longrightarrow> preserves I (SendNotice X room msg rel)"
  unfolding SendNotice_def by (intro preserves_rules)

lemma preserves_GetEvent [preserves_rules]: "lp_frame I \<Longrightarrow> preserves I (GetEvent room eid)"
  unfolding GetEvent_def by (intro preserves_rules)

lemma preserves_SendFile [preserves_rules]: "lp_frame I \<Longrightarrow> preserves I (SendFile room f rel)"
  unfolding SendFile_def by (intro preserves_rules)

lemma preserves_reactions [preserves_rules]:
  "lp_frame I \<Longrightarrow> preserves I (SendReaction room eid reaction)"
  "lp_frame I \<Longrightarrow> preserves I (ReplaceReaction room eid old reaction)"
  unfolding SendReaction_def ReplaceReaction_def RedactReaction_def getReactionAD_def updateReactionsAD_def
  by (intro preserves_rules; assumption)+

section \<open>No call panics\<close>

lemma returns_api_call [returns_rules]: "returns api_call"
  by (simp add: returns_def api_call_def)

lemma returns_cache_put [returns_rules]: "returns (cache_put k m)"
  unfolding cache_put_def by (intro returns_rules)

lemma returns_alias_write [returns_rules]: "returns (alias_write k m)"
  unfolding alias_write_def by (intro returns_rules)

lemma returns_GetAccountData [returns_rules]: "returns (GetAccountData k)"
  unfolding GetAccountData_def by (intro returns_rules)

lemma returns_SetAccountData [returns_rules]: "returns (SetAccountData k m)"
  unfolding SetAccountData_def by (intro returns_rules)

lemma returns_lp_Send [returns_rules]: "returns (lp_Send room content)"
  unfolding lp_Send_def by (intro returns_rules)

lemma returns_SendNotice [returns_rules]: "returns (SendNotice X room msg rel)"
  unfolding SendNotice_def by (intro returns_rules)

lemma returns_GetEvent [returns_rules]: "returns (GetEvent room eid)"
  unfolding GetEvent_def by (intro returns_rules)

lemma returns_SendFile [returns_rules]: "returns (SendFile room f rel)"
  unfolding SendFile_def by (intro returns_rules)

lemma returns_reactions [returns_rules]:
  "returns (SendReaction room eid reaction)" "returns (ReplaceReaction room eid old reaction)"
  unfolding SendReaction_def ReplaceReaction_def RedactReaction_def getReactionAD_def updateReactionsAD_def
  by (intro returns_rules)+

end
