(* ===== verification/Email.thy ===== *)
theory Email
  imports Linkpearl
begin

text \<open>
  The package internal/email: address helpers and Message-Ids (utils.go), the display
  options (options.go) and the email itself, built from its parts or from a parsed
  envelope, converted to a Matrix event, and composed for delivery (email.go). The
  envelope is what the enmime parser returns.
\<close>

section \<open>utils.go\<close>

text \<open>
  \<open>styleRegex.ReplaceAllString(html, "")\<close> for the pattern that starts at a style tag and
  ends, lazily, at the first closing tag behind it: the matches are taken from the left,
  and the text that remains is not scanned again.
\<close>

function strip_style :: "string \<Rightarrow> string" where
  "strip_style s =
     (case Index s ''<style'' of
        None \<Rightarrow> s
      | Some i \<Rightarrow>
          (case Index (drop (i + 6) s) ''</style>'' of
             None \<Rightarrow> s
           | Some j \<Rightarrow> take i s @ strip_style (drop (i + 6 + j + 8) s)))"
  by pat_completeness auto
termination
proof (relation "measure length")
  fix s :: string and i j
  assume "Index s ''<style'' = Some i"
  then have "i + 6 \<le> length s" using Index_bound by fastforce
  then show "(drop (i + 6 + j + 8) s, s) \<in> measure length" by simp
qed simp

declare strip_style.simps [simp del]

definition AddressValid :: "externals \<Rightarrow> string \<Rightarrow> bool" where
  "AddressValid X email = (ext_ParseAddress X email \<noteq> None)"

definition MessageID :: "string \<Rightarrow> string \<Rightarrow> string" where
  "MessageID eventID host = ''<'' @ eventID @ ''@'' @ host @ ''>''"

definition AddressList :: "externals \<Rightarrow> string \<Rightarrow> string list" where
  "AddressList X emailList =
     (if emailList = [] then []
      else ext_ParseAddressList X (ToLower (TrimSpace emailList)))"

definition Address :: "externals \<Rightarrow> string \<Rightarrow> string" where
  "Address X email =
     (let email = ToLower (TrimSpace email) in
      case ext_ParseAddress X email of
        Some a \<Rightarrow> a
      | None \<Rightarrow> (let list = AddressList X email in if list \<noteq> [] then Join list '','' else email))"

text \<open>
  \<open>dateNow\<close>: the current time, or the date of the original message, given here as its
  RFC1123Z text; a zero date is \<open>None\<close>.
\<close>

definition dateNow :: "externals \<Rightarrow> int \<Rightarrow> string option \<Rightarrow> string" where
  "dateNow X now original = (case original of Some d \<Rightarrow> d | None \<Rightarrow> ext_FormatTime X now)"

section \<open>options.go\<close>

record contentOptions =
  co_CC :: bool
  co_Sender :: bool
  co_Recipient :: bool
  co_Subject :: bool
  co_HTML :: bool
  co_Threads :: bool
  co_Threadify :: bool
  co_Stripify :: bool
  co_MessageIDKey :: string
  co_InReplyToKey :: string
  co_ReferencesKey :: string
  co_SubjectKey :: string
  co_FromKey :: string
  co_ToKey :: string
  co_CcKey :: string
  co_RcptToKey :: string

section \<open>email.go\<close>

record email =
  em_Date :: string
  em_MessageID :: string
  em_InReplyTo :: string
  em_References :: string
  em_From :: string
  em_To :: string
  em_RcptTo :: string
  em_CC :: "string list"
  em_Subject :: string
  em_Text :: string
  em_HTML :: string
  em_Files :: "gofile list"
  em_InlineFiles :: "gofile list"

record envelope =
  env_header :: "string \<Rightarrow> string"
  env_date :: "string option"
  env_Text :: string
  env_HTML :: string
  env_Attachments :: "(string \<times> string) list"
  env_Inlines :: "(string \<times> string) list"

type_synonym mailid = string
type_synonym mailaddr = string

definition email_New ::
  "externals \<Rightarrow> int \<Rightarrow> mailid \<Rightarrow> mailid \<Rightarrow> mailid \<Rightarrow> string \<Rightarrow> mailaddr \<Rightarrow> mailaddr \<Rightarrow> mailaddr \<Rightarrow>
   mailaddr \<Rightarrow> string \<Rightarrow> string \<Rightarrow> gofile list \<Rightarrow> gofile list \<Rightarrow> email" where
  "email_New X now messageID inReplyTo references subject from to rcptto cc txt html files inline =
     \<lparr>em_Date = dateNow X now None, em_MessageID = messageID, em_InReplyTo = inReplyTo,
      em_References = references, em_From = Address X from, em_To = Address X to,
      em_RcptTo = Address X rcptto, em_CC = AddressList X cc, em_Subject = subject,
      em_Text = txt, em_HTML = (if html \<noteq> [] then strip_style html else html),
      em_Files = files, em_InlineFiles = inline\<rparr>"

definition FromEnvelope :: "externals \<Rightarrow> int \<Rightarrow> string \<Rightarrow> envelope \<Rightarrow> email" where
  "FromEnvelope X now rcptto env =
     \<lparr>em_Date = dateNow X now (env_date env),
      em_MessageID = env_header env ''Message-Id'',
      em_InReplyTo = env_header env ''In-Reply-To'',
      em_References = env_header env ''References'',
      em_From = Address X (env_header env ''From''),
      em_To = Address X (env_header env ''To''),
      em_RcptTo = Address X rcptto,
      em_CC = AddressList X (env_header env ''Cc''),
      em_Subject = env_header env ''Subject'',
      em_Text = env_Text env,
      em_HTML = (if env_HTML env \<noteq> [] then strip_style (env_HTML env) else []),
      em_Files = map (\<lambda>(name, content). NewFile X name content) (env_Attachments env),
      em_InlineFiles = map (\<lambda>(name, content). NewFile X name content) (env_Inlines env)\<rparr>"

definition email_Mailbox :: "externals \<Rightarrow> email \<Rightarrow> bool \<Rightarrow> string" where
  "email_Mailbox X e incoming = (if incoming then Mailbox X (em_RcptTo e) else Mailbox X (em_From e))"

text \<open>The bytes of the arrow between sender and recipient, with the spaces around it.\<close>

definition arrow :: string where
  "arrow = [CHR '' '', CHR 0xE2, CHR 0x9E, CHR 0xA1, CHR 0xEF, CHR 0xB8, CHR 0x8F, CHR '' '']"

definition contentHeader :: "externals \<Rightarrow> email \<Rightarrow> string \<Rightarrow> contentOptions \<Rightarrow> string" where
  "contentHeader X e threadID options =
     (if co_Sender options then em_From e else []) @
     (if co_Recipient options then
        (let (mailbox, sub, host) = EmailParts X (em_To e) in
         arrow @ mailbox @ ''@'' @ host @ (if sub \<noteq> [] then '' ('' @ sub @ '')'' else []))
      else []) @
     (if co_CC options \<and> em_CC e \<noteq> [] then newline @ ''cc: '' @ Join (em_CC e) '', '' else []) @
     (if co_Sender options \<or> co_Recipient options \<or> co_CC options then newline @ newline else []) @
     (if co_Subject options \<and> threadID = [] then
        (if co_Threadify options then ''**'' @ em_Subject e @ ''**'' else ''# '' @ em_Subject e) @
        newline @ newline
      else [])"

definition Content :: "externals \<Rightarrow> email \<Rightarrow> string \<Rightarrow> contentOptions \<Rightarrow> mxcontent" where
  "Content X e threadID options =
     (let txt = contentHeader X e threadID options @
            (if threadID \<noteq> [] \<or> (threadID = [] \<and> \<not> co_Threadify options) then
               (if em_HTML e \<noteq> [] \<and> co_HTML options then ext_html2md X (em_HTML e) else em_Text e)
             else []);
          body = (if co_Stripify options \<and> threadID \<noteq> [] then ext_mailstrip X txt else txt);
          parsed = ext_markdown X body;
          cc = (if em_CC e \<noteq> [] then Join (em_CC e) '', '' else [])
      in \<lparr>c_body = fst parsed, c_formatted = snd parsed, c_notice = False,
          c_rel = RelatesTo threadID (\<not> co_Threads options),
          c_raw = fmap_of_list
            [(co_CcKey options, cc), (co_ToKey options, em_To e), (co_FromKey options, em_From e),
             (co_RcptToKey options, em_RcptTo e), (co_SubjectKey options, em_Subject e),
             (co_ReferencesKey options, em_References e), (co_InReplyToKey options, em_InReplyTo e),
             (co_MessageIDKey options, em_MessageID e)]\<rparr>)"

definition ContentBody :: "externals \<Rightarrow> email \<Rightarrow> string \<Rightarrow> contentOptions \<Rightarrow> mxcontent option" where
  "ContentBody X e threadID options =
     (if \<not> co_Threadify options then None
      else
        (let txt = (if em_HTML e \<noteq> [] \<and> co_HTML options then ext_html2md X (em_HTML e) else em_Text e);
             txt = (if co_Stripify options then ext_mailstrip X txt else txt);
             parsed = ext_markdown X txt
         in Some \<lparr>c_body = fst parsed, c_formatted = snd parsed, c_notice = False,
                  c_rel = RelatesTo threadID (\<not> co_Threads options), c_raw = fmempty\<rparr>))"

definition email_sign :: "externals \<Rightarrow> string \<Rightarrow> string \<Rightarrow> string \<Rightarrow> string" where
  "email_sign X host privkey data =
     (if privkey = [] then data
      else case ext_pem X privkey of
        None \<Rightarrow> data
      | Some block \<Rightarrow>
          (case ext_pkcs8 X block of
             None \<Rightarrow> data
           | Some key \<Rightarrow>
               (case ext_dkimsign X host ''postmoogle'' key data of None \<Rightarrow> data | Some msg \<Rightarrow> msg)))"

text \<open>The message \<open>Compose\<close> builds, with the optional parts that are present.\<close>

definition compose_mail :: "email \<Rightarrow> mailspec" where
  "compose_mail e =
     \<lparr>ms_from = em_From e, ms_to = em_To e, ms_cc = em_CC e, ms_subject = em_Subject e,
      ms_headers =
        [(''Message-Id'', em_MessageID e), (''X-PM-Tag'', em_From e)] @
        (if em_InReplyTo e \<noteq> [] then [(''In-Reply-To'', em_InReplyTo e)] else []) @
        (if em_References e \<noteq> [] then [(''References'', em_References e)] else []),
      ms_text = (if em_Text e \<noteq> [] then Some (em_Text e) else None),
      ms_html = (if em_HTML e \<noteq> [] then Some (em_HTML e) else None)\<rparr>"

definition Compose :: "externals \<Rightarrow> email \<Rightarrow> string \<Rightarrow> string res" where
  "Compose X e privkey =
     (if em_Text e = [] \<and> em_HTML e = [] then Ret []
      else case ext_build X (compose_mail e) of
        None \<Rightarrow> Ret []
      | Some data \<Rightarrow>
          (case SplitN2 (CHR ''@'') (em_From e) of
             [_, host] \<Rightarrow> Ret (email_sign X host privkey data)
           | _ \<Rightarrow> Panic ''index out of range''))"

section \<open>Lemmas\<close>

lemma Compose_no_panic:
  assumes "CHR ''@'' \<in> set (em_From e)"
  shows "Compose X e privkey \<noteq> Panic p"
proof -
  obtain u v where "SplitN2 (CHR ''@'') (em_From e) = [u, v]"
    using assms SplitN2_cases [of "CHR ''@''" "em_From e"] by blast
  then show ?thesis by (simp add: Compose_def split: option.split)
qed

lemma Compose_empty: "em_Text e = [] \<Longrightarrow> em_HTML e = [] \<Longrightarrow> Compose X e privkey = Ret []"
  by (simp add: Compose_def)

lemma email_sign_no_key: "email_sign X host [] data = data"
  by (simp add: email_sign_def)

lemma FromEnvelope_simps [simp]:
  "em_From (FromEnvelope X now to env) = Address X (env_header env ''From'')"
  "em_RcptTo (FromEnvelope X now to env) = Address X to"
  by (simp_all add: FromEnvelope_def)

lemma strip_style_none: "\<not> Contains s ''<style'' \<Longrightarrow> strip_style s = s"
  by (subst strip_style.simps) (simp add: Contains_def)

end
