(* ===== verification/Config.thy ===== *)
theory Config
  imports Email
begin

text \<open>
  The package internal/bot/config: the options of the bot (bot.go) and of a room (room.go),
  ban- and greylist (lists.go), and the manager that loads and stores them as account data
  (manager.go). Options are maps from string to string; keys are trimmed and lower-cased
  on every access. The key constants are abbreviations.

  The manager adds its two fields, the DKIM key pair given in the environment, to the state.
  \<open>SetOption\<close> is a \<open>Set\<close> on a map that came from account data: the write shows in
  linkpearl's cache before anything is stored.
\<close>

section \<open>bot.go\<close>

abbreviation acBotKey :: string where "acBotKey \<equiv> ''cc.etke.postmoogle.config''"
abbreviation BotAdminRoom :: string where "BotAdminRoom \<equiv> ''adminroom''"
abbreviation BotUsers :: string where "BotUsers \<equiv> ''users''"
abbreviation BotCatchAll :: string where "BotCatchAll \<equiv> ''catch-all''"
abbreviation BotDKIMSignature :: string where "BotDKIMSignature \<equiv> ''dkim.pub''"
abbreviation BotDKIMPrivateKey :: string where "BotDKIMPrivateKey \<equiv> ''dkim.pem''"
abbreviation BotQueueBatch :: string where "BotQueueBatch \<equiv> ''queue:batch''"
abbreviation BotQueueRetries :: string where "BotQueueRetries \<equiv> ''queue:retries''"
abbreviation BotBanlistEnabled :: string where "BotBanlistEnabled \<equiv> ''banlist:enabled''"
abbreviation BotBanlistAuto :: string where "BotBanlistAuto \<equiv> ''banlist:auto''"
abbreviation BotBanlistAuth :: string where "BotBanlistAuth \<equiv> ''banlist:auth''"
abbreviation BotGreylist :: string where "BotGreylist \<equiv> ''greylist''"
abbreviation BotMautrix015Migration :: string where "BotMautrix015Migration \<equiv> ''mautrix015migration''"

definition norm_key :: "string \<Rightarrow> string" where
  "norm_key key = ToLower (TrimSpace key)"

definition Bot_Get :: "gomap \<Rightarrow> string \<Rightarrow> string" where
  "Bot_Get s key = goget s (norm_key key)"

definition Bot_Set :: "gomap \<Rightarrow> string \<Rightarrow> string \<Rightarrow> gomap" where
  "Bot_Set s key v = fmupd (norm_key key) v s"

definition Mautrix015Migration :: "gomap \<Rightarrow> int" where
  "Mautrix015Migration s = Int64 (Bot_Get s BotMautrix015Migration)"

definition Users :: "gomap \<Rightarrow> string list" where
  "Users s =
     (let v = Bot_Get s BotUsers in
      if v = [] then []
      else if Contains v '' '' then Split (CHR '' '') v
      else [v])"

definition CatchAll :: "gomap \<Rightarrow> string" where
  "CatchAll s = Bot_Get s BotCatchAll"

definition AdminRoom :: "gomap \<Rightarrow> string" where
  "AdminRoom s = Bot_Get s BotAdminRoom"

definition BanlistEnabled :: "gomap \<Rightarrow> bool" where
  "BanlistEnabled s = Bool (Bot_Get s BotBanlistEnabled)"

definition BanlistAuto :: "gomap \<Rightarrow> bool" where
  "BanlistAuto s = Bool (Bot_Get s BotBanlistAuto)"

definition BanlistAuth :: "gomap \<Rightarrow> bool" where
  "BanlistAuth s = Bool (Bot_Get s BotBanlistAuth)"

definition Greylist :: "gomap \<Rightarrow> int" where
  "Greylist s = Int_of (Bot_Get s BotGreylist)"

definition DKIMSignature :: "gomap \<Rightarrow> string" where
  "DKIMSignature s = Bot_Get s BotDKIMSignature"

definition DKIMPrivateKey :: "gomap \<Rightarrow> string" where
  "DKIMPrivateKey s = Bot_Get s BotDKIMPrivateKey"

definition QueueBatch :: "gomap \<Rightarrow> int" where
  "QueueBatch s = Int_of (Bot_Get s BotQueueBatch)"

definition QueueRetries :: "gomap \<Rightarrow> int" where
  "QueueRetries s = Int_of (Bot_Get s BotQueueRetries)"

section \<open>room.go\<close>

abbreviation acRoomKey :: string where "acRoomKey \<equiv> ''cc.etke.postmoogle.settings''"
abbreviation RoomActive :: string where "RoomActive \<equiv> ''.active''"
abbreviation RoomOwner :: string where "RoomOwner \<equiv> ''owner''"
abbreviation RoomMailbox :: string where "RoomMailbox \<equiv> ''mailbox''"
abbreviation RoomAliases :: string where "RoomAliases \<equiv> ''aliases''"
abbreviation RoomDomain :: string where "RoomDomain \<equiv> ''domain''"
abbreviation RoomPassword :: string where "RoomPassword \<equiv> ''password''"
abbreviation RoomSignature :: string where "RoomSignature \<equiv> ''signature''"
abbreviation RoomAutoreply :: string where "RoomAutoreply \<equiv> ''autoreply''"
abbreviation RoomRelay :: string where "RoomRelay \<equiv> ''relay''"
abbreviation RoomThreadify :: string where "RoomThreadify \<equiv> ''threadify''"
abbreviation RoomStripify :: string where "RoomStripify \<equiv> ''stripify''"
abbreviation RoomNoCC :: string where "RoomNoCC \<equiv> ''nocc''"
abbreviation RoomNoFiles :: string where "RoomNoFiles \<equiv> ''nofiles''"
abbreviation RoomNoHTML :: string where "RoomNoHTML \<equiv> ''nohtml''"
abbreviation RoomNoInlines :: string where "RoomNoInlines \<equiv> ''noinlines''"
abbreviation RoomNoRecipient :: string where "RoomNoRecipient \<equiv> ''norecipient''"
abbreviation RoomNoReplies :: string where "RoomNoReplies \<equiv> ''noreplies''"
abbreviation RoomNoSend :: string where "RoomNoSend \<equiv> ''nosend''"
abbreviation RoomNoSender :: string where "RoomNoSender \<equiv> ''nosender''"
abbreviation RoomNoSubject :: string where "RoomNoSubject \<equiv> ''nosubject''"
abbreviation RoomNoThreads :: string where "RoomNoThreads \<equiv> ''nothreads''"
abbreviation RoomSpamcheckRBL :: string where "RoomSpamcheckRBL \<equiv> ''spamcheck:rbl''"
abbreviation RoomSpamcheckDKIM :: string where "RoomSpamcheckDKIM \<equiv> ''spamcheck:dkim''"
abbreviation RoomSpamcheckSMTP :: string where "RoomSpamcheckSMTP \<equiv> ''spamcheck:smtp''"
abbreviation RoomSpamcheckSPF :: string where "RoomSpamcheckSPF \<equiv> ''spamcheck:spf''"
abbreviation RoomSpamcheckMX :: string where "RoomSpamcheckMX \<equiv> ''spamcheck:mx''"
abbreviation RoomSpamlist :: string where "RoomSpamlist \<equiv> ''spamlist''"

definition Room_Get :: "gomap \<Rightarrow> string \<Rightarrow> string" where
  "Room_Get s key = goget s (norm_key key)"

definition Room_Set :: "gomap \<Rightarrow> string \<Rightarrow> string \<Rightarrow> gomap" where
  "Room_Set s key v = fmupd (norm_key key) v s"

definition Room_Mailbox :: "gomap \<Rightarrow> string" where
  "Room_Mailbox s = Room_Get s RoomMailbox"

definition Room_Aliases :: "gomap \<Rightarrow> string list" where
  "Room_Aliases s = StringSlice (Room_Get s RoomAliases)"

definition Room_Domain :: "gomap \<Rightarrow> string" where
  "Room_Domain s = Room_Get s RoomDomain"

definition Room_Owner :: "gomap \<Rightarrow> string" where
  "Room_Owner s = Room_Get s RoomOwner"

definition Room_Active :: "gomap \<Rightarrow> bool" where
  "Room_Active s = Bool (Room_Get s RoomActive)"

definition Room_Relay :: "externals \<Rightarrow> gomap \<Rightarrow> url option" where
  "Room_Relay X s =
     (let relay = Room_Get s RoomRelay in if relay = [] then None else ext_url X relay)"

definition Room_Password :: "gomap \<Rightarrow> string" where
  "Room_Password s = Room_Get s RoomPassword"

definition Room_Signature :: "gomap \<Rightarrow> string" where
  "Room_Signature s = Room_Get s RoomSignature"

definition Room_Autoreply :: "gomap \<Rightarrow> string" where
  "Room_Autoreply s = Room_Get s RoomAutoreply"

definition Room_Threadify :: "gomap \<Rightarrow> bool" where
  "Room_Threadify s = Bool (Room_Get s RoomThreadify)"

definition Room_Stripify :: "gomap \<Rightarrow> bool" where
  "Room_Stripify s = Bool (Room_Get s RoomStripify)"

definition Room_NoSend :: "gomap \<Rightarrow> bool" where
  "Room_NoSend s = Bool (Room_Get s RoomNoSend)"

definition Room_NoReplies :: "gomap \<Rightarrow> bool" where
  "Room_NoReplies s = Bool (Room_Get s RoomNoReplies)"

definition Room_NoCC :: "gomap \<Rightarrow> bool" where
  "Room_NoCC s = Bool (Room_Get s RoomNoCC)"

definition Room_NoSender :: "gomap \<Rightarrow> bool" where
  "Room_NoSender s = Bool (Room_Get s RoomNoSender)"

definition Room_NoRecipient :: "gomap \<Rightarrow> bool" where
  "Room_NoRecipient s = Bool (Room_Get s RoomNoRecipient)"

definition Room_NoSubject :: "gomap \<Rightarrow> bool" where
  "Room_NoSubject s = Bool (Room_Get s RoomNoSubject)"

definition Room_NoHTML :: "gomap \<Rightarrow> bool" where
  "Room_NoHTML s = Bool (Room_Get s RoomNoHTML)"

definition Room_NoThreads :: "gomap \<Rightarrow> bool" where
  "Room_NoThreads s = Bool (Room_Get s RoomNoThreads)"

definition Room_NoFiles :: "gomap \<Rightarrow> bool" where
  "Room_NoFiles s = Bool (Room_Get s RoomNoFiles)"

definition Room_NoInlines :: "gomap \<Rightarrow> bool" where
  "Room_NoInlines s = Bool (Room_Get s RoomNoInlines)"

definition Room_SpamcheckRBL :: "gomap \<Rightarrow> bool" where
  "Room_SpamcheckRBL s = Bool (Room_Get s RoomSpamcheckRBL)"

definition Room_SpamcheckDKIM :: "gomap \<Rightarrow> bool" where
  "Room_SpamcheckDKIM s = Bool (Room_Get s RoomSpamcheckDKIM)"

definition Room_SpamcheckSMTP :: "gomap \<Rightarrow> bool" where
  "Room_SpamcheckSMTP s = Bool (Room_Get s RoomSpamcheckSMTP)"

definition Room_SpamcheckSPF :: "gomap \<Rightarrow> bool" where
  "Room_SpamcheckSPF s = Bool (Room_Get s RoomSpamcheckSPF)"

definition Room_SpamcheckMX :: "gomap \<Rightarrow> bool" where
  "Room_SpamcheckMX s = Bool (Room_Get s RoomSpamcheckMX)"

definition Room_Spamlist :: "gomap \<Rightarrow> string list" where
  "Room_Spamlist s = StringSlice (Room_Get s RoomSpamlist)"

text \<open>
  The migration collects the items in a Go set and writes them in the order the set is
  ranged over, which \<open>SliceString\<close> then sorts away; here the set is a list without
  duplicates.
\<close>

definition migrated_items :: "gomap \<Rightarrow> string list" where
  "migrated_items s =
     (let items = (\<lambda>key. filter (\<lambda>i. i \<noteq> []) (StringSlice (Room_Get s key))) in
      remdups (items ''spamlist:emails'' @
               map (\<lambda>l. l @ ''@*'') (items ''spamlist:localparts'') @
               map (\<lambda>h. ''*@'' @ h) (items ''spamlist:hosts'') @
               items RoomSpamlist))"

definition MigrateSpamlistSettings :: "gomap \<Rightarrow> gomap" where
  "MigrateSpamlistSettings s =
     Room_Set
       (fmdrop ''spamlist:hosts'' (fmdrop ''spamlist:localparts'' (fmdrop ''spamlist:emails'' s)))
       RoomSpamlist (SliceString (migrated_items s))"

abbreviation eventMessageIDkey :: string where "eventMessageIDkey \<equiv> ''cc.etke.postmoogle.messageID''"
abbreviation eventReferencesKey :: string where "eventReferencesKey \<equiv> ''cc.etke.postmoogle.references''"
abbreviation eventInReplyToKey :: string where "eventInReplyToKey \<equiv> ''cc.etke.postmoogle.inReplyTo''"
abbreviation eventSubjectKey :: string where "eventSubjectKey \<equiv> ''cc.etke.postmoogle.subject''"
abbreviation eventRcptToKey :: string where "eventRcptToKey \<equiv> ''cc.etke.postmoogle.rcptTo''"
abbreviation eventFromKey :: string where "eventFromKey \<equiv> ''cc.etke.postmoogle.from''"
abbreviation eventToKey :: string where "eventToKey \<equiv> ''cc.etke.postmoogle.to''"
abbreviation eventCcKey :: string where "eventCcKey \<equiv> ''cc.etke.postmoogle.cc''"

definition ContentOptions :: "gomap \<Rightarrow> contentOptions" where
  "ContentOptions s =
     \<lparr>co_CC = \<not> Room_NoCC s, co_Sender = \<not> Room_NoSender s, co_Recipient = \<not> Room_NoRecipient s,
      co_Subject = \<not> Room_NoSubject s, co_HTML = \<not> Room_NoHTML s, co_Threads = \<not> Room_NoThreads s,
      co_Threadify = Room_Threadify s, co_Stripify = Room_Stripify s,
      co_MessageIDKey = eventMessageIDkey, co_InReplyToKey = eventInReplyToKey,
      co_ReferencesKey = eventReferencesKey, co_SubjectKey = eventSubjectKey,
      co_FromKey = eventFromKey, co_ToKey = eventToKey, co_CcKey = eventCcKey,
      co_RcptToKey = eventRcptToKey\<rparr>"

section \<open>lists.go\<close>

abbreviation acBanlistKey :: string where "acBanlistKey \<equiv> ''cc.etke.postmoogle.banlist''"
abbreviation acGreylistKey :: string where "acGreylistKey \<equiv> ''cc.etke.postmoogle.greylist''"

definition List_Slice :: "gomap \<Rightarrow> string list" where
  "List_Slice l = sorted_list_of_fset (fmdom l)"

definition List_Has :: "gomap \<Rightarrow> netaddr \<Rightarrow> bool" where
  "List_Has l addr = (fmlookup l (AddrIP addr) \<noteq> None)"

definition List_Get :: "externals \<Rightarrow> gomap \<Rightarrow> netaddr \<Rightarrow> int option" where
  "List_Get X l addr =
     (let from = goget l (AddrIP addr) in if from = [] then None else ext_ParseTime X from)"

definition List_Add :: "externals \<Rightarrow> int \<Rightarrow> gomap \<Rightarrow> netaddr \<Rightarrow> gomap" where
  "List_Add X now l addr =
     (let key = AddrIP addr in
      if fmlookup l key \<noteq> None then l else fmupd key (ext_FormatTime X now) l)"

definition List_Remove :: "gomap \<Rightarrow> netaddr \<Rightarrow> gomap" where
  "List_Remove l addr =
     (let key = AddrIP addr in if fmlookup l key = None then l else fmdrop key l)"

section \<open>manager.go\<close>

record cfg_state = lp_state +
  dkimPrivKey :: string
  dkimSignature :: string

definition SetOption ::
  "ackey \<Rightarrow> gomap \<Rightarrow> string \<Rightarrow> string \<Rightarrow> ('a lp_state_scheme, gomap) action" where
  "SetOption k cfg key v =
     (let m = fmupd (norm_key key) v cfg in thenM (alias_write k m) (returnM m))"

definition GetBot :: "('a cfg_state_scheme, gomap) action" where
  "GetBot =
     bindM (GetAccountData (UserData acBotKey)) (\<lambda>(config, _).
     if DKIMPrivateKey config = [] then
       bindM (readM (\<lambda>w. (dkimPrivKey w, dkimSignature w))) (\<lambda>(privkey, signature).
       bindM (SetOption (UserData acBotKey) config BotDKIMPrivateKey privkey) (\<lambda>config.
       SetOption (UserData acBotKey) config BotDKIMSignature signature))
     else returnM config)"

definition SetBot :: "gomap \<Rightarrow> ('a cfg_state_scheme, string option) action" where
  "SetBot cfg = SetAccountData (UserData acBotKey) cfg"

definition GetRoom :: "string \<Rightarrow> ('a cfg_state_scheme, gomap \<times> string option) action" where
  "GetRoom roomID = GetAccountData (RoomData roomID acRoomKey)"

definition SetRoom :: "string \<Rightarrow> gomap \<Rightarrow> ('a cfg_state_scheme, string option) action" where
  "SetRoom roomID cfg = SetAccountData (RoomData roomID acRoomKey) cfg"

definition GetBanlist :: "('a cfg_state_scheme, gomap) action" where
  "GetBanlist =
     bindM GetBot (\<lambda>bot.
     if \<not> BanlistEnabled bot then returnM fmempty
     else bindM (GetAccountData (UserData acBanlistKey)) (\<lambda>(config, _). returnM config))"

definition SetBanlist :: "gomap \<Rightarrow> ('a cfg_state_scheme, string option) action" where
  "SetBanlist cfg =
     bindM GetBot (\<lambda>bot.
     if \<not> BanlistEnabled bot then returnM None
     else SetAccountData (UserData acBanlistKey) cfg)"

definition GetGreylist :: "('a cfg_state_scheme, gomap) action" where
  "GetGreylist = bindM (GetAccountData (UserData acGreylistKey)) (\<lambda>(config, _). returnM config)"

definition SetGreylist :: "gomap \<Rightarrow> ('a cfg_state_scheme, string option) action" where
  "SetGreylist cfg = SetAccountData (UserData acGreylistKey) cfg"

text \<open>\<open>Set\<close> on the map of a room's settings.\<close>

definition RoomSetOption ::
  "string \<Rightarrow> gomap \<Rightarrow> string \<Rightarrow> string \<Rightarrow> ('a lp_state_scheme, gomap) action" where
  "RoomSetOption roomID cfg key v = SetOption (RoomData roomID acRoomKey) cfg key v"

text \<open>\<open>Set\<close> on the map of the bot's options.\<close>

definition BotSetOption ::
  "gomap \<Rightarrow> string \<Rightarrow> string \<Rightarrow> ('a lp_state_scheme, gomap) action" where
  "BotSetOption cfg key v = SetOption (UserData acBotKey) cfg key v"

section \<open>Lemmas\<close>

subsection \<open>Options\<close>

lemma norm_key_idem [simp]: "norm_key (norm_key k) = norm_key k"
  by (simp add: norm_key_def TrimSpace_ToLower)

lemma norm_key_const [simp]:
  "norm_key BotAdminRoom = BotAdminRoom" "norm_key BotUsers = BotUsers"
  "norm_key BotCatchAll = BotCatchAll" "norm_key BotDKIMSignature = BotDKIMSignature"
  "norm_key BotDKIMPrivateKey = BotDKIMPrivateKey" "norm_key BotQueueBatch = BotQueueBatch"
  "norm_key BotQueueRetries = BotQueueRetries" "norm_key BotBanlistEnabled = BotBanlistEnabled"
  "norm_key BotBanlistAuto = BotBanlistAuto" "norm_key BotBanlistAuth = BotBanlistAuth"
  "norm_key BotGreylist = BotGreylist" "norm_key BotMautrix015Migration = BotMautrix015Migration"
  by code_simp+

lemma norm_key_room [simp]:
  "norm_key RoomActive = RoomActive" "norm_key RoomOwner = RoomOwner"
  "norm_key RoomMailbox = RoomMailbox" "norm_key RoomAliases = RoomAliases"
  "norm_key RoomDomain = RoomDomain" "norm_key RoomPassword = RoomPassword"
  "norm_key RoomSignature = RoomSignature" "norm_key RoomAutoreply = RoomAutoreply"
  "norm_key RoomRelay = RoomRelay" "norm_key RoomNoSend = RoomNoSend"
  "norm_key RoomNoReplies = RoomNoReplies" "norm_key RoomNoThreads = RoomNoThreads"
  "norm_key RoomThreadify = RoomThreadify" "norm_key RoomStripify = RoomStripify"
  "norm_key RoomSpamlist = RoomSpamlist" "norm_key ''spamlist:emails'' = ''spamlist:emails''"
  "norm_key ''spamlist:localparts'' = ''spamlist:localparts''"
  "norm_key ''spamlist:hosts'' = ''spamlist:hosts''"
  by code_simp+

lemma Room_Get_Set [simp]:
  "Room_Get (Room_Set s k v) k' = (if norm_key k = norm_key k' then v else Room_Get s k')"
  by (simp add: Room_Get_def Room_Set_def)

lemma Bot_Get_Set [simp]:
  "Bot_Get (Bot_Set s k v) k' = (if norm_key k = norm_key k' then v else Bot_Get s k')"
  by (simp add: Bot_Get_def Bot_Set_def)

lemma Room_Get_empty [simp]: "Room_Get fmempty k = []"
  by (simp add: Room_Get_def)

lemma Room_Get_fmdrop [simp]:
  "Room_Get (fmdrop k s) k' = (if k = norm_key k' then [] else Room_Get s k')"
  by (simp add: Room_Get_def)

lemmas room_option_defs =
  Room_Mailbox_def Room_Aliases_def Room_Domain_def Room_Owner_def Room_Active_def
  Room_Password_def Room_NoSend_def Room_NoReplies_def Room_NoThreads_def Room_Spamlist_def

lemmas bot_option_defs =
  CatchAll_def AdminRoom_def BanlistEnabled_def BanlistAuto_def BanlistAuth_def Greylist_def
  DKIMSignature_def DKIMPrivateKey_def QueueBatch_def QueueRetries_def Users_def
  Mautrix015Migration_def

subsection \<open>The spam list migration\<close>

definition old_items :: "gomap \<Rightarrow> string \<Rightarrow> string set" where
  "old_items s key = {i \<in> set (StringSlice (Room_Get s key)). i \<noteq> []}"

lemma set_migrated_items:
  "set (migrated_items s) =
     old_items s ''spamlist:emails'' \<union>
     (\<lambda>l. l @ ''@*'') ` old_items s ''spamlist:localparts'' \<union>
     (\<lambda>h. ''*@'' @ h) ` old_items s ''spamlist:hosts'' \<union>
     old_items s RoomSpamlist"
  by (auto simp: migrated_items_def old_items_def Let_def)

lemma old_items_clean:
  "i \<in> old_items s key \<Longrightarrow> i \<noteq> [] \<and> TrimSpace i = i \<and> CHR '','' \<notin> set i"
  by (auto simp: old_items_def StringSlice_trimmed dest: StringSlice_no_comma)

lemma migrated_items_clean:
  assumes "i \<in> set (migrated_items s)"
  shows "i \<noteq> [] \<and> TrimSpace i = i \<and> CHR '','' \<notin> set i"
  using assms unfolding set_migrated_items
  by (auto dest!: old_items_clean simp: TrimSpace_fix_iff is_space_def hd_append)

lemma slice_items_clean:
  "\<forall>i \<in> set xs. i \<noteq> [] \<and> TrimSpace i = i \<Longrightarrow> slice_items xs = sortStrings xs"
  by (simp add: slice_items_def map_idI filter_True cong: map_cong)

lemma Room_Spamlist_migrated:
  "set (Room_Spamlist (MigrateSpamlistSettings s)) = set (migrated_items s)"
proof -
  have "StringSlice (SliceString (migrated_items s)) = slice_items (migrated_items s)"
    by (rule StringSlice_SliceString) (blast dest: migrated_items_clean)
  moreover have "slice_items (migrated_items s) = sortStrings (migrated_items s)"
    by (rule slice_items_clean) (blast dest: migrated_items_clean)
  ultimately show ?thesis by (simp add: Room_Spamlist_def MigrateSpamlistSettings_def)
qed


lemma Migrate_old_keys [simp]:
  "Room_Get (MigrateSpamlistSettings s) ''spamlist:emails'' = []"
  "Room_Get (MigrateSpamlistSettings s) ''spamlist:localparts'' = []"
  "Room_Get (MigrateSpamlistSettings s) ''spamlist:hosts'' = []"
  by (simp_all add: MigrateSpamlistSettings_def)

lemma Migrate_other_keys:
  "norm_key key \<notin> {''spamlist:emails'', ''spamlist:localparts'', ''spamlist:hosts'', RoomSpamlist} \<Longrightarrow>
   Room_Get (MigrateSpamlistSettings s) key = Room_Get s key"
  by (auto simp: MigrateSpamlistSettings_def)

lemma distinct_migrated_items: "distinct (migrated_items s)"
  by (simp add: migrated_items_def Let_def)

lemma SliceString_cong_set:
  assumes "distinct xs" and "distinct ys" and "set xs = set ys"
    and "\<forall>i \<in> set xs. i \<noteq> [] \<and> TrimSpace i = i"
  shows "SliceString xs = SliceString ys"
proof -
  have "sortStrings xs = sortStrings ys"
    using assms(1-3) by (simp add: sortStrings_def sorted_distinct_set_unique)
  then show ?thesis using assms(3,4) by (simp add: SliceString_items slice_items_clean)
qed

lemma SliceString_migrated_twice:
  "SliceString (migrated_items (MigrateSpamlistSettings s)) = SliceString (migrated_items s)"
proof (rule SliceString_cong_set)
  show "set (migrated_items (MigrateSpamlistSettings s)) = set (migrated_items s)"
    using Room_Spamlist_migrated [of s] migrated_items_clean [of _ s]
    by (auto simp: set_migrated_items [of "MigrateSpamlistSettings s"] old_items_def
        Room_Spamlist_def)
qed (auto simp: distinct_migrated_items dest: migrated_items_clean)

lemma Migrate_idem:
  "MigrateSpamlistSettings (MigrateSpamlistSettings s) = MigrateSpamlistSettings s"
  by (rule fmap_ext)
    (simp add: MigrateSpamlistSettings_def [of "MigrateSpamlistSettings s"] SliceString_migrated_twice,
     simp add: MigrateSpamlistSettings_def Room_Set_def)

subsection \<open>Ban- and greylist\<close>

lemma List_Has_Add: "List_Has (List_Add X now l a) b \<longleftrightarrow> AddrIP a = AddrIP b \<or> List_Has l b"
  by (auto simp: List_Has_def List_Add_def Let_def)

lemma List_Has_Remove: "List_Has (List_Remove l a) b \<longleftrightarrow> AddrIP a \<noteq> AddrIP b \<and> List_Has l b"
  by (auto simp: List_Has_def List_Remove_def Let_def)

lemma List_Add_twice: "List_Add X t' (List_Add X t l a) a = List_Add X t l a"
  by (auto simp: List_Add_def Let_def)

lemma List_Add_old: "List_Has l a \<Longrightarrow> List_Add X now l a = l"
  by (simp add: List_Has_def List_Add_def)

lemma List_Remove_Add: "\<not> List_Has l a \<Longrightarrow> List_Remove (List_Add X now l a) a = l"
  by (auto simp: List_Has_def List_Remove_def List_Add_def Let_def intro!: fmap_ext)

lemma List_Get_Add:
  "time_law X \<Longrightarrow> valid_time now \<Longrightarrow> \<not> List_Has l a \<Longrightarrow> List_Get X (List_Add X now l a) a = Some now"
  by (simp add: List_Has_def List_Get_def List_Add_def goget_def time_law_def)

subsection \<open>The manager\<close>

lemma preserves_SetOption [preserves_rules]: "lp_frame I \<Longrightarrow> preserves I (SetOption k cfg key v)"
  unfolding SetOption_def by (intro preserves_rules)

lemma preserves_RoomSetOption [preserves_rules]:
  "lp_frame I \<Longrightarrow> preserves I (RoomSetOption r cfg key v)"
  unfolding RoomSetOption_def by (intro preserves_rules)

lemma preserves_BotSetOption [preserves_rules]:
  "lp_frame I \<Longrightarrow> preserves I (BotSetOption cfg key v)"
  unfolding BotSetOption_def by (intro preserves_rules)

lemma preserves_GetBot [preserves_rules]: "lp_frame I \<Longrightarrow> preserves I GetBot"
  unfolding GetBot_def by (intro preserves_rules)

lemma preserves_SetBot [preserves_rules]: "lp_frame I \<Longrightarrow> preserves I (SetBot cfg)"
  unfolding SetBot_def by (intro preserves_rules)

lemma preserves_GetRoom [preserves_rules]: "lp_frame I \<Longrightarrow> preserves I (GetRoom r)"
  unfolding GetRoom_def by (intro preserves_rules)

lemma preserves_SetRoom [preserves_rules]: "lp_frame I \<Longrightarrow> preserves I (SetRoom r cfg)"
  unfolding SetRoom_def by (intro preserves_rules)

lemma preserves_GetBanlist [preserves_rules]: "lp_frame I \<Longrightarrow> preserves I GetBanlist"
  unfolding GetBanlist_def by (intro preserves_rules)

lemma preserves_SetBanlist [preserves_rules]: "lp_frame I \<Longrightarrow> preserves I (SetBanlist cfg)"
  unfolding SetBanlist_def by (intro preserves_rules)

lemma preserves_GetGreylist [preserves_rules]: "lp_frame I \<Longrightarrow> preserves I GetGreylist"
  unfolding GetGreylist_def by (intro preserves_rules)

lemma preserves_SetGreylist [preserves_rules]: "lp_frame I \<Longrightarrow> preserves I (SetGreylist cfg)"
  unfolding SetGreylist_def by (intro preserves_rules)

lemma returns_SetOption [returns_rules]: "returns (SetOption k cfg key v)"
  unfolding SetOption_def by (intro returns_rules)

lemma returns_config [returns_rules]:
  "returns GetBot" "returns (SetBot cfg)" "returns (GetRoom r)" "returns (SetRoom r cfg)"
  "returns GetBanlist" "returns (SetBanlist cfg)" "returns GetGreylist" "returns (SetGreylist cfg)"
  "returns (RoomSetOption r cfg key v)" "returns (BotSetOption cfg key v)"
  unfolding GetBot_def SetBot_def GetRoom_def SetRoom_def GetBanlist_def SetBanlist_def
    GetGreylist_def SetGreylist_def RoomSetOption_def BotSetOption_def
  by (intro returns_rules)+

text \<open>The settings of a room and the options of the bot, as the cache holds them.\<close>

abbreviation room_cfg :: "'a cfg_state_scheme \<Rightarrow> string \<Rightarrow> gomap option" where
  "room_cfg w r \<equiv> fmlookup (acc w) (RoomData r acRoomKey)"

abbreviation bot_cfg :: "'a cfg_state_scheme \<Rightarrow> gomap option" where
  "bot_cfg w \<equiv> fmlookup (acc w) (UserData acBotKey)"

lemma run_GetRoom_cached [run_simps]: "room_cfg w r = Some m \<Longrightarrow> GetRoom r w = (Ret (m, None), w)"
  unfolding GetRoom_def by (rule lpad.get_cached)

lemma GetRoom_total: "\<exists>m e w'. GetRoom r w = (Ret (m, e), w')"
  unfolding GetRoom_def using lpad.get_total by (metis prod.collapse)

lemma SetRoom_total: "\<exists>e w'. SetRoom r m w = (Ret e, w')"
  unfolding SetRoom_def using lpad.put_total by (metis prod.collapse)

lemma GetRoom_Ret: "GetRoom r w = (Ret (m, None), w') \<Longrightarrow> room_cfg w' r = Some m"
  unfolding GetRoom_def by (rule lpad.get_result)

lemma SetRoom_cached: "SetRoom r m w = (e, w') \<Longrightarrow> room_cfg w' r = Some m"
  unfolding SetRoom_def using lpad.put_result by (metis snd_conv)

lemma SetRoom_other: "SetRoom r m w = (e, w') \<Longrightarrow> r' \<noteq> r \<Longrightarrow> room_cfg w' r' = room_cfg w r'"
  unfolding SetRoom_def
  using lpad.put_frame [of "RoomData r' acRoomKey" "RoomData r acRoomKey" m w] by simp

lemma run_SetOption [run_simps]:
  "fmlookup (acc w) k = Some old \<Longrightarrow>
   SetOption k cfg key v w =
     (Ret (fmupd (norm_key key) v cfg), w\<lparr>acc := fmupd k (fmupd (norm_key key) v cfg) (acc w)\<rparr>)"
  by (simp add: SetOption_def alias_write_def run_simps bindM_def Let_def)

lemma run_GetBot_cached [run_simps]:
  "bot_cfg w = Some m \<Longrightarrow> DKIMPrivateKey m \<noteq> [] \<Longrightarrow> GetBot w = (Ret m, w)"
  by (simp add: GetBot_def run_simps lpad.get_cached)

end
