(* ===== verification/Queue.thy ===== *)
theory Queue
  imports Config
begin

text \<open>
  The package internal/bot/queue: emails that could not be delivered at once are kept as
  account data, an index from identifier to item key and one item per email, and a periodic
  run tries them again. \<open>sendmail\<close> is the function the SMTP client installs; \<open>mail_fault n\<close>
  is the error of its \<open>n\<close>-th call, and \<open>mail_sent\<close> lists the deliveries it accepted.
  Go ranges over the index in an unspecified order: \<open>order\<close> turns the sorted list of
  identifiers into the order of that run.
\<close>

record queue_state = cfg_state +
  mail_calls :: nat
  mail_fault :: "nat \<Rightarrow> string option"
  mail_sent :: "(string \<times> string \<times> string \<times> url option) list"

abbreviation acQueueKey :: string where "acQueueKey \<equiv> ''cc.etke.postmoogle.mailqueue''"

definition defaultQueueBatch :: int where
  "defaultQueueBatch = 10"

definition defaultQueueRetries :: int where
  "defaultQueueRetries = 100"

definition sendmail ::
  "string \<Rightarrow> string \<Rightarrow> string \<Rightarrow> url option \<Rightarrow> ('a queue_state_scheme, string option) action" where
  "sendmail from to data relay w =
     (let w' = w\<lparr>mail_calls := Suc (mail_calls w)\<rparr> in
      case mail_fault w (mail_calls w) of
        Some e \<Rightarrow> (Ret (Some e), w')
      | None \<Rightarrow> (Ret None, w'\<lparr>mail_sent := mail_sent w @ [(from, to, data, relay)]\<rparr>))"

section \<open>queue.go\<close>

definition item_key :: "string \<Rightarrow> string" where
  "item_key i = acQueueKey @ ''.'' @ i"

definition new_item :: "string \<Rightarrow> string \<Rightarrow> string \<Rightarrow> string \<Rightarrow> string \<Rightarrow> gomap" where
  "new_item i from to data relay =
     fmap_of_list [(''attempts'', ''0''), (''relay'', relay), (''data'', data),
                   (''from'', from), (''to'', to), (''id'', i)]"

text \<open>
  The relay arguments are pointers: \<open>None\<close> is a nil pointer, and calling \<open>String\<close> on it
  panics.
\<close>

definition queue_Add ::
  "string \<Rightarrow> string \<Rightarrow> string \<Rightarrow> string \<Rightarrow> url option list \<Rightarrow>
   ('a queue_state_scheme, string option) action" where
  "queue_Add i from to data relayOverride =
     bindM (case relayOverride of
              [] \<Rightarrow> returnM []
            | None # _ \<Rightarrow> panicM ''nil pointer dereference''
            | Some u # _ \<Rightarrow> returnM (url_text u)) (\<lambda>relay.
     bindM (SetAccountData (UserData (item_key i)) (new_item i from to data relay)) (\<lambda>err.
     if err \<noteq> None then returnM err
     else
       bindM (GetAccountData (UserData acQueueKey)) (\<lambda>(queueIndex, err).
       if err \<noteq> None then returnM err
       else
         (let queueIndex = fmupd i (item_key i) queueIndex in
          thenM (alias_write (UserData acQueueKey) queueIndex)
          (SetAccountData (UserData acQueueKey) queueIndex)))))"

definition queue_Remove :: "string \<Rightarrow> ('a queue_state_scheme, string option) action" where
  "queue_Remove i =
     bindM (GetAccountData (UserData acQueueKey)) (\<lambda>(index, err).
     if err \<noteq> None then returnM err
     else
       (let itemkey = (if goget index i = [] then item_key i else goget index i);
            index = fmdrop i index in
        thenM (alias_write (UserData acQueueKey) index)
        (bindM (SetAccountData (UserData acQueueKey) index) (\<lambda>err.
         if err \<noteq> None then returnM err
         else SetAccountData (UserData itemkey) fmempty))))"

definition queue_try :: "externals \<Rightarrow> string \<Rightarrow> int \<Rightarrow> ('a queue_state_scheme, bool) action" where
  "queue_try X itemkey maxRetries =
     bindM (GetAccountData (UserData itemkey)) (\<lambda>(item, err).
     if err \<noteq> None then returnM False
     else
       case Atoi (goget item ''attempts'') of
         None \<Rightarrow> returnM False
       | Some attempts \<Rightarrow>
           if attempts > maxRetries then returnM True
           else
             (let relayOverride = (if goget item ''relay'' \<noteq> [] then ext_url X (goget item ''relay'') else None) in
              bindM (sendmail (goget item ''from'') (goget item ''to'') (goget item ''data'') relayOverride) (\<lambda>err.
              case err of
                None \<Rightarrow> returnM True
              | Some _ \<Rightarrow>
                  (let item = fmupd ''attempts'' (Itoa (wrap64 (attempts + 1))) item in
                   thenM (alias_write (UserData itemkey) item)
                   (bindM (SetAccountData (UserData itemkey) item) (\<lambda>_. returnM False))))))"

section \<open>manager.go\<close>

text \<open>The batch size and the number of retries, with the default for an option that is not set.\<close>

definition batch_of :: "gomap \<Rightarrow> int" where
  "batch_of cfg = (if QueueBatch cfg = 0 then defaultQueueBatch else QueueBatch cfg)"

definition retries_of :: "gomap \<Rightarrow> int" where
  "retries_of cfg = (if QueueRetries cfg = 0 then defaultQueueRetries else QueueRetries cfg)"

fun process_loop ::
  "externals \<Rightarrow> int \<Rightarrow> int \<Rightarrow> gomap \<Rightarrow> int \<Rightarrow> string list \<Rightarrow> ('a queue_state_scheme, unit) action" where
  "process_loop X batchSize maxRetries index i [] = skipM"
| "process_loop X batchSize maxRetries index i (eid # ids) =
     (if i > batchSize then skipM
      else
        bindM (queue_try X (goget index eid) maxRetries) (\<lambda>dequeue.
        thenM (if dequeue then bindM (queue_Remove eid) (\<lambda>_. skipM) else skipM)
        (process_loop X batchSize maxRetries index (i + 1) ids)))"

definition queue_Process ::
  "externals \<Rightarrow> (string list \<Rightarrow> string list) \<Rightarrow> ('a queue_state_scheme, unit) action" where
  "queue_Process X order =
     bindM GetBot (\<lambda>cfg.
     (let batchSize = batch_of cfg; maxRetries = retries_of cfg in
      bindM (GetAccountData (UserData acQueueKey)) (\<lambda>(index, _).
      process_loop X batchSize maxRetries index 0 (order (sorted_list_of_fset (fmdom index))))))"

section \<open>Lemmas\<close>

lemma lp_frame_queue [simp, intro]:
  "lp_frame (\<lambda>w. P (mail_calls w) (mail_fault w) (mail_sent w))"
proof -
  have "queue_state.mail_calls w = mail_calls w' \<and> mail_fault w = mail_fault w' \<and> mail_sent w = mail_sent w'"
    if "lp_state.more w = lp_state.more w'" for w w' :: "'a queue_state_scheme"
    using that by (cases w; cases w') simp
  then show ?thesis unfolding lp_frame_def by metis
qed

lemma item_key_inj [simp]: "item_key i = item_key j \<longleftrightarrow> i = j"
  by (simp add: item_key_def)

lemma item_key_not_index [simp]: "item_key i \<noteq> acQueueKey" "acQueueKey \<noteq> item_key i"
  by (simp_all add: item_key_def)

lemma item_key_not_Nil [simp]: "item_key i \<noteq> []"
  by (simp add: item_key_def)

lemma goget_new_item [simp]:
  "goget (new_item i from to data relay) ''attempts'' = ''0''"
  "goget (new_item i from to data relay) ''relay'' = relay"
  "goget (new_item i from to data relay) ''data'' = data"
  "goget (new_item i from to data relay) ''from'' = from"
  "goget (new_item i from to data relay) ''to'' = to"
  by (simp_all add: new_item_def goget_def fmlookup_of_list)

lemma Atoi_zero [simp]: "Atoi ''0'' = Some 0"
  by code_simp

abbreviation queue_index :: "'a queue_state_scheme \<Rightarrow> gomap option" where
  "queue_index w \<equiv> fmlookup (acc w) (UserData acQueueKey)"

abbreviation queue_item :: "'a queue_state_scheme \<Rightarrow> string \<Rightarrow> gomap option" where
  "queue_item w key \<equiv> fmlookup (acc w) (UserData key)"

subsection \<open>One attempt\<close>

lemma try_exhausted:
  "queue_item w key = Some item \<Longrightarrow> Atoi (goget item ''attempts'') = Some a \<Longrightarrow> maxRetries < a \<Longrightarrow>
   queue_try X key maxRetries w = (Ret True, w)"
  by (simp add: queue_try_def run_simps)

lemma try_unreadable:
  "queue_item w key = Some item \<Longrightarrow> Atoi (goget item ''attempts'') = None \<Longrightarrow>
   queue_try X key maxRetries w = (Ret False, w)"
  by (simp add: queue_try_def run_simps)

lemma try_delivers:
  assumes "queue_item w key = Some item" and "Atoi (goget item ''attempts'') = Some a" and "a \<le> maxRetries"
    and "mail_fault w (mail_calls w) = None"
  shows "queue_try X key maxRetries w =
    (Ret True, w\<lparr>mail_calls := Suc (mail_calls w),
                 mail_sent := mail_sent w @
                   [(goget item ''from'', goget item ''to'', goget item ''data'',
                     if goget item ''relay'' \<noteq> [] then ext_url X (goget item ''relay'') else None)]\<rparr>)"
  using assms by (simp add: queue_try_def sendmail_def run_simps Let_def)

lemma try_fails:
  assumes "queue_item w key = Some item" and "Atoi (goget item ''attempts'') = Some a" and "a \<le> maxRetries"
    and "mail_fault w (mail_calls w) = Some e"
  obtains w' where "queue_try X key maxRetries w = (Ret False, w')"
    and "acc w' = fmupd (UserData key) (fmupd ''attempts'' (Itoa (wrap64 (a + 1))) item) (acc w)"
    and "mail_calls w' = Suc (mail_calls w)" and "mail_fault w' = mail_fault w"
    and "mail_sent w' = mail_sent w" and "hs_fault w' = hs_fault w"
  using assms by (simp add: queue_try_def sendmail_def run_simps Let_def)

subsection \<open>How many deliveries a run attempts\<close>

text \<open>\<open>mails n m\<close>: the action \<open>m\<close> asks for at most \<open>n\<close> deliveries.\<close>

definition mails :: "nat \<Rightarrow> ('a queue_state_scheme, 'b) action \<Rightarrow> bool" where
  "mails n m \<longleftrightarrow> (\<forall>w. mail_calls (snd (m w)) \<le> mail_calls w + n)"

lemma mailsD: "mails n m \<Longrightarrow> mail_calls (snd (m w)) \<le> mail_calls w + n"
  by (simp add: mails_def)

lemma mails_mono: "mails n m \<Longrightarrow> n \<le> n' \<Longrightarrow> mails n' m"
  unfolding mails_def by (metis add_left_mono order_trans)

lemma lp_frame_calls [simp, intro]: "lp_frame (\<lambda>w. mail_calls w \<le> n)"
  using lp_frame_queue [of "\<lambda>c _ _. c \<le> n"] by simp

lemma mails_frame: "(\<And>n. preserves (\<lambda>w. mail_calls w \<le> n) m) \<Longrightarrow> mails 0 m"
  by (simp add: mails_def preserves_def)

lemma mails_bindM:
  assumes m: "mails a m" and f: "\<And>x. mails b (f x)"
  shows "mails (a + b) (bindM m f)"
  unfolding mails_def
proof
  fix w
  show "mail_calls (snd (bindM m f w)) \<le> mail_calls w + (a + b)"
  proof (cases "m w")
    case (Pair r w1)
    have w1: "mail_calls w1 \<le> mail_calls w + a" using mailsD [OF m, of w] Pair by simp
    show ?thesis
    proof (cases r)
      case (Ret x)
      then show ?thesis using w1 mailsD [OF f, of x w1] Pair by (simp add: snd_bindM)
    qed (use w1 Pair in \<open>simp add: snd_bindM\<close>)
  qed
qed

lemma mails_thenM: "mails a m \<Longrightarrow> mails b n \<Longrightarrow> mails (a + b) (thenM m n)"
  by (simp add: thenM_def mails_bindM)

lemma mails_skipM: "mails n skipM"
  by (simp add: mails_def skipM_def returnM_def)

lemma mails_sendmail: "mails 1 (sendmail f t d r)"
  by (simp add: mails_def sendmail_def Let_def split: option.split)

lemma preserves_queue_Remove [preserves_rules]: "lp_frame I \<Longrightarrow> preserves I (queue_Remove i)"
  unfolding queue_Remove_def by (intro preserves_rules)

lemma mails_try: "mails 1 (queue_try X key m)"
proof -
  have get: "mails 0 (GetAccountData (UserData key))"
    by (intro mails_frame preserves_rules lp_frame_calls)
  have ret: "mails (Suc 0) (returnM b)" for b :: bool
    by (simp add: mails_def returnM_def)
  have count: "mails 0 (thenM (alias_write k item) (bindM (SetAccountData k item) (\<lambda>_. returnM False)))"
    for k item by (intro mails_frame preserves_rules lp_frame_calls)
  have send: "mails (1 + 0) (bindM (sendmail f t d r) (\<lambda>err. case err of None \<Rightarrow> returnM True
     | Some _ \<Rightarrow> thenM (alias_write k item) (bindM (SetAccountData k item) (\<lambda>_. returnM False))))"
    for f t d r item k
  proof (intro mails_bindM mails_sendmail)
    fix err :: "string option"
    show "mails 0 (case err of None \<Rightarrow> returnM True
     | Some _ \<Rightarrow> thenM (alias_write k item) (bindM (SetAccountData k item) (\<lambda>_. returnM False)))"
      using count by (cases err) (simp_all add: mails_def returnM_def)
  qed
  show ?thesis
    unfolding queue_try_def
    by (rule mails_mono [OF mails_bindM [OF get, of 1]])
      (auto simp: Let_def ret send [simplified] split: option.split)
qed

lemma mails_loop:
  "mails (nat (b - i + 1)) (process_loop X b m index i ids :: ('a queue_state_scheme, unit) action)"
proof (induction ids arbitrary: i)
  case (Cons eid ids)
  show ?case
  proof (cases "i > b")
    case False
    have remove: "mails 0 (if d then bindM (queue_Remove eid) (\<lambda>_. skipM) else skipM)" for d
      by (intro mails_frame preserves_rules lp_frame_calls)
    have "mails (1 + (0 + nat (b - (i + 1) + 1)))
       (bindM (queue_try X (goget index eid) m) (\<lambda>d.
        thenM (if d then bindM (queue_Remove eid) (\<lambda>_. skipM) else skipM)
        (process_loop X b m index (i + 1) ids :: ('a queue_state_scheme, unit) action)))"
      by (intro mails_bindM mails_thenM mails_try remove Cons.IH)
    moreover have "1 + (0 + nat (b - (i + 1) + 1)) = nat (b - i + 1)" using False by arith
    ultimately show ?thesis using False by (simp only: process_loop.simps if_False)
  qed (simp add: mails_skipM)
qed (simp add: mails_skipM)

lemma queue_Process_run:
  assumes "GetBot w = (Ret cfg, w1)" and "GetAccountData (UserData acQueueKey) w1 = (Ret (index, err), w2)"
  shows "queue_Process X order w =
    process_loop X (batch_of cfg) (retries_of cfg) index 0 (order (sorted_list_of_fset (fmdom index))) w2"
  using assms by (simp add: queue_Process_def run_simps Let_def)

lemma mail_calls_Process:
  fixes w :: "'a queue_state_scheme"
  assumes "GetBot w = (Ret cfg, w1)"
  shows "mail_calls (snd (queue_Process X order w)) \<le> mail_calls w + nat (batch_of cfg + 1)"
proof -
  obtain index err w2 where get: "GetAccountData (UserData acQueueKey) w1 = (Ret (index, err), w2)"
    using lpad.get_total by (metis prod.collapse)
  have "mails 0 (GetAccountData (UserData acQueueKey) :: ('a queue_state_scheme, gomap \<times> string option) action)"
    and "mails 0 (GetBot :: ('a queue_state_scheme, gomap) action)"
    by (intro mails_frame preserves_rules lp_frame_calls)+
  then have "mail_calls w2 \<le> mail_calls w"
    using mailsD [of 0 GetBot w] mailsD [of 0 "GetAccountData (UserData acQueueKey)" w1] assms get
    by simp
  moreover have "mail_calls (snd (queue_Process X order w)) \<le> mail_calls w2 + nat (batch_of cfg - 0 + 1)"
    unfolding queue_Process_run [OF assms get] by (rule mailsD [OF mails_loop])
  ultimately show ?thesis by simp
qed


subsection \<open>A run with enough room drains the queue\<close>

text \<open>The delivery an item stands for.\<close>

definition item_mail :: "externals \<Rightarrow> gomap \<Rightarrow> string \<times> string \<times> string \<times> url option" where
  "item_mail X item =
     (goget item ''from'', goget item ''to'', goget item ''data'',
      if goget item ''relay'' \<noteq> [] then ext_url X (goget item ''relay'') else None)"

text \<open>An item that is due: its attempts are readable and not used up.\<close>

definition item_due :: "int \<Rightarrow> gomap \<Rightarrow> bool" where
  "item_due maxRetries item \<longleftrightarrow>
     (case Atoi (goget item ''attempts'') of None \<Rightarrow> False | Some a \<Rightarrow> a \<le> maxRetries)"

lemma try_due:
  assumes "queue_item w key = Some item" and "item_due m item" and "mail_fault w (mail_calls w) = None"
  shows "queue_try X key m w =
    (Ret True, w\<lparr>mail_calls := Suc (mail_calls w), mail_sent := mail_sent w @ [item_mail X item]\<rparr>)"
  using assms by (auto simp: try_delivers item_due_def item_mail_def split: option.splits)

text \<open>What removing an item does to a cached index, when the homeserver takes the write.\<close>

lemma Remove_ok:
  assumes "queue_index w = Some index" and "fmlookup index i = Some key" and "key \<noteq> []"
    and "hs_fault w (hs_calls w) = None" and "hs_fault w (Suc (hs_calls w)) = None"
  obtains w' where "queue_Remove i w = (Ret None, w')"
    and "acc w' = fmupd (UserData key) fmempty (fmupd (UserData acQueueKey) (fmdrop i index) (acc w))"
    and "mail_calls w' = mail_calls w" and "mail_fault w' = mail_fault w" and "mail_sent w' = mail_sent w"
    and "hs_fault w' = hs_fault w" and "hs_calls w' = Suc (Suc (hs_calls w))"
  using assms by (simp add: queue_Remove_def run_simps Let_def goget_def)

text \<open>
  The state the loop keeps: the items still to be tried are in the index and due, every index
  entry points at its own item, and neither the homeserver nor the mail transport fails.
\<close>

definition drain_inv :: "int \<Rightarrow> gomap \<Rightarrow> string list \<Rightarrow> 'a queue_state_scheme \<Rightarrow> bool" where
  "drain_inv m index ids w \<longleftrightarrow>
     (\<forall>n. hs_fault w n = None) \<and> (\<forall>n. mail_fault w n = None) \<and> distinct ids \<and>
     (\<exists>now. queue_index w = Some now \<and> fset (fmdom now) = set ids \<and>
            (\<forall>i \<in> set ids. fmlookup now i = Some (item_key i))) \<and>
     (\<forall>i \<in> set ids. fmlookup index i = Some (item_key i) \<and>
        (\<exists>item. queue_item w (item_key i) = Some item \<and> item_due m item))"

lemma drain_step:
  assumes inv: "drain_inv m index (i # ids) w"
  obtains w1 w2 item where "queue_item w (item_key i) = Some item"
    and "queue_try X (goget index i) m w = (Ret True, w1)"
    and "queue_Remove i w1 = (Ret None, w2)" and "drain_inv m index ids w2"
    and "mail_sent w2 = mail_sent w @ [item_mail X item]"
    and "\<And>j. j \<in> set ids \<Longrightarrow> queue_item w2 (item_key j) = queue_item w (item_key j)"
proof -
  obtain now item where now: "queue_index w = Some now" "fset (fmdom now) = set (i # ids)"
      "\<forall>j \<in> set (i # ids). fmlookup now j = Some (item_key j)"
    and item: "queue_item w (item_key i) = Some item" "item_due m item"
    and idx: "goget index i = item_key i"
    using inv by (auto simp: drain_inv_def goget_def)
  define w1 where "w1 = w\<lparr>mail_calls := Suc (mail_calls w), mail_sent := mail_sent w @ [item_mail X item]\<rparr>"
  have tried: "queue_try X (goget index i) m w = (Ret True, w1)"
    unfolding w1_def idx using item inv by (simp add: try_due drain_inv_def)
  obtain w2 where remove: "queue_Remove i w1 = (Ret None, w2)"
    and acc: "acc w2 = fmupd (UserData (item_key i)) fmempty (fmupd (UserData acQueueKey) (fmdrop i now) (acc w1))"
    and rest: "mail_fault w2 = mail_fault w" "mail_sent w2 = mail_sent w1" "hs_fault w2 = hs_fault w"
    by (rule Remove_ok [of w1 now i "item_key i"]) (use now inv in \<open>simp_all add: w1_def drain_inv_def\<close>)
  have "drain_inv m index ids w2"
    using inv now acc rest by (auto simp: drain_inv_def w1_def)
  then show ?thesis
    by (rule that [OF item(1) tried remove]) (use acc rest inv in \<open>auto simp: w1_def drain_inv_def\<close>)
qed

lemma no_keys: "fset (fmdom m) = {} \<Longrightarrow> m = fmempty"
  by (rule fmap_ext) (metis empty_iff fmdom_notD fmempty_lookup)

lemma drain_loop:
  "drain_inv m index ids w \<Longrightarrow> int (length ids) \<le> b - i + 1 \<Longrightarrow>
   \<exists>w'. process_loop X b m index i ids w = (Ret (), w') \<and> queue_index w' = Some fmempty \<and>
        mail_sent w' = mail_sent w @ map (\<lambda>j. item_mail X (the (queue_item w (item_key j)))) ids"
proof (induction ids arbitrary: i w)
  case Nil
  then show ?case
    by (auto simp: drain_inv_def run_simps no_keys)
next
  case (Cons j ids)
  obtain w1 w2 item where item: "queue_item w (item_key j) = Some item"
    and tried: "queue_try X (goget index j) m w = (Ret True, w1)"
    and remove: "queue_Remove j w1 = (Ret None, w2)" and inv: "drain_inv m index ids w2"
    and sent: "mail_sent w2 = mail_sent w @ [item_mail X item]"
    and same: "\<And>k. k \<in> set ids \<Longrightarrow> queue_item w2 (item_key k) = queue_item w (item_key k)"
    using drain_step [OF Cons.prems(1)] by metis
  have i: "i \<le> b" using Cons.prems(2) by simp
  then have run: "process_loop X b m index i (j # ids) w = process_loop X b m index (i + 1) ids w2"
    by (simp add: run_simps tried remove)
  obtain w' where w': "process_loop X b m index (i + 1) ids w2 = (Ret (), w')"
      "queue_index w' = Some fmempty"
      "mail_sent w' = mail_sent w2 @ map (\<lambda>j. item_mail X (the (queue_item w2 (item_key j)))) ids"
    using Cons.IH [OF inv, of "i + 1"] Cons.prems(2) by auto
  have "map (\<lambda>j. item_mail X (the (queue_item w2 (item_key j)))) ids =
        map (\<lambda>j. item_mail X (the (queue_item w (item_key j)))) ids"
    using same by simp
  then show ?case using run w' sent item by simp
qed

subsection \<open>The life of an email that cannot be delivered\<close>

primrec rounds ::
  "externals \<Rightarrow> (string list \<Rightarrow> string list) \<Rightarrow> nat \<Rightarrow> 'a queue_state_scheme \<Rightarrow> 'a queue_state_scheme" where
  "rounds X order 0 w = w"
| "rounds X order (Suc n) w = snd (queue_Process X order (rounds X order n w))"

text \<open>
  \<open>lone cfg i a w\<close>: the queue holds the email \<open>i\<close> alone, \<open>a\<close> attempts are counted, no delivery
  succeeds and the homeserver takes every write.
\<close>

definition lone :: "gomap \<Rightarrow> string \<Rightarrow> nat \<Rightarrow> 'a queue_state_scheme \<Rightarrow> bool" where
  "lone cfg i a w \<longleftrightarrow>
     bot_cfg w = Some cfg \<and> DKIMPrivateKey cfg \<noteq> [] \<and>
     queue_index w = Some (fmupd i (item_key i) fmempty) \<and>
     (\<exists>item. queue_item w (item_key i) = Some item \<and> Atoi (goget item ''attempts'') = Some (int a)) \<and>
     (\<forall>n. mail_fault w n \<noteq> None) \<and> (\<forall>n. hs_fault w n = None)"

lemma acQueueKey_not_bot [simp]: "acQueueKey \<noteq> acBotKey" "acBotKey \<noteq> acQueueKey"
  by simp_all

lemma item_key_not_bot [simp]: "item_key i \<noteq> acBotKey" "acBotKey \<noteq> item_key i"
  by (simp_all add: item_key_def)

lemma sorted_list_of_fset_single [simp]: "sorted_list_of_fset {|i|} = [i]"
  by (simp add: sorted_list_of_fset.rep_eq)

lemma lone_Process:
  assumes "lone cfg i a w" and "order [i] = [i]" and "0 \<le> batch_of cfg"
  shows "queue_Process X order w =
    bindM (queue_try X (item_key i) (retries_of cfg)) (\<lambda>dequeue.
      if dequeue then bindM (queue_Remove i) (\<lambda>_. skipM) else skipM) w"
proof -
  have "GetBot w = (Ret cfg, w)" using assms(1) by (simp add: lone_def run_simps)
  moreover have "GetAccountData (UserData acQueueKey) w = (Ret (fmupd i (item_key i) fmempty, None), w)"
    using assms(1) by (simp add: lone_def run_simps)
  ultimately show ?thesis
    using assms(2,3)
    by (auto simp: queue_Process_run goget_def bindM_def thenM_def skipM_def returnM_def fun_eq_iff
        split: prod.split res.split)
qed

lemma int64_nat_bound: "int a \<le> r \<Longrightarrow> r < 2 ^ 63 - 1 \<Longrightarrow> int64 (int a + 1)"
  by (simp add: int64_def)

lemma lone_retry:
  assumes l: "lone cfg i a w" and o: "order [i] = [i]" and b: "0 \<le> batch_of cfg"
    and a: "int a \<le> retries_of cfg" and r: "retries_of cfg < 2 ^ 63 - 1"
  shows "lone cfg i (Suc a) (snd (queue_Process X order w)) \<and>
         mail_calls (snd (queue_Process X order w)) = Suc (mail_calls w)"
proof -
  obtain item e where item: "queue_item w (item_key i) = Some item" "Atoi (goget item ''attempts'') = Some (int a)"
    and e: "mail_fault w (mail_calls w) = Some e"
    using l unfolding lone_def by (metis option.exhaust)
  note count = int64_nat_bound [OF a r]
  obtain w' where w': "queue_try X (item_key i) (retries_of cfg) w = (Ret False, w')"
      "acc w' = fmupd (UserData (item_key i)) (fmupd ''attempts'' (Itoa (wrap64 (int a + 1))) item) (acc w)"
      "mail_calls w' = Suc (mail_calls w)" "mail_fault w' = mail_fault w" "hs_fault w' = hs_fault w"
    using try_fails [OF item a e] by metis
  have "queue_Process X order w = (Ret (), w')"
    unfolding lone_Process [where order = order, OF l o b] using w'(1) by (simp add: bindM_def run_skipM)
  then show ?thesis
    using l w' count by (auto simp: lone_def Atoi_Itoa)
qed

lemma lone_drop:
  assumes l: "lone cfg i a w" and o: "order [i] = [i]" and b: "0 \<le> batch_of cfg"
    and a: "retries_of cfg < int a"
  shows "queue_index (snd (queue_Process X order w)) = Some fmempty \<and>
         queue_item (snd (queue_Process X order w)) (item_key i) = Some fmempty \<and>
         mail_calls (snd (queue_Process X order w)) = mail_calls w"
proof -
  obtain item where item: "queue_item w (item_key i) = Some item" "Atoi (goget item ''attempts'') = Some (int a)"
    using l by (auto simp: lone_def)
  obtain w' where w': "queue_Remove i w = (Ret None, w')"
      "acc w' = fmupd (UserData (item_key i)) fmempty (fmupd (UserData acQueueKey) (fmdrop i (fmupd i (item_key i) fmempty)) (acc w))"
      "mail_calls w' = mail_calls w"
    by (rule Remove_ok [of w "fmupd i (item_key i) fmempty" i "item_key i"]) (use l in \<open>simp_all add: lone_def\<close>)
  have "queue_Process X order w = (Ret (), w')"
    unfolding lone_Process [where order = order, OF l o b] using item a w' by (simp add: run_simps try_exhausted)
  then show ?thesis using w' by (simp add: fmfilter_alt_defs)
qed

lemma lone_rounds:
  assumes "lone cfg i 0 w" and "order [i] = [i]" and "0 \<le> batch_of cfg" and "retries_of cfg < 2 ^ 63 - 1"
  shows "int n \<le> retries_of cfg + 1 \<Longrightarrow>
    lone cfg i n (rounds X order n w) \<and> mail_calls (rounds X order n w) = mail_calls w + n"
proof (induction n)
  case (Suc n)
  then show ?case using lone_retry [of cfg i n _ order X] assms by auto
qed (use assms in simp)

section \<open>The contract of the queue\<close>

text \<open>
  What the bot relies on: an email it added is pending under its identifier until it is
  removed, other emails are not touched by either, and no failure of the homeserver breaks
  the queue.
\<close>

locale mail_queue =
  fixes add :: "string \<Rightarrow> string \<Rightarrow> string \<Rightarrow> string \<Rightarrow> url option list \<Rightarrow> ('w, string option) action"
    and remove :: "string \<Rightarrow> ('w, string option) action"
    and content :: "string \<Rightarrow> string \<Rightarrow> string \<Rightarrow> string \<Rightarrow> url option list \<Rightarrow> gomap"
    and pend :: "'w \<Rightarrow> string \<Rightarrow> gomap option"
    and wf :: "'w \<Rightarrow> bool"
  assumes add_wf: "wf w \<Longrightarrow> wf (snd (add i f t d r w))"
    and add_pend: "wf w \<Longrightarrow> add i f t d r w = (Ret None, w') \<Longrightarrow> pend w' i = Some (content i f t d r)"
    and add_frame: "wf w \<Longrightarrow> j \<noteq> i \<Longrightarrow> pend (snd (add i f t d r w)) j = pend w j"
    and remove_wf: "wf w \<Longrightarrow> wf (snd (remove i w))"
    and remove_gone: "wf w \<Longrightarrow> pend (snd (remove i w)) i = None"
    and remove_frame: "wf w \<Longrightarrow> j \<noteq> i \<Longrightarrow> pend (snd (remove i w)) j = pend w j"
begin

lemma add_remove:
  assumes "wf w" and "pend w i = None"
  shows "pend (snd (remove i (snd (add i f t d r w)))) = pend w"
proof
  fix j
  show "pend (snd (remove i (snd (add i f t d r w)))) j = pend w j"
    using assms by (cases "j = i") (simp_all add: remove_gone remove_frame add_wf add_frame)
qed

lemma add_twice_distinct:
  assumes w: "wf w" and i: "i \<noteq> j"
    and a: "add i f t d r w = (Ret None, w1)" and b: "add j f' t' d' r' w1 = (Ret None, w2)"
  shows "pend w2 i = Some (content i f t d r) \<and> pend w2 j = Some (content j f' t' d' r')"
proof -
  have w1: "wf w1" using add_wf [OF w] a by (metis snd_conv)
  have "pend w2 i = pend w1 i" using add_frame [OF w1 i] b by (metis snd_conv)
  then show ?thesis using add_pend [OF w a] add_pend [OF w1 b] by simp
qed

lemma add_twice_same:
  assumes w: "wf w"
    and a: "add i f t d r w = (Ret None, w1)" and b: "add i f' t' d' r' w1 = (Ret None, w2)"
  shows "pend w2 i = Some (content i f' t' d' r') \<and> (\<forall>j. j \<noteq> i \<longrightarrow> pend w2 j = pend w j)"
proof -
  have w1: "wf w1" using add_wf [OF w] a by (metis snd_conv)
  then show ?thesis
    using add_pend [OF w1 b] add_frame [OF w1] add_frame [OF w] a b by (metis snd_conv)
qed

end

definition relay_text :: "url option list \<Rightarrow> string" where
  "relay_text r = (case r of Some u # _ \<Rightarrow> url_text u | _ \<Rightarrow> [])"

definition pending :: "'a queue_state_scheme \<Rightarrow> string \<Rightarrow> gomap option" where
  "pending w i =
     (case queue_index w of
        None \<Rightarrow> None
      | Some index \<Rightarrow> if fmlookup index i = None then None else queue_item w (item_key i))"

text \<open>Every entry of the index names its own item, and that item is there.\<close>

definition queue_wf :: "'a queue_state_scheme \<Rightarrow> bool" where
  "queue_wf w \<longleftrightarrow>
     (\<exists>index. queue_index w = Some index \<and>
        (\<forall>i k. fmlookup index i = Some k \<longrightarrow> k = item_key i \<and> queue_item w k \<noteq> None))"

lemma run_queue_Add:
  assumes "queue_index w = Some index" and "\<forall>u rs. r = u # rs \<longrightarrow> u \<noteq> None"
  shows "\<exists>w'. queue_Add i f t d r w =
      (Ret (if hs_fault w (hs_calls w) \<noteq> None then hs_fault w (hs_calls w)
            else hs_fault w (Suc (hs_calls w))), w') \<and>
    acc w' =
      (if hs_fault w (hs_calls w) \<noteq> None
       then fmupd (UserData (item_key i)) (new_item i f t d (relay_text r)) (acc w)
       else fmupd (UserData acQueueKey) (fmupd i (item_key i) index)
              (fmupd (UserData (item_key i)) (new_item i f t d (relay_text r)) (acc w)))"
proof -
  have r: "(case r of [] \<Rightarrow> returnM [] | None # _ \<Rightarrow> panicM ''nil pointer dereference''
            | Some u # _ \<Rightarrow> returnM (url_text u)) = returnM (relay_text r)"
    using assms(2) by (auto simp: relay_text_def split: list.split option.split)
  show ?thesis
    unfolding queue_Add_def r bindM_returnM
    using assms(1) by (auto simp: run_simps Let_def)
qed

lemma queue_Add_nil:
  "queue_Add i f t d (None # rs) w = (Panic ''nil pointer dereference'', w)"
  by (simp add: queue_Add_def run_simps)

lemma acc_queue_Add:
  assumes "queue_wf w"
  obtains (panic) p where "queue_Add i f t d r w = (Panic p, w)"
  | (item) e w' where "queue_Add i f t d r w = (Ret (Some e), w')"
      and "acc w' = fmupd (UserData (item_key i)) (new_item i f t d (relay_text r)) (acc w)"
  | (both) e w' index where "queue_Add i f t d r w = (Ret e, w')" and "queue_index w = Some index"
      and "acc w' = fmupd (UserData acQueueKey) (fmupd i (item_key i) index)
              (fmupd (UserData (item_key i)) (new_item i f t d (relay_text r)) (acc w))"
proof (cases "\<exists>rs. r = None # rs")
  case True
  then show ?thesis using panic queue_Add_nil by blast
next
  case False
  obtain index where index: "queue_index w = Some index" using assms by (auto simp: queue_wf_def)
  have r: "\<forall>u rs. r = u # rs \<longrightarrow> u \<noteq> None" using False by auto
  show ?thesis
    using run_queue_Add [OF index r, of i f t d] item both [OF _ index]
    by (cases "hs_fault w (hs_calls w)") auto
qed

lemma run_queue_Remove:
  assumes "queue_index w = Some index" and "key = (if goget index i = [] then item_key i else goget index i)"
  shows "\<exists>e w'. queue_Remove i w = (Ret e, w') \<and>
    (acc w' = fmupd (UserData acQueueKey) (fmdrop i index) (acc w) \<or>
     acc w' = fmupd (UserData key) fmempty (fmupd (UserData acQueueKey) (fmdrop i index) (acc w)))"
  using assms by (auto simp: queue_Remove_def run_simps Let_def)

lemma acc_queue_Remove:
  assumes "queue_wf w"
  obtains e w' index where "queue_Remove i w = (Ret e, w')" and "queue_index w = Some index"
    and "acc w' = fmupd (UserData acQueueKey) (fmdrop i index) (acc w) \<or>
         acc w' = fmupd (UserData (item_key i)) fmempty (fmupd (UserData acQueueKey) (fmdrop i index) (acc w))"
proof -
  obtain index where index: "queue_index w = Some index"
    and "\<forall>k. fmlookup index i = Some k \<longrightarrow> k = item_key i"
    using assms by (auto simp: queue_wf_def)
  then have "item_key i = (if goget index i = [] then item_key i else goget index i)"
    by (auto simp: goget_def split: option.splits)
  from run_queue_Remove [OF index this] show ?thesis using that index by blast
qed

interpretation postqueue: mail_queue queue_Add queue_Remove
  "\<lambda>i f t d r. new_item i f t d (relay_text r)" pending queue_wf
proof unfold_locales
  fix w :: "'a queue_state_scheme" and i f t d r
  assume w: "queue_wf w"
  show "queue_wf (snd (queue_Add i f t d r w))"
    using w by (rule acc_queue_Add [of w i f t d r]) (use w in \<open>auto simp: queue_wf_def\<close>)
next
  fix w w' :: "'a queue_state_scheme" and i f t d r
  assume w: "queue_wf w" and run: "queue_Add i f t d r w = (Ret None, w')"
  show "pending w' i = Some (new_item i f t d (relay_text r))"
    using w by (rule acc_queue_Add [of w i f t d r]) (use run in \<open>auto simp: pending_def\<close>)
next
  fix w :: "'a queue_state_scheme" and i f t d r and j :: string
  assume w: "queue_wf w" and j: "j \<noteq> i"
  show "pending (snd (queue_Add i f t d r w)) j = pending w j"
    using w by (rule acc_queue_Add [of w i f t d r]) (use w j in \<open>auto simp: pending_def split: option.split\<close>)
next
  fix w :: "'a queue_state_scheme" and i
  assume w: "queue_wf w"
  show "queue_wf (snd (queue_Remove i w))"
    using w by (rule acc_queue_Remove [of w i]) (use w in \<open>auto simp: queue_wf_def\<close>)
next
  fix w :: "'a queue_state_scheme" and i
  assume w: "queue_wf w"
  show "pending (snd (queue_Remove i w)) i = None"
    using w by (rule acc_queue_Remove [of w i]) (use w in \<open>auto simp: pending_def\<close>)
next
  fix w :: "'a queue_state_scheme" and i and j :: string
  assume w: "queue_wf w" and j: "j \<noteq> i"
  show "pending (snd (queue_Remove i w)) j = pending w j"
    using w by (rule acc_queue_Remove [of w i]) (use w j in \<open>auto simp: pending_def\<close>)
qed


subsection \<open>A run keeps the queue well-formed\<close>

lemma queue_wf_upd:
  "queue_wf w \<Longrightarrow> acc w' = fmupd (UserData k) m (acc w) \<Longrightarrow> k \<noteq> acQueueKey \<Longrightarrow> queue_wf w'"
  by (auto simp: queue_wf_def)

lemma queue_wf_same: "queue_wf w \<Longrightarrow> acc w' = acc w \<Longrightarrow> queue_wf w'"
  by (simp add: queue_wf_def)

lemma wf_GetAccountData: "preserves queue_wf (GetAccountData (UserData k))"
proof (rule preservesI)
  fix w :: "'a queue_state_scheme"
  assume w: "queue_wf w"
  show "queue_wf (snd (GetAccountData (UserData k) w))"
  proof (cases "queue_item w k")
    case None
    then have k: "k \<noteq> acQueueKey" using w by (auto simp: queue_wf_def)
    show ?thesis
      using None by (auto simp: GetAccountData_def cache_put_def api_call_def bindM_def thenM_def readM_def
        modifyM_def returnM_def split: option.split
        intro: queue_wf_same [OF w] queue_wf_upd [OF w _ k])
  qed (use w in \<open>simp add: run_simps\<close>)
qed

lemma wf_SetAccountData: "k \<noteq> acQueueKey \<Longrightarrow> preserves queue_wf (SetAccountData (UserData k) m)"
  by (rule preservesI) (auto simp: run_simps intro: queue_wf_upd)

lemma wf_alias_write: "k \<noteq> acQueueKey \<Longrightarrow> preserves queue_wf (alias_write (UserData k) m)"
  by (rule preservesI) (auto simp: alias_write_def run_simps intro: queue_wf_upd)

lemma wf_sendmail: "preserves queue_wf (sendmail f t d r)"
  by (rule preservesI) (auto simp: sendmail_def Let_def split: option.split intro: queue_wf_same)

lemma wf_SetOption: "preserves queue_wf (SetOption (UserData acBotKey) cfg key v)"
  unfolding SetOption_def by (intro preserves_rules wf_alias_write acQueueKey_not_bot)

lemma wf_GetBot: "preserves queue_wf GetBot"
  unfolding GetBot_def by (intro preserves_rules wf_GetAccountData wf_SetOption)

lemma wf_try: "k \<noteq> acQueueKey \<Longrightarrow> preserves queue_wf (queue_try X k m)"
  unfolding queue_try_def
  by (intro preserves_rules wf_GetAccountData wf_SetAccountData wf_alias_write wf_sendmail)

lemma wf_Remove: "preserves queue_wf (queue_Remove i)"
  by (rule preservesI) (rule postqueue.remove_wf)

lemma wf_loop:
  "\<forall>i \<in> set ids. goget index i \<noteq> acQueueKey \<Longrightarrow> preserves queue_wf (process_loop X b m index n ids)"
  by (induction ids arbitrary: n)
    (auto intro!: preserves_rules wf_try wf_Remove)

lemma queue_Process_wf:
  fixes w :: "'a queue_state_scheme"
  assumes "queue_wf w"
  shows "queue_wf (snd (queue_Process X order w))"
proof (cases "GetBot w")
  case (Pair r w1)
  have w1: "queue_wf w1" using preservesD [OF wf_GetBot, of w] assms Pair by simp
  then obtain index where index: "queue_index w1 = Some index"
    and keys: "\<And>i k. fmlookup index i = Some k \<Longrightarrow> k = item_key i"
    by (auto simp: queue_wf_def)
  show ?thesis
  proof (cases r)
    case (Ret cfg)
    let ?ids = "order (sorted_list_of_fset (fmdom index))"
    have "\<forall>i \<in> set ?ids. goget index i \<noteq> acQueueKey"
      by (auto simp: goget_def split: option.split dest: keys)
    from preservesD [OF wf_loop [OF this] w1] show ?thesis
      using Pair Ret index
      by (subst queue_Process_run [of w cfg w1 index None w1]) (auto simp: run_simps)
  next
    case (Panic p)
    then show ?thesis using Pair w1 by (simp add: queue_Process_def snd_bindM)
  qed
qed

section \<open>Properties\<close>

text \<open>A state for the witnesses: a configured bot, and the queue the arguments give.\<close>

definition queue_demo ::
  "gomap \<Rightarrow> gomap \<Rightarrow> (string \<times> gomap) list \<Rightarrow> (nat \<Rightarrow> string option) \<Rightarrow> queue_state" where
  "queue_demo cfg index items fault =
     \<lparr>acc = fmap_of_list ((UserData acBotKey, fmupd BotDKIMPrivateKey ''pem'' cfg) #
              (UserData acQueueKey, index) # map (\<lambda>(i, item). (UserData (item_key i), item)) items),
      hs_data = fmempty, hs_calls = 0, hs_fault = (\<lambda>_. None), hs_evid = (\<lambda>_. ''$event''),
      hs_events = fmempty, hs_sent = [], lp_user = ''@bot:example.com'', time_now = 0,
      dkimPrivKey = [], dkimSignature = [],
      mail_calls = 0, mail_fault = fault, mail_sent = []\<rparr>"

lemma queue_demo_acc [simp]:
  "bot_cfg (queue_demo cfg index items fault) = Some (fmupd BotDKIMPrivateKey ''pem'' cfg)"
  "queue_index (queue_demo cfg index items fault) = Some index"
  "queue_item (queue_demo cfg index items fault) (item_key i) = map_of items i"
  by (simp_all add: queue_demo_def fmlookup_of_list)
    (induction items; auto simp: item_key_def)

lemma queue_demo_fields [simp]:
  "hs_fault (queue_demo cfg index items fault) n = None"
  "mail_fault (queue_demo cfg index items fault) = fault"
  "mail_calls (queue_demo cfg index items fault) = 0"
  "mail_sent (queue_demo cfg index items fault) = []"
  by (simp_all add: queue_demo_def)

lemma DKIM_set [simp]: "DKIMPrivateKey (fmupd BotDKIMPrivateKey ''pem'' cfg) = ''pem''"
  by (simp add: DKIMPrivateKey_def Bot_Get_def)

lemma queue_options_empty [simp]:
  "batch_of (fmupd BotDKIMPrivateKey ''pem'' fmempty) = 10"
  "retries_of (fmupd BotDKIMPrivateKey ''pem'' fmempty) = 100"
  by (simp_all add: batch_of_def retries_of_def QueueBatch_def QueueRetries_def Bot_Get_def
      defaultQueueBatch_def defaultQueueRetries_def)

text \<open>
  C22: one run of the queue asks for at most batch size + 1 deliveries, whatever the order of
  the index and whatever fails (the loop stops only once its counter exceeds the batch size,
  so it takes one email more than the option \<open>queue:batch\<close> says).
\<close>

theorem Process_bounded:
  assumes "GetBot w = (Ret cfg, w1)"
  shows "mail_calls (snd (queue_Process X order w)) \<le> mail_calls w + nat (batch_of cfg + 1)"
  using assms by (rule mail_calls_Process)

theorem Process_bounded_witness:
  "GetBot (queue_demo fmempty fmempty [] (\<lambda>_. None)) =
     (Ret (fmupd BotDKIMPrivateKey ''pem'' fmempty), queue_demo fmempty fmempty [] (\<lambda>_. None)) \<and>
   mail_calls (snd (queue_Process demo_ext id (queue_demo fmempty fmempty [] (\<lambda>_. None)))) \<le> 11"
proof -
  have run: "GetBot (queue_demo fmempty fmempty [] (\<lambda>_. None)) =
    (Ret (fmupd BotDKIMPrivateKey ''pem'' fmempty), queue_demo fmempty fmempty [] (\<lambda>_. None))"
    by (simp add: run_simps)
  from Process_bounded [OF run, of demo_ext id] run show ?thesis by simp
qed

text \<open>
  When the queue holds at most batch size + 1 emails, each of them still due, and nothing
  fails, one run returns, delivers every email exactly once, in the order it takes the index,
  and leaves the index empty.
\<close>

theorem Process_drains:
  assumes cfg: "bot_cfg w = Some cfg" "DKIMPrivateKey cfg \<noteq> []"
    and index: "queue_index w = Some index"
    and order: "mset (order (sorted_list_of_fset (fmdom index))) = mset (sorted_list_of_fset (fmdom index))"
    and size: "int (fcard (fmdom index)) \<le> batch_of cfg + 1"
    and due: "\<forall>i \<in> fset (fmdom index). fmlookup index i = Some (item_key i) \<and>
        (\<exists>item. queue_item w (item_key i) = Some item \<and> item_due (retries_of cfg) item)"
    and faults: "\<forall>n. hs_fault w n = None" "\<forall>n. mail_fault w n = None"
  shows "\<exists>w'. queue_Process X order w = (Ret (), w') \<and> queue_index w' = Some fmempty \<and>
    mail_sent w' = mail_sent w @
      map (\<lambda>i. item_mail X (the (queue_item w (item_key i)))) (order (sorted_list_of_fset (fmdom index)))"
proof -
  let ?ids = "order (sorted_list_of_fset (fmdom index))"
  have ids: "set ?ids = fset (fmdom index)" "distinct ?ids"
    using mset_eq_setD [OF order] mset_eq_imp_distinct_iff [OF order]
    by (simp_all add: sorted_list_of_fset.rep_eq)
  have "length ?ids = fcard (fmdom index)"
    using distinct_card [OF ids(2)] ids(1) by (simp add: fcard.rep_eq)
  then have "int (length ?ids) \<le> batch_of cfg - 0 + 1" using size by simp
  moreover have "drain_inv (retries_of cfg) index ?ids w"
    using due faults ids index by (auto simp: drain_inv_def)
  ultimately have "\<exists>w'. process_loop X (batch_of cfg) (retries_of cfg) index 0 ?ids w = (Ret (), w') \<and>
      queue_index w' = Some fmempty \<and>
      mail_sent w' = mail_sent w @ map (\<lambda>i. item_mail X (the (queue_item w (item_key i)))) ?ids"
    by (intro drain_loop)
  moreover have "queue_Process X order w = process_loop X (batch_of cfg) (retries_of cfg) index 0 ?ids w"
    using cfg index by (intro queue_Process_run) (auto simp: run_simps)
  ultimately show ?thesis by simp
qed

theorem Process_drains_witness:
  "\<exists>w'. queue_Process demo_ext id (queue_demo fmempty (fmupd ''a'' (item_key ''a'') fmempty)
           [(''a'', new_item ''a'' ''f@x'' ''t@y'' ''hello'' [])] (\<lambda>_. None)) = (Ret (), w') \<and>
     queue_index w' = Some fmempty \<and> mail_sent w' = [(''f@x'', ''t@y'', ''hello'', None)]"
  using Process_drains [where w = "queue_demo fmempty (fmupd ''a'' (item_key ''a'') fmempty)
      [(''a'', new_item ''a'' ''f@x'' ''t@y'' ''hello'' [])] (\<lambda>_. None)" and order = id and X = demo_ext
      and cfg = "fmupd BotDKIMPrivateKey ''pem'' fmempty" and index = "fmupd ''a'' (item_key ''a'') fmempty"]
  by (simp add: item_due_def item_mail_def fcard.rep_eq)

text \<open>
  An email alone in the queue whose delivery always fails is tried once per run, max retries
  + 1 times in all (the loop gives up only once the attempts exceed the maximum); the run after
  that makes no attempt, drops the email and empties its item.
\<close>

theorem Process_gives_up:
  assumes "lone cfg i 0 w" and "order [i] = [i]" and "0 \<le> batch_of cfg" and "0 \<le> retries_of cfg"
    and "retries_of cfg < 2 ^ 63 - 1"
  shows "(\<forall>n. int n \<le> retries_of cfg + 1 \<longrightarrow>
            mail_calls (rounds X order n w) = mail_calls w + n \<and> pending (rounds X order n w) i \<noteq> None) \<and>
         mail_calls (rounds X order (nat (retries_of cfg + 2)) w) = mail_calls w + nat (retries_of cfg + 1) \<and>
         queue_index (rounds X order (nat (retries_of cfg + 2)) w) = Some fmempty \<and>
         queue_item (rounds X order (nat (retries_of cfg + 2)) w) (item_key i) = Some fmempty"
proof -
  let ?k = "nat (retries_of cfg + 1)"
  note steps = lone_rounds [where X = X and order = order, OF assms(1-3) assms(5)]
  have k: "int ?k = retries_of cfg + 1" "nat (retries_of cfg + 2) = Suc ?k" using assms(4) by simp_all
  have "pending (rounds X order n w) i \<noteq> None" if "int n \<le> retries_of cfg + 1" for n
    using steps [OF that] by (auto simp: pending_def lone_def)
  moreover have last: "lone cfg i ?k (rounds X order ?k w)" using steps [of ?k] k by simp
  ultimately show ?thesis
    using steps lone_drop [where X = X and order = order, OF last assms(2,3)] steps [of ?k] k by simp
qed

theorem Process_gives_up_witness:
  "mail_calls (rounds demo_ext id 102 (queue_demo fmempty (fmupd ''a'' (item_key ''a'') fmempty)
     [(''a'', new_item ''a'' ''f@x'' ''t@y'' ''hello'' [])] (\<lambda>_. Some ''451''))) = 101"
proof -
  let ?w = "queue_demo fmempty (fmupd ''a'' (item_key ''a'') fmempty)
     [(''a'', new_item ''a'' ''f@x'' ''t@y'' ''hello'' [])] (\<lambda>_. Some ''451'')"
  have "lone (fmupd BotDKIMPrivateKey ''pem'' fmempty) ''a'' 0 ?w"
    by (simp add: lone_def)
  from Process_gives_up [OF this, of id demo_ext] show ?thesis by simp
qed

text \<open>
  A run of the queue keeps the queue well-formed, every index entry naming its own item
  and that item present, even when calls to the homeserver or deliveries fail.
\<close>

theorem Process_keeps_wf:
  assumes "queue_wf w"
  shows "queue_wf (snd (queue_Process X order w))"
  using assms by (rule queue_Process_wf)

theorem Process_keeps_wf_witness:
  "queue_wf (queue_demo fmempty fmempty [] (\<lambda>_. None)) \<and>
   queue_wf (snd (queue_Process demo_ext id (queue_demo fmempty fmempty [] (\<lambda>_. None))))"
proof -
  have "queue_wf (queue_demo fmempty fmempty [] (\<lambda>_. None))" by (simp add: queue_wf_def)
  with Process_keeps_wf [OF this, of demo_ext id] show ?thesis by simp
qed

text \<open>
  C23: adding an email and removing it leaves exactly the emails that were pending before,
  whatever calls to the homeserver fail on the way.
\<close>

theorem Add_Remove_pending:
  assumes "queue_wf w" and "pending w i = None"
  shows "pending (snd (queue_Remove i (snd (queue_Add i f t d r w)))) = pending w"
  using assms by (rule postqueue.add_remove)

theorem Add_Remove_pending_witness:
  "pending (snd (queue_Remove ''b'' (snd (queue_Add ''b'' ''f@x'' ''t@y'' ''hi'' []
     (queue_demo fmempty (fmupd ''a'' (item_key ''a'') fmempty) [(''a'', fmempty)] (\<lambda>_. None)))))) ''a'' = Some fmempty"
proof -
  let ?w = "queue_demo fmempty (fmupd ''a'' (item_key ''a'') fmempty) [(''a'', fmempty)] (\<lambda>_. None)"
  have "queue_wf ?w" "pending ?w ''b'' = None" "pending ?w ''a'' = Some fmempty"
    by (simp_all add: queue_wf_def pending_def)
  with Add_Remove_pending [OF this(1,2)] show ?thesis by (simp only:)
qed

text \<open>
  The queue identifies an email by the identifier alone: two successful additions under one
  identifier leave the second email pending and lose the first, and touch no other email.
\<close>

theorem Add_same_id_overwrites:
  assumes "queue_wf w"
    and "queue_Add i f t d r w = (Ret None, w1)" and "queue_Add i f' t' d' r' w1 = (Ret None, w2)"
  shows "pending w2 i = Some (new_item i f' t' d' (relay_text r')) \<and> (\<forall>j. j \<noteq> i \<longrightarrow> pending w2 j = pending w j)"
  using assms by (rule postqueue.add_twice_same)

theorem Add_same_id_overwrites_witness:
  "\<exists>w1 w2. queue_Add ''a'' ''f@x'' ''t@y'' ''hi'' [] (queue_demo fmempty fmempty [] (\<lambda>_. None)) = (Ret None, w1) \<and>
     queue_Add ''a'' ''f@x'' ''t@z'' ''hi'' [] w1 = (Ret None, w2) \<and>
     pending w2 ''a'' = Some (new_item ''a'' ''f@x'' ''t@z'' ''hi'' [])"
proof -
  let ?w = "queue_demo fmempty fmempty [] (\<lambda>_. None)"
  have wf: "queue_wf ?w" by (simp add: queue_wf_def)
  define w1 where "w1 = snd (queue_Add ''a'' ''f@x'' ''t@y'' ''hi'' [] ?w)"
  define w2 where "w2 = snd (queue_Add ''a'' ''f@x'' ''t@z'' ''hi'' [] w1)"
  have a: "queue_Add ''a'' ''f@x'' ''t@y'' ''hi'' [] ?w = (Ret None, w1)"
    by (simp add: w1_def queue_Add_def run_simps Let_def)
  have b: "queue_Add ''a'' ''f@x'' ''t@z'' ''hi'' [] w1 = (Ret None, w2)"
    by (simp add: w2_def w1_def queue_Add_def run_simps Let_def)
  show ?thesis using Add_same_id_overwrites [OF wf a b] a b by (auto simp: relay_text_def)
qed

text \<open>
  Adding an email with a relay argument that is a nil pointer panics before anything is
  stored; with no relay argument, or with one that is set, it does not panic.
\<close>

theorem Add_nil_relay_panics:
  assumes "queue_wf w"
  shows "(\<exists>p. fst (queue_Add i f t d r w) = Panic p) \<longleftrightarrow> (\<exists>rs. r = None # rs)"
proof -
  obtain index where index: "queue_index w = Some index" using assms by (auto simp: queue_wf_def)
  have "fst (queue_Add i f t d r w) \<noteq> Panic p" if "\<nexists>rs. r = None # rs" for p
  proof -
    have "\<forall>u rs. r = u # rs \<longrightarrow> u \<noteq> None" using that by auto
    from run_queue_Add [OF index this, of i f t d] show ?thesis by auto
  qed
  then show ?thesis by (auto simp: queue_Add_nil)
qed

theorem Add_nil_relay_panics_witness:
  "\<exists>p. fst (queue_Add ''a'' ''f@x'' ''t@y'' ''hi'' [None] (queue_demo fmempty fmempty [] (\<lambda>_. None))) = Panic p"
  using Add_nil_relay_panics [of "queue_demo fmempty fmempty [] (\<lambda>_. None)" "''a''" "''f@x''" "''t@y''" "''hi''" "[None]"]
  by (simp add: queue_wf_def)

end
