(* ===== verification/Mxidwc.thy ===== *)
theory Mxidwc
  imports GoStrings
begin

text \<open>
  The vendored package go-mxidwc: wildcard patterns for Matrix user identifiers. A parsed
  pattern is the regular expression \<open>^@local:domain$\<close> in which an asterisk stands for any
  run of characters other than colon and at-sign, and every other character for itself; here
  it is kept as the pattern's text, and \<open>glob\<close> is the match of that expression.
\<close>

type_synonym mxpattern = string

definition wild_char :: "char \<Rightarrow> bool" where
  "wild_char c \<longleftrightarrow> c \<noteq> CHR '':'' \<and> c \<noteq> CHR ''@''"

function glob :: "mxpattern \<Rightarrow> string \<Rightarrow> bool" where
  "glob [] s = (s = [])"
| "glob (p # ps) [] = (p = CHR ''*'' \<and> glob ps [])"
| "glob (p # ps) (c # cs) =
     (if p = CHR ''*'' then glob ps (c # cs) \<or> (wild_char c \<and> glob (p # ps) cs)
      else c = p \<and> glob ps cs)"
  by pat_completeness auto
termination
  by (relation "measure (\<lambda>(p, s). length p + length s)") auto

text \<open>An error is its message.\<close>

definition ParsePattern :: "string \<Rightarrow> string + mxpattern" where
  "ParsePattern pattern =
     (if \<not> HasPrefix pattern ''@'' then Inl ''patterns need to be fully-qualified, starting with a @''
      else let p = drop 1 pattern in
        if Contains p ''@'' then Inl ''patterns cannot contain more than one @''
        else case Split (CHR '':'') p of
          [localpart, host] \<Rightarrow>
            if localpart = [] then Inl ''failed to convert localpart `` to regex: rejecting empty part''
            else if host = [] then Inl ''failed to convert domain `` to regex: rejecting empty part''
            else Inr pattern
        | _ \<Rightarrow> Inl ''expected exactly 2 parts in the pattern, separated by `:`'')"

fun ParsePatterns :: "string list \<Rightarrow> string + mxpattern list" where
  "ParsePatterns [] = Inr []"
| "ParsePatterns (p # ps) =
     (case ParsePattern p of
        Inl e \<Rightarrow> Inl (''failed to parse pattern `'' @ p @ ''`: '' @ e)
      | Inr regex \<Rightarrow> (case ParsePatterns ps of Inl e \<Rightarrow> Inl e | Inr rs \<Rightarrow> Inr (regex # rs)))"

definition Match :: "string \<Rightarrow> mxpattern list \<Rightarrow> bool" where
  "Match userID allowed = (\<exists>regex \<in> set allowed. glob regex userID)"

section \<open>Lemmas\<close>

lemma glob_literal: "CHR ''*'' \<notin> set p \<Longrightarrow> glob p s \<longleftrightarrow> s = p"
  by (induction p s rule: glob.induct) auto

lemma glob_literal_append:
  "CHR ''*'' \<notin> set p \<Longrightarrow> glob (p @ q) s \<longleftrightarrow> (\<exists>t. s = p @ t \<and> glob q t)"
  by (induction p arbitrary: s) (case_tac s; auto)+

lemma glob_star: "glob (CHR ''*'' # q) s \<longleftrightarrow> (\<exists>u t. s = u @ t \<and> (\<forall>c \<in> set u. wild_char c) \<and> glob q t)"
proof (induction s)
  case (Cons c s)
  show ?case
  proof
    assume "glob (CHR ''*'' # q) (c # s)"
    then consider "glob q (c # s)" | "wild_char c" "glob (CHR ''*'' # q) s" by auto
    then show "\<exists>u t. c # s = u @ t \<and> (\<forall>c \<in> set u. wild_char c) \<and> glob q t"
    proof cases
      case 1
      then have "c # s = [] @ (c # s) \<and> (\<forall>c \<in> set []. wild_char c) \<and> glob q (c # s)" by simp
      then show ?thesis by blast
    next
      case 2
      then obtain u t where "s = u @ t" "\<forall>c \<in> set u. wild_char c" "glob q t" using Cons.IH by blast
      with 2 have "c # s = (c # u) @ t \<and> (\<forall>c \<in> set (c # u). wild_char c) \<and> glob q t" by simp
      then show ?thesis by blast
    qed
  next
    assume "\<exists>u t. c # s = u @ t \<and> (\<forall>c \<in> set u. wild_char c) \<and> glob q t"
    then obtain u t where ut: "c # s = u @ t" "\<forall>c \<in> set u. wild_char c" "glob q t" by blast
    show "glob (CHR ''*'' # q) (c # s)"
    proof (cases u)
      case (Cons d v)
      then have "glob (CHR ''*'' # q) s" using ut Cons.IH by auto
      with Cons ut show ?thesis by simp
    qed (use ut in \<open>cases t; auto\<close>)
  qed
qed auto

text \<open>
  The pattern for all users of a server matches a user identifier whose local part has
  neither colon nor at-sign, and nothing else.
\<close>

lemma glob_server:
  assumes "CHR ''*'' \<notin> set server"
  shows "glob (''@*:'' @ server) u \<longleftrightarrow>
    (\<exists>l. u = ''@'' @ l @ '':'' @ server \<and> (\<forall>c \<in> set l. wild_char c))"
proof -
  have "glob (CHR '':'' # server) t \<longleftrightarrow> t = CHR '':'' # server" for t
    using assms glob_literal [of "CHR '':'' # server"] by simp
  then have "glob (''@*:'' @ server) u \<longleftrightarrow>
      (\<exists>t. u = CHR ''@'' # t \<and> (\<exists>l. t = l @ CHR '':'' # server \<and> (\<forall>c \<in> set l. wild_char c)))"
    using glob_literal_append [of "''@''" "''*:'' @ server" u] by (auto simp: glob_star)
  then show ?thesis by auto
qed

lemma ParsePattern_same: "ParsePattern p = Inr r \<Longrightarrow> r = p"
  by (auto simp: ParsePattern_def Let_def split: if_splits list.splits)

lemma ParsePatterns_all:
  "ParsePatterns ps = Inr rs \<Longrightarrow> rs = ps \<and> (\<forall>p \<in> set ps. ParsePattern p = Inr p)"
  by (induction ps arbitrary: rs) (auto split: sum.splits dest: ParsePattern_same)

end
