(* ===== verification/Bot.thy ===== *)
theory Bot
  imports Queue Mxidwc
begin

text \<open>
  The Matrix bot (internal/bot): its state and error reporting (bot.go), the context a handler
  runs in (context.go), access control, ban- and greylisting and SMTP authentication
  (access.go), the activation of mailboxes (activation.go) and the mailboxes themselves
  (data.go and the mapping of email.go).

  \<open>domains\<close> is both the field of the bot and the package variable of utils, which main.go
  sets to the same list. \<open>rooms\<close> maps a mailbox or alias to its room. The homeserver's list
  of joined rooms is \<open>hs_joined\<close>, the members of a room are \<open>hs_members\<close>, and
  \<open>hs_encrypted\<close> holds the encrypted rooms; times are milliseconds (\<open>time_now\<close>), and a time stamp in a
  header or list is seconds.
\<close>

section \<open>bot.go, context.go\<close>

record mbxconfig =
  Reserved :: "string list"
  Forwarded :: "string list"
  Activation :: string

record bot_state = queue_state +
  prefix :: string
  mbxc :: mbxconfig
  domains :: "string list"
  allowedUsers :: "mxpattern list"
  allowedAdmins :: "mxpattern list"
  adminRooms :: "string list"
  ignoreBefore :: int
  rooms :: "(string, string) fmap"
  proxies :: "string list"
  handledMembership :: "string fset"
  hs_joined :: "string list"
  hs_members :: "(string, string list) fmap"
  hs_encrypted :: "string fset"

record ctx =
  ctxEvent :: "mxevent option"
  ctxThreadID :: string

definition background :: ctx where
  "background = \<lparr>ctxEvent = None, ctxThreadID = []\<rparr>"

abbreviation eventFromContext :: "ctx \<Rightarrow> mxevent option" where
  "eventFromContext c \<equiv> ctxEvent c"

abbreviation threadIDFromContext :: "ctx \<Rightarrow> string" where
  "threadIDFromContext c \<equiv> ctxThreadID c"

abbreviation eventToContext :: "ctx \<Rightarrow> mxevent \<Rightarrow> ctx" where
  "eventToContext c evt \<equiv> c\<lparr>ctxEvent := Some evt\<rparr>"

definition newContext :: "ctx \<Rightarrow> mxevent \<Rightarrow> ctx" where
  "newContext c evt = eventToContext c evt"

definition threadIDToContext :: "ctx \<Rightarrow> string \<Rightarrow> ctx" where
  "threadIDToContext c threadID = c\<lparr>ctxThreadID := threadID\<rparr>"

definition now_sec :: "'a lp_state_scheme \<Rightarrow> int" where
  "now_sec w = time_now w div 1000"

text \<open>
  \<open>Error\<close> reads the event before it checks that there is one: without event and thread it
  panics.
\<close>

definition Bot_Error :: "externals \<Rightarrow> ctx \<Rightarrow> string \<Rightarrow> ('a bot_state_scheme, unit) action" where
  "Bot_Error X c message =
     bindM (if threadIDFromContext c = [] then
              (case eventFromContext c of
                 None \<Rightarrow> panicM ''nil pointer dereference''
               | Some evt \<Rightarrow> returnM (EventParent (e_id evt) (e_content evt)))
            else returnM (threadIDFromContext c)) (\<lambda>threadID.
     case eventFromContext c of
       None \<Rightarrow> skipM
     | Some evt \<Rightarrow>
         bindM (GetRoom (e_room evt)) (\<lambda>(cfg, cerr).
         (let noThreads = (cerr = None \<and> Room_NoThreads cfg);
              relatesTo = (if threadID \<noteq> [] then RelatesTo threadID noThreads else None) in
          SendNotice X (e_room evt) (''ERROR: '' @ message) (Some relatesTo))))"

section \<open>access.go\<close>

definition parseMXIDpatterns :: "string list \<Rightarrow> string \<Rightarrow> string + mxpattern list" where
  "parseMXIDpatterns patterns defaultPattern =
     ParsePatterns (if patterns = [] \<and> defaultPattern \<noteq> [] then [defaultPattern] else patterns)"

definition allowAdmin :: "string \<Rightarrow> string \<Rightarrow> ('a bot_state_scheme, bool) action" where
  "allowAdmin actorID targetRoomID = readM (\<lambda>w. Match actorID (allowedAdmins w))"

definition allowUsers :: "string \<Rightarrow> string \<Rightarrow> ('a bot_state_scheme, bool) action" where
  "allowUsers actorID targetRoomID =
     bindM (readM (\<lambda>w. Match actorID (allowedUsers w))) (\<lambda>user.
     if user then returnM True
     else
       bindM (allowAdmin actorID targetRoomID) (\<lambda>admin.
       if admin then returnM True
       else
         bindM (GetRoom targetRoomID) (\<lambda>(cfg, err).
         returnM (err = None \<and> Room_Owner cfg = actorID))))"

definition allowAnyone :: "string \<Rightarrow> string \<Rightarrow> ('a bot_state_scheme, bool) action" where
  "allowAnyone actorID targetRoomID = returnM True"

definition allowOwner :: "externals \<Rightarrow> string \<Rightarrow> string \<Rightarrow> ('a bot_state_scheme, bool) action" where
  "allowOwner X actorID targetRoomID =
     bindM (allowUsers actorID targetRoomID) (\<lambda>ok.
     if \<not> ok then returnM False
     else
       bindM (GetRoom targetRoomID) (\<lambda>(cfg, err).
       case err of
         Some e \<Rightarrow>
           thenM (Bot_Error X background (''failed to retrieve settings: '' @ e)) (returnM False)
       | None \<Rightarrow>
           (let owner = Room_Owner cfg in
            if owner = [] then returnM True
            else if owner = actorID then returnM True
            else allowAdmin actorID targetRoomID)))"

definition allowSend :: "externals \<Rightarrow> string \<Rightarrow> string \<Rightarrow> ('a bot_state_scheme, bool) action" where
  "allowSend X actorID targetRoomID =
     bindM (allowUsers actorID targetRoomID) (\<lambda>ok.
     if \<not> ok then returnM False
     else
       bindM (GetRoom targetRoomID) (\<lambda>(cfg, err).
       case err of
         Some e \<Rightarrow>
           thenM (Bot_Error X background (''failed to retrieve settings: '' @ e)) (returnM False)
       | None \<Rightarrow> returnM (\<not> Room_NoSend cfg)))"

definition allowReply :: "externals \<Rightarrow> ctx \<Rightarrow> string \<Rightarrow> string \<Rightarrow> ('a bot_state_scheme, bool) action" where
  "allowReply X c actorID targetRoomID =
     bindM (allowUsers actorID targetRoomID) (\<lambda>ok.
     if \<not> ok then returnM False
     else
       bindM (GetRoom targetRoomID) (\<lambda>(cfg, err).
       case err of
         Some e \<Rightarrow>
           thenM (Bot_Error X c (''failed to retrieve settings: '' @ e)) (returnM False)
       | None \<Rightarrow> returnM (\<not> Room_NoReplies cfg)))"

definition isReserved :: "string \<Rightarrow> ('a bot_state_scheme, bool) action" where
  "isReserved mailbox = readM (\<lambda>w. mailbox \<in> set (Reserved (mbxc w)))"

text \<open>A minute is \<open>6 * 10 ^ 10\<close> nanoseconds, and the product is one of 64-bit integers.\<close>

definition greylist_until :: "int \<Rightarrow> int \<Rightarrow> int" where
  "greylist_until greylistedAt minutes = greylistedAt * 10 ^ 9 + wrap64 (minutes * (6 * 10 ^ 10))"

definition IsGreylisted :: "externals \<Rightarrow> netaddr \<Rightarrow> ('a bot_state_scheme, bool) action" where
  "IsGreylisted X addr =
     bindM GetBot (\<lambda>bot.
     if Greylist bot = 0 then returnM False
     else
       bindM GetGreylist (\<lambda>greylist.
       case List_Get X greylist addr of
         None \<Rightarrow>
           bindM (readM now_sec) (\<lambda>now.
           (let greylist = List_Add X now greylist addr in
            thenM (alias_write (UserData acGreylistKey) greylist)
            (bindM (SetGreylist greylist) (\<lambda>_. returnM True))))
       | Some greylistedAt \<Rightarrow>
           bindM GetBot (\<lambda>bot.
           readM (\<lambda>w. greylist_until greylistedAt (Greylist bot) > time_now w * 10 ^ 6))))"

definition IsBanned :: "netaddr \<Rightarrow> ('a bot_state_scheme, bool) action" where
  "IsBanned addr = bindM GetBanlist (\<lambda>banlist. returnM (List_Has banlist addr))"

definition IsTrusted :: "netaddr \<Rightarrow> ('a bot_state_scheme, bool) action" where
  "IsTrusted addr = readM (\<lambda>w. AddrIP addr \<in> set (proxies w))"

text \<open>The end that the three ways to ban an address share.\<close>

definition ban_now :: "externals \<Rightarrow> netaddr \<Rightarrow> ('a bot_state_scheme, unit) action" where
  "ban_now X addr =
     bindM (IsTrusted addr) (\<lambda>trusted.
     if trusted then skipM
     else
       bindM GetBanlist (\<lambda>banlist.
       bindM (readM now_sec) (\<lambda>now.
       (let banlist = List_Add X now banlist addr in
        thenM (alias_write (UserData acBanlistKey) banlist)
        (bindM (SetBanlist banlist) (\<lambda>_. skipM))))))"

definition BanAuto :: "externals \<Rightarrow> netaddr \<Rightarrow> ('a bot_state_scheme, unit) action" where
  "BanAuto X addr =
     bindM GetBot (\<lambda>bot.
     if \<not> BanlistEnabled bot then skipM
     else
       bindM GetBot (\<lambda>bot.
       if \<not> BanlistAuto bot then skipM else ban_now X addr))"

definition BanAuth :: "externals \<Rightarrow> netaddr \<Rightarrow> ('a bot_state_scheme, unit) action" where
  "BanAuth X addr =
     bindM GetBot (\<lambda>bot.
     if \<not> BanlistEnabled bot then skipM
     else
       bindM GetBot (\<lambda>bot.
       if \<not> BanlistAuth bot then skipM else ban_now X addr))"

definition BanManually :: "externals \<Rightarrow> netaddr \<Rightarrow> ('a bot_state_scheme, unit) action" where
  "BanManually X addr =
     bindM GetBot (\<lambda>bot. if \<not> BanlistEnabled bot then skipM else ban_now X addr)"

section \<open>The mapping of mailboxes (email.go)\<close>

definition getMapping :: "string \<Rightarrow> ('a bot_state_scheme, string option) action" where
  "getMapping mailbox = readM (\<lambda>w. fmlookup (rooms w) mailbox)"

definition GetMapping :: "string \<Rightarrow> ('a bot_state_scheme, string option) action" where
  "GetMapping mailbox =
     bindM (getMapping mailbox) (\<lambda>roomID.
     case roomID of
       Some r \<Rightarrow> returnM (Some r)
     | None \<Rightarrow>
         bindM GetBot (\<lambda>bot.
         if CatchAll bot = [] then returnM None else getMapping (CatchAll bot)))"

text \<open>\<open>AllowAuth\<close> (access.go); \<open>None\<close> stands for the result false.\<close>

definition AllowAuth :: "externals \<Rightarrow> string \<Rightarrow> string \<Rightarrow> ('a bot_state_scheme, string option) action" where
  "AllowAuth X email password =
     bindM (readM (\<lambda>w. \<exists>d \<in> set (domains w). HasSuffix email (''@'' @ d))) (\<lambda>suffix.
     if \<not> suffix then returnM None
     else
       bindM (getMapping (Mailbox X email)) (\<lambda>mapping.
       case mapping of
         None \<Rightarrow> returnM None
       | Some roomID \<Rightarrow>
           bindM (GetRoom roomID) (\<lambda>(cfg, err).
           if err \<noteq> None then returnM None
           else if Room_NoSend cfg then returnM None
           else if ext_checkhash X (Room_Password cfg) password then returnM (Some roomID)
           else returnM None)))"

section \<open>activation.go\<close>

definition rooms_Store :: "string \<Rightarrow> string \<Rightarrow> ('a bot_state_scheme, unit) action" where
  "rooms_Store mailbox roomID = modifyM (\<lambda>w. w\<lparr>rooms := fmupd mailbox roomID (rooms w)\<rparr>)"

definition rooms_Delete :: "string \<Rightarrow> ('a bot_state_scheme, unit) action" where
  "rooms_Delete mailbox = modifyM (\<lambda>w. w\<lparr>rooms := fmdrop mailbox (rooms w)\<rparr>)"

definition activateNone :: "string \<Rightarrow> string \<Rightarrow> string \<Rightarrow> bool \<Rightarrow> ('a bot_state_scheme, bool) action" where
  "activateNone ownerID roomID mailbox alias = thenM (rooms_Store mailbox roomID) (returnM True)"

definition markdown_content :: "externals \<Rightarrow> string \<Rightarrow> mxcontent" where
  "markdown_content X msg =
     \<lparr>c_body = fst (ext_markdown X msg), c_formatted = snd (ext_markdown X msg), c_notice = False,
      c_rel = None, c_raw = fmempty\<rparr>"

text \<open>The notice goes to the first admin room that takes it.\<close>

fun notify_loop :: "externals \<Rightarrow> string \<Rightarrow> string list \<Rightarrow> ('a bot_state_scheme, unit) action" where
  "notify_loop X msg [] = skipM"
| "notify_loop X msg (r # rs) =
     bindM (lp_Send r (markdown_content X msg)) (\<lambda>res.
     case res of Inl _ \<Rightarrow> notify_loop X msg rs | Inr _ \<Rightarrow> skipM)"

definition activateNotify ::
  "externals \<Rightarrow> string \<Rightarrow> string \<Rightarrow> string \<Rightarrow> bool \<Rightarrow> ('a bot_state_scheme, bool) action" where
  "activateNotify X ownerID roomID mailbox alias =
     thenM (rooms_Store mailbox roomID)
     (bindM (readM adminRooms) (\<lambda>ars.
      if ars = [] then returnM True
      else
        (let msg = (if alias then ''Alias '' else ''Mailbox '') @ GoQuote mailbox @
               '' has been registered by '' @ GoQuote ownerID @ '' for the room '' @ GoQuote roomID in
         thenM (notify_loop X msg ars) (returnM True))))"

definition activation_flow ::
  "externals \<Rightarrow> string \<Rightarrow> string \<Rightarrow> string \<Rightarrow> bool \<Rightarrow> ('a bot_state_scheme, bool) action" where
  "activation_flow X ownerID roomID mailbox alias =
     bindM (readM (\<lambda>w. Activation (mbxc w))) (\<lambda>flow.
     if flow = ''none'' then activateNone ownerID roomID mailbox alias
     else if flow = ''notify'' then activateNotify X ownerID roomID mailbox alias
     else activateNone ownerID roomID mailbox alias)"

definition ActivateMailbox ::
  "externals \<Rightarrow> string \<Rightarrow> string \<Rightarrow> string \<Rightarrow> ('a bot_state_scheme, bool) action" where
  "ActivateMailbox X ownerID roomID mailbox = activation_flow X ownerID roomID mailbox False"

definition ActivateAlias ::
  "externals \<Rightarrow> string \<Rightarrow> string \<Rightarrow> string \<Rightarrow> ('a bot_state_scheme, bool) action" where
  "ActivateAlias X ownerID roomID alias = activation_flow X ownerID roomID alias True"

section \<open>data.go\<close>

definition addRoom :: "string \<Rightarrow> gomap \<Rightarrow> ('a bot_state_scheme, unit) action" where
  "addRoom roomID cfg =
     thenM (rooms_Store (ToLower (TrimSpace (Room_Mailbox cfg))) roomID)
     (forM (Room_Aliases cfg) (\<lambda>alias. rooms_Store (ToLower (TrimSpace alias)) roomID))"

definition migrateRoomSettings :: "string \<Rightarrow> ('a bot_state_scheme, unit) action" where
  "migrateRoomSettings roomID =
     bindM (GetRoom roomID) (\<lambda>(cfg, err).
     if err \<noteq> None then skipM
     else
       bindM (if fmlookup cfg RoomActive = None then RoomSetOption roomID cfg RoomActive ''true''
              else returnM cfg) (\<lambda>cfg.
       if goget cfg ''spamlist:emails'' = [] \<and> goget cfg ''spamlist:localparts'' = [] \<and>
          goget cfg ''spamlist:hosts'' = []
       then skipM
       else
         (let cfg = MigrateSpamlistSettings cfg in
          thenM (alias_write (RoomData roomID acRoomKey) cfg)
          (bindM (SetRoom roomID cfg) (\<lambda>_. skipM)))))"

text \<open>The loop of \<open>syncRooms\<close> over the joined rooms; it returns the admin rooms it found.\<close>

fun syncRooms_loop :: "string list \<Rightarrow> string list \<Rightarrow> ('a bot_state_scheme, string list) action" where
  "syncRooms_loop ars [] = returnM ars"
| "syncRooms_loop ars (roomID # ids) =
     thenM (migrateRoomSettings roomID)
     (bindM (GetRoom roomID) (\<lambda>(cfg, serr).
      if serr \<noteq> None then syncRooms_loop ars ids
      else
        thenM (if Room_Mailbox cfg \<noteq> [] \<and> Room_Active cfg then addRoom roomID cfg else skipM)
        (bindM (if Room_Owner cfg \<noteq> [] then allowAdmin (Room_Owner cfg) [] else returnM False) (\<lambda>admin.
         syncRooms_loop (if admin then ars @ [roomID] else ars) ids))))"

definition syncRooms :: "('a bot_state_scheme, string option) action" where
  "syncRooms =
     bindM GetBot (\<lambda>bot.
     bindM api_call (\<lambda>err.
     if err \<noteq> None then returnM err
     else
       bindM (readM hs_joined) (\<lambda>joined.
       bindM (syncRooms_loop (if AdminRoom bot \<noteq> [] then [AdminRoom bot] else []) joined) (\<lambda>ars.
       thenM (modifyM (\<lambda>w. w\<lparr>adminRooms := ars\<rparr>)) (returnM None)))))"

definition migrateMautrix015 :: "('a bot_state_scheme, string option) action" where
  "migrateMautrix015 =
     bindM GetBot (\<lambda>cfg.
     if Mautrix015Migration cfg > 0
     then thenM (modifyM (\<lambda>w. w\<lparr>ignoreBefore := Mautrix015Migration cfg\<rparr>)) (returnM None)
     else
       bindM (readM time_now) (\<lambda>ts.
       thenM (modifyM (\<lambda>w. w\<lparr>ignoreBefore := ts\<rparr>))
       (bindM (BotSetOption cfg BotMautrix015Migration (Itoa ts)) (\<lambda>cfg. SetBot cfg))))"

text \<open>\<open>Parse\<close> of a Matrix user identifier: the server behind the first colon.\<close>

definition user_homeserver :: "string \<Rightarrow> string option" where
  "user_homeserver u =
     (case Index u '':'' of
        None \<Rightarrow> None
      | Some i \<Rightarrow> if i = 0 \<or> u ! 0 \<noteq> CHR ''@'' \<or> drop (Suc i) u = [] then None else Some (drop (Suc i) u))"

definition invalid_user :: "string \<Rightarrow> string" where
  "invalid_user u = [CHR 0x27] @ u @ [CHR 0x27] @ '' is not a valid user ID''"

definition initBotUsers :: "('a bot_state_scheme, string + string list) action" where
  "initBotUsers =
     bindM GetBot (\<lambda>cfg.
     if Users cfg \<noteq> [] then returnM (Inr (Users cfg))
     else
       bindM (readM lp_user) (\<lambda>u.
       case user_homeserver u of
         None \<Rightarrow> returnM (Inl (invalid_user u))
       | Some homeserver \<Rightarrow>
           bindM (BotSetOption cfg BotUsers (''@*:'' @ homeserver)) (\<lambda>cfg.
           bindM (SetBot cfg) (\<lambda>err.
           case err of None \<Rightarrow> returnM (Inr (Users cfg)) | Some e \<Rightarrow> returnM (Inl e)))))"

section \<open>Creation and start (bot.go)\<close>

text \<open>\<open>New\<close> on a state that holds the arguments; \<open>None\<close> is success.\<close>

definition Bot_New :: "string list \<Rightarrow> ('a bot_state_scheme, string option) action" where
  "Bot_New admins =
     thenM (modifyM (\<lambda>w. w\<lparr>rooms := fmempty, adminRooms := [], allowedUsers := [], allowedAdmins := [],
                           ignoreBefore := 0, handledMembership := {||}\<rparr>))
     (bindM initBotUsers (\<lambda>res.
      case res of
        Inl e \<Rightarrow> returnM (Some e)
      | Inr users \<Rightarrow>
          (case parseMXIDpatterns users [] of
             Inl e \<Rightarrow> returnM (Some e)
           | Inr allowed \<Rightarrow>
               thenM (modifyM (\<lambda>w. w\<lparr>allowedUsers := allowed\<rparr>))
               (case parseMXIDpatterns admins [] of
                  Inl e \<Rightarrow> returnM (Some e)
                | Inr allowed \<Rightarrow> thenM (modifyM (\<lambda>w. w\<lparr>allowedAdmins := allowed\<rparr>)) (returnM None)))))"

text \<open>\<open>Start\<close> up to the sync loop of the library.\<close>

definition Bot_Start :: "('a bot_state_scheme, string option) action" where
  "Bot_Start =
     bindM migrateMautrix015 (\<lambda>err.
     if err \<noteq> None then returnM err else syncRooms)"

section \<open>Lemmas\<close>

subsection \<open>Frames\<close>

lemma lp_frame_bot:
  fixes P :: "_ \<Rightarrow> _ \<Rightarrow> _ \<Rightarrow> _ \<Rightarrow> _ \<Rightarrow> _ \<Rightarrow> bool"
  shows "lp_frame (\<lambda>w :: 'a bot_state_scheme.
    P (rooms w) (allowedUsers w) (allowedAdmins w) (proxies w) (domains w) (mbxc w))"
proof -
  have "rooms w = rooms w' \<and> allowedUsers w = allowedUsers w' \<and> allowedAdmins w = allowedAdmins w' \<and>
        proxies w = proxies w' \<and> domains w = domains w' \<and> mbxc w = mbxc w'"
    if "lp_state.more w = lp_state.more w'" for w w' :: "'a bot_state_scheme"
    using that by (cases w; cases w') simp
  then show ?thesis unfolding lp_frame_def by metis
qed

lemma lp_frame_rooms [simp, intro]: "lp_frame (\<lambda>w. P (rooms w))"
  by (rule lp_frame_bot [of "\<lambda>r _ _ _ _ _. P r"])

lemma preserves_Bot_Error [preserves_rules]: "lp_frame I \<Longrightarrow> preserves I (Bot_Error X c msg)"
  unfolding Bot_Error_def by (intro preserves_rules)

lemma preserves_allowAdmin [preserves_rules]: "preserves I (allowAdmin a r)"
  unfolding allowAdmin_def by (intro preserves_rules)

lemma preserves_allowUsers [preserves_rules]: "lp_frame I \<Longrightarrow> preserves I (allowUsers a r)"
  unfolding allowUsers_def by (intro preserves_rules)

lemma preserves_allowAnyone [preserves_rules]: "preserves I (allowAnyone a r)"
  unfolding allowAnyone_def by (intro preserves_rules)

lemma preserves_allowOwner [preserves_rules]: "lp_frame I \<Longrightarrow> preserves I (allowOwner X a r)"
  unfolding allowOwner_def by (intro preserves_rules)

lemma preserves_allowSend [preserves_rules]: "lp_frame I \<Longrightarrow> preserves I (allowSend X a r)"
  unfolding allowSend_def by (intro preserves_rules)

lemma preserves_allowReply [preserves_rules]: "lp_frame I \<Longrightarrow> preserves I (allowReply X c a r)"
  unfolding allowReply_def by (intro preserves_rules)

lemma preserves_isReserved [preserves_rules]: "preserves I (isReserved m)"
  unfolding isReserved_def by (intro preserves_rules)

lemma preserves_IsGreylisted [preserves_rules]: "lp_frame I \<Longrightarrow> preserves I (IsGreylisted X addr)"
  unfolding IsGreylisted_def by (intro preserves_rules)

lemma preserves_IsBanned [preserves_rules]: "lp_frame I \<Longrightarrow> preserves I (IsBanned addr)"
  unfolding IsBanned_def by (intro preserves_rules)

lemma preserves_ban_now [preserves_rules]: "lp_frame I \<Longrightarrow> preserves I (ban_now X addr)"
  unfolding ban_now_def IsTrusted_def by (intro preserves_rules)

lemma preserves_Ban [preserves_rules]:
  "lp_frame I \<Longrightarrow> preserves I (BanAuto X addr)"
  "lp_frame I \<Longrightarrow> preserves I (BanAuth X addr)"
  "lp_frame I \<Longrightarrow> preserves I (BanManually X addr)"
  unfolding BanAuto_def BanAuth_def BanManually_def by (intro preserves_rules; assumption)+

lemma preserves_getMapping [preserves_rules]: "preserves I (getMapping m)"
  unfolding getMapping_def by (intro preserves_rules)

lemma preserves_GetMapping [preserves_rules]: "lp_frame I \<Longrightarrow> preserves I (GetMapping m)"
  unfolding GetMapping_def by (intro preserves_rules)

lemma preserves_AllowAuth [preserves_rules]: "lp_frame I \<Longrightarrow> preserves I (AllowAuth X e p)"
  unfolding AllowAuth_def by (intro preserves_rules)

subsection \<open>Access\<close>

text \<open>What the checks decide, when the room's settings are at hand.\<close>

definition user_ok :: "'a bot_state_scheme \<Rightarrow> gomap \<Rightarrow> string \<Rightarrow> bool" where
  "user_ok w cfg actor \<longleftrightarrow>
     Match actor (allowedUsers w) \<or> Match actor (allowedAdmins w) \<or> Room_Owner cfg = actor"

definition owner_ok :: "'a bot_state_scheme \<Rightarrow> gomap \<Rightarrow> string \<Rightarrow> bool" where
  "owner_ok w cfg actor \<longleftrightarrow>
     user_ok w cfg actor \<and>
     (Room_Owner cfg = [] \<or> Room_Owner cfg = actor \<or> Match actor (allowedAdmins w))"

lemma run_allowAdmin [run_simps]: "allowAdmin a r w = (Ret (Match a (allowedAdmins w)), w)"
  by (simp add: allowAdmin_def run_simps)

lemma run_allowUsers [run_simps]:
  "room_cfg w r = Some cfg \<Longrightarrow> allowUsers a r w = (Ret (user_ok w cfg a), w)"
  by (auto simp: allowUsers_def user_ok_def run_simps)

lemma run_allowOwner [run_simps]:
  "room_cfg w r = Some cfg \<Longrightarrow> allowOwner X a r w = (Ret (owner_ok w cfg a), w)"
  by (auto simp: allowOwner_def owner_ok_def run_simps Let_def)

lemma run_allowSend [run_simps]:
  "room_cfg w r = Some cfg \<Longrightarrow> allowSend X a r w = (Ret (user_ok w cfg a \<and> \<not> Room_NoSend cfg), w)"
  by (auto simp: allowSend_def run_simps)

lemma run_allowReply [run_simps]:
  "room_cfg w r = Some cfg \<Longrightarrow> allowReply X c a r w = (Ret (user_ok w cfg a \<and> \<not> Room_NoReplies cfg), w)"
  by (auto simp: allowReply_def run_simps)

subsection \<open>Ban- and greylisting\<close>

text \<open>The options of the bot are loaded and a DKIM key is set, so reading them changes nothing.\<close>

definition bot_ready :: "'a cfg_state_scheme \<Rightarrow> gomap \<Rightarrow> bool" where
  "bot_ready w bc \<longleftrightarrow> bot_cfg w = Some bc \<and> DKIMPrivateKey bc \<noteq> []"

abbreviation banned :: "'a cfg_state_scheme \<Rightarrow> gomap option" where
  "banned w \<equiv> fmlookup (acc w) (UserData acBanlistKey)"

abbreviation greyed :: "'a cfg_state_scheme \<Rightarrow> gomap option" where
  "greyed w \<equiv> fmlookup (acc w) (UserData acGreylistKey)"

lemma run_GetBot_ready [run_simps]: "bot_ready w bc \<Longrightarrow> GetBot w = (Ret bc, w)"
  by (simp add: bot_ready_def run_simps)

lemma bot_ready_upd [simp]:
  "bot_ready w bc \<Longrightarrow> k \<noteq> UserData acBotKey \<Longrightarrow> bot_ready (w\<lparr>acc := fmupd k m (acc w)\<rparr>) bc"
  by (simp add: bot_ready_def)

lemma bot_ready_cong: "acc w' = acc w \<Longrightarrow> bot_ready w' bc = bot_ready w bc"
  by (simp add: bot_ready_def)

lemma run_GetBanlist [run_simps]:
  "bot_ready w bc \<Longrightarrow> BanlistEnabled bc \<Longrightarrow> banned w = Some l \<Longrightarrow> GetBanlist w = (Ret l, w)"
  by (simp add: GetBanlist_def run_simps)

lemma run_GetGreylist [run_simps]: "greyed w = Some l \<Longrightarrow> GetGreylist w = (Ret l, w)"
  by (simp add: GetGreylist_def run_simps)

lemma run_SetBanlist:
  "bot_ready w bc \<Longrightarrow> BanlistEnabled bc \<Longrightarrow>
   SetBanlist l w = SetAccountData (UserData acBanlistKey) l w"
  by (simp add: SetBanlist_def run_simps)

lemma run_IsBanned:
  "bot_ready w bc \<Longrightarrow> BanlistEnabled bc \<Longrightarrow> banned w = Some l \<Longrightarrow>
   IsBanned addr w = (Ret (List_Has l addr), w)"
  by (simp add: IsBanned_def run_simps)

lemma ban_now_trusted: "AddrIP addr \<in> set (proxies w) \<Longrightarrow> ban_now X addr w = (Ret (), w)"
  by (simp add: ban_now_def IsTrusted_def run_simps)

lemma ban_now_effect:
  assumes "bot_ready w bc" and "BanlistEnabled bc" and "banned w = Some l"
    and "AddrIP addr \<notin> set (proxies w)"
  obtains w' where "ban_now X addr w = (Ret (), w')" and "bot_ready w' bc"
    and "banned w' = Some (List_Add X (now_sec w) l addr)"
proof -
  let ?l = "List_Add X (now_sec w) l addr"
  let ?w = "w\<lparr>acc := fmupd (UserData acBanlistKey) ?l (acc w)\<rparr>"
  have ready: "bot_ready ?w bc" using assms(1) by simp
  have "ban_now X addr w =
    (Ret (), snd (SetAccountData (UserData acBanlistKey) ?l ?w))"
    using assms run_SetBanlist [OF ready assms(2)]
    by (simp add: ban_now_def IsTrusted_def run_simps Let_def)
  then show ?thesis
    by (rule that) (use assms in \<open>simp_all add: run_simps bot_ready_def\<close>)
qed

lemma greylist_first:
  assumes "bot_ready w bc" and "Greylist bc \<noteq> 0" and "greyed w = Some l" and "List_Get X l addr = None"
  obtains w' where "IsGreylisted X addr w = (Ret True, w')" and "bot_ready w' bc"
    and "greyed w' = Some (List_Add X (now_sec w) l addr)"
  using assms by (simp add: IsGreylisted_def SetGreylist_def run_simps Let_def bot_ready_def)

lemma greylist_again:
  assumes "bot_ready w bc" and "Greylist bc \<noteq> 0" and "greyed w = Some l" and "List_Get X l addr = Some t"
  shows "IsGreylisted X addr w = (Ret (greylist_until t (Greylist bc) > time_now w * 10 ^ 6), w)"
  using assms by (simp add: IsGreylisted_def run_simps)

lemma greylist_off: "bot_ready w bc \<Longrightarrow> Greylist bc = 0 \<Longrightarrow> IsGreylisted X addr w = (Ret False, w)"
  by (simp add: IsGreylisted_def run_simps)

lemma List_Get_cong: "AddrIP a = AddrIP b \<Longrightarrow> List_Get X l a = List_Get X l b"
  by (simp add: List_Get_def)

subsection \<open>Mailboxes\<close>

lemma run_getMapping [run_simps]: "getMapping m w = (Ret (fmlookup (rooms w) m), w)"
  by (simp add: getMapping_def run_simps)

lemma run_GetMapping [run_simps]:
  "bot_ready w bc \<Longrightarrow>
   GetMapping m w = (Ret (if fmlookup (rooms w) m \<noteq> None then fmlookup (rooms w) m
                          else if CatchAll bc = [] then None
                          else fmlookup (rooms w) (CatchAll bc)), w)"
  by (auto simp: GetMapping_def run_simps)

lemma AllowAuth_suffix:
  "AllowAuth X email password w =
    (if \<exists>d \<in> set (domains w). HasSuffix email (''@'' @ d) then
       (case fmlookup (rooms w) (Mailbox X email) of
          None \<Rightarrow> (Ret None, w)
        | Some roomID \<Rightarrow>
            bindM (GetRoom roomID) (\<lambda>(cfg, err).
            if err \<noteq> None then returnM None
            else if Room_NoSend cfg then returnM None
            else if ext_checkhash X (Room_Password cfg) password then returnM (Some roomID)
            else returnM None) w)
     else (Ret None, w))"
  by (simp add: AllowAuth_def bindM_def readM_def getMapping_def returnM_def split: option.split)

lemma AllowAuth_cases:
  assumes run: "AllowAuth X email password w = (Ret (Some roomID), w')"
  obtains d cfg where "d \<in> set (domains w)" and "HasSuffix email (''@'' @ d)"
    and "fmlookup (rooms w) (Mailbox X email) = Some roomID"
    and "GetRoom roomID w = (Ret (cfg, None), w')"
    and "\<not> Room_NoSend cfg" and "ext_checkhash X (Room_Password cfg) password"
proof -
  obtain d r where d: "d \<in> set (domains w)" "HasSuffix email (''@'' @ d)"
    and r: "fmlookup (rooms w) (Mailbox X email) = Some r"
    using run by (auto simp: AllowAuth_suffix split: if_splits option.splits)
  obtain cfg err w1 where g: "GetRoom r w = (Ret (cfg, err), w1)" using GetRoom_total by blast
  have "AllowAuth X email password w =
    (if err \<noteq> None then returnM None
     else if Room_NoSend cfg then returnM None
     else if ext_checkhash X (Room_Password cfg) password then returnM (Some r)
     else returnM None) w1"
    using d r by (auto simp: AllowAuth_suffix run_bindM_Ret [where m = "GetRoom r", OF g])
  with run have "r = roomID" "err = None" "w1 = w'" "\<not> Room_NoSend cfg"
    "ext_checkhash X (Room_Password cfg) password"
    by (auto simp: run_simps split: if_splits)
  with d r g show ?thesis using that by blast
qed

section \<open>Properties\<close>

text \<open>A running bot for the witnesses: its options, the settings of its rooms, the mailboxes.\<close>

definition bot_demo ::
  "gomap \<Rightarrow> (string \<times> gomap) list \<Rightarrow> (string \<times> string) list \<Rightarrow> bot_state" where
  "bot_demo cfg rcfgs boxes =
     queue_state.extend (queue_demo cfg fmempty [] (\<lambda>_. None)
       \<lparr>acc := fmap_of_list ((UserData acBotKey, fmupd BotDKIMPrivateKey ''pem'' cfg) #
          (UserData acBanlistKey, fmempty) # (UserData acGreylistKey, fmempty) #
          (UserData acQueueKey, fmempty) #
          map (\<lambda>(r, c). (RoomData r acRoomKey, c)) rcfgs)\<rparr>)
      (bot_state.fields ''!pm'' \<lparr>Reserved = [''admin''], Forwarded = [], Activation = ''none''\<rparr>
         [''example.com''] [''@*:example.com''] [''@root:example.com''] [] 0 (fmap_of_list boxes)
         [''10.0.0.1''] {||} (map fst rcfgs) fmempty {||})"

lemma bot_demo_acc [simp]:
  "bot_cfg (bot_demo cfg rcfgs boxes) = Some (fmupd BotDKIMPrivateKey ''pem'' cfg)"
  "banned (bot_demo cfg rcfgs boxes) = Some fmempty"
  "greyed (bot_demo cfg rcfgs boxes) = Some fmempty"
  "queue_index (bot_demo cfg rcfgs boxes) = Some fmempty"
  "room_cfg (bot_demo cfg rcfgs boxes) r = map_of rcfgs r"
  by (simp_all add: bot_demo_def queue_state.defs bot_state.defs fmlookup_of_list queue_demo_def)
    (induction rcfgs; auto)

lemma bot_demo_fields [simp]:
  "hs_fault (bot_demo cfg rcfgs boxes) n = None"
  "rooms (bot_demo cfg rcfgs boxes) = fmap_of_list boxes"
  "domains (bot_demo cfg rcfgs boxes) = [''example.com'']"
  "allowedUsers (bot_demo cfg rcfgs boxes) = [''@*:example.com'']"
  "allowedAdmins (bot_demo cfg rcfgs boxes) = [''@root:example.com'']"
  "proxies (bot_demo cfg rcfgs boxes) = [''10.0.0.1'']"
  "mbxc (bot_demo cfg rcfgs boxes) = \<lparr>Reserved = [''admin''], Forwarded = [], Activation = ''none''\<rparr>"
  "time_now (bot_demo cfg rcfgs boxes) = 0" "adminRooms (bot_demo cfg rcfgs boxes) = []"
  "prefix (bot_demo cfg rcfgs boxes) = ''!pm''" "ignoreBefore (bot_demo cfg rcfgs boxes) = 0"
  "lp_user (bot_demo cfg rcfgs boxes) = ''@bot:example.com''"
  "hs_sent (bot_demo cfg rcfgs boxes) = []" "mail_sent (bot_demo cfg rcfgs boxes) = []"
  by (simp_all add: bot_demo_def queue_state.defs bot_state.defs queue_demo_def)

lemma bot_demo_ready [simp]:
  "bot_ready (bot_demo cfg rcfgs boxes) (fmupd BotDKIMPrivateKey ''pem'' cfg)"
  by (simp add: bot_ready_def)

text \<open>
  C24: \<open>allowOwner\<close> grants exactly this: the actor is an allowed user, an admin or the owner of
  the room, and the room has no owner, or the actor is its owner or an admin. The check itself
  changes nothing.
\<close>

theorem allowOwner_decides:
  assumes "room_cfg w roomID = Some cfg"
  shows "allowOwner X actor roomID w =
    (Ret ((Match actor (allowedUsers w) \<or> Match actor (allowedAdmins w) \<or> Room_Owner cfg = actor) \<and>
          (Room_Owner cfg = [] \<or> Room_Owner cfg = actor \<or> Match actor (allowedAdmins w))), w)"
  using run_allowOwner [OF assms] by (simp add: owner_ok_def user_ok_def)

theorem allowOwner_decides_witness:
  "allowOwner demo_ext ''@eve:example.com'' ''!r'' (bot_demo fmempty [(''!r'', fmupd RoomOwner ''@bob:example.com'' fmempty)] []) =
     (Ret False, bot_demo fmempty [(''!r'', fmupd RoomOwner ''@bob:example.com'' fmempty)] []) \<and>
   allowOwner demo_ext ''@root:example.com'' ''!r'' (bot_demo fmempty [(''!r'', fmupd RoomOwner ''@bob:example.com'' fmempty)] []) =
     (Ret True, bot_demo fmempty [(''!r'', fmupd RoomOwner ''@bob:example.com'' fmempty)] [])"
  using allowOwner_decides [of "bot_demo fmempty [(''!r'', fmupd RoomOwner ''@bob:example.com'' fmempty)] []" "''!r''"]
  by (simp add: Room_Owner_def Room_Get_def Match_def)

text \<open>
  C26: greylisting. An address met for the first time is greylisted and recorded with the current
  time; any address with the same IP is then greylisted until the configured number of minutes
  has passed since, and not after.
\<close>

theorem greylist_cycle:
  assumes bc: "bot_ready w bc" "Greylist bc \<noteq> 0" "int64 (Greylist bc * (6 * 10 ^ 10))"
    and list: "greyed w = Some l" "\<not> List_Has l addr"
    and time: "time_law X" "valid_time (now_sec w)"
  shows "\<exists>w1. IsGreylisted X addr w = (Ret True, w1) \<and>
    (\<forall>addr' t. AddrIP addr' = AddrIP addr \<longrightarrow>
       IsGreylisted X addr' (w1\<lparr>time_now := t\<rparr>) =
         (Ret (now_sec w * 10 ^ 9 + Greylist bc * 6 * 10 ^ 10 > t * 10 ^ 6), w1\<lparr>time_now := t\<rparr>))"
proof -
  have "List_Get X l addr = None" using list(2) by (simp add: List_Get_def List_Has_def goget_def)
  then obtain w1 where w1: "IsGreylisted X addr w = (Ret True, w1)" "bot_ready w1 bc"
      "greyed w1 = Some (List_Add X (now_sec w) l addr)"
    using greylist_first bc list by metis
  have "IsGreylisted X addr' (w1\<lparr>time_now := t\<rparr>) =
      (Ret (now_sec w * 10 ^ 9 + Greylist bc * 6 * 10 ^ 10 > t * 10 ^ 6), w1\<lparr>time_now := t\<rparr>)"
    if a: "AddrIP addr' = AddrIP addr" for addr' t
  proof -
    have "List_Get X (List_Add X (now_sec w) l addr) addr' = Some (now_sec w)"
      using List_Get_Add [OF time list(2)] List_Get_cong [OF a] by simp
    then have "IsGreylisted X addr' (w1\<lparr>time_now := t\<rparr>) =
        (Ret (greylist_until (now_sec w) (Greylist bc) > t * 10 ^ 6), w1\<lparr>time_now := t\<rparr>)"
      using w1 bc greylist_again [of "w1\<lparr>time_now := t\<rparr>" bc _ X addr']
      by (simp add: bot_ready_cong [of "w1\<lparr>time_now := t\<rparr>" w1])
    then show ?thesis using bc(3) by (simp add: greylist_until_def mult.assoc)
  qed
  then show ?thesis using w1(1) by blast
qed

lemma Greylist_demo [simp]:
  "Greylist (fmupd BotDKIMPrivateKey ''pem'' (fmupd BotGreylist ''5'' fmempty)) = 5"
  by (simp add: Greylist_def Bot_Get_def Int_of_def) code_simp

theorem greylist_cycle_witness:
  "\<exists>w1. IsGreylisted demo_ext ''192.0.2.7:25'' (bot_demo (fmupd BotGreylist ''5'' fmempty) [] []) = (Ret True, w1) \<and>
     fst (IsGreylisted demo_ext ''192.0.2.7:25'' (w1\<lparr>time_now := 299000\<rparr>)) = Ret True \<and>
     fst (IsGreylisted demo_ext ''192.0.2.7:25'' (w1\<lparr>time_now := 300000\<rparr>)) = Ret False"
proof -
  let ?w = "bot_demo (fmupd BotGreylist ''5'' fmempty) [] []"
  obtain w1 where w1: "IsGreylisted demo_ext ''192.0.2.7:25'' ?w = (Ret True, w1)"
    and later: "\<And>t. IsGreylisted demo_ext ''192.0.2.7:25'' (w1\<lparr>time_now := t\<rparr>) =
         (Ret (now_sec ?w * 10 ^ 9 + 5 * 6 * 10 ^ 10 > t * 10 ^ 6), w1\<lparr>time_now := t\<rparr>)"
    using greylist_cycle [of ?w "fmupd BotDKIMPrivateKey ''pem'' (fmupd BotGreylist ''5'' fmempty)"
        fmempty "''192.0.2.7:25''" demo_ext]
    by (auto simp: List_Has_def now_sec_def valid_time_def int64_def)
  show ?thesis using w1 later by (simp add: now_sec_def)
qed

text \<open>
  Banning. With the ban list enabled, banning an address that is not a trusted proxy makes
  every address with its IP banned, keeps every other address as it was, and works even when
  the homeserver does not store the list; a trusted proxy is never added.
\<close>

theorem BanManually_bans:
  assumes "bot_ready w bc" and "BanlistEnabled bc" and "banned w = Some l"
  shows "\<exists>w1. BanManually X addr w = (Ret (), w1) \<and>
    (\<forall>a. fst (IsBanned a w1) =
       Ret (AddrIP a = AddrIP addr \<and> AddrIP addr \<notin> set (proxies w) \<or> List_Has l a))"
proof (cases "AddrIP addr \<in> set (proxies w)")
  case True
  then show ?thesis
    using assms run_IsBanned [OF assms] ban_now_trusted [of addr w X] by (auto simp: BanManually_def run_simps)
next
  case False
  from assms False obtain w1 where w1: "ban_now X addr w = (Ret (), w1)" "bot_ready w1 bc"
      "banned w1 = Some (List_Add X (now_sec w) l addr)"
    by (rule ban_now_effect)
  have "fst (IsBanned a w1) = Ret (AddrIP a = AddrIP addr \<or> List_Has l a)" for a
    using run_IsBanned [OF w1(2) assms(2) w1(3)] by (auto simp: List_Has_Add)
  then show ?thesis using w1(1) assms False by (auto simp: BanManually_def run_simps)
qed

theorem BanManually_bans_witness:
  "\<exists>w1. BanManually demo_ext ''192.0.2.7:25'' (bot_demo (fmupd BotBanlistEnabled ''true'' fmempty) [] []) = (Ret (), w1) \<and>
     fst (IsBanned ''192.0.2.7:4711'' w1) = Ret True"
proof -
  let ?c = "fmupd BotDKIMPrivateKey ''pem'' (fmupd BotBanlistEnabled ''true'' fmempty)"
  have on: "BanlistEnabled ?c" by (simp add: BanlistEnabled_def Bot_Get_def) code_simp
  have ip: "AddrIP ''192.0.2.7:25'' = ''192.0.2.7''" "AddrIP ''192.0.2.7:4711'' = ''192.0.2.7''" by code_simp+
  show ?thesis
    using BanManually_bans [of "bot_demo (fmupd BotBanlistEnabled ''true'' fmempty) [] []" ?c fmempty demo_ext
        "''192.0.2.7:25''"] on ip by auto
qed

lemma returns_Bot_Error:
  "ctxThreadID c \<noteq> [] \<or> ctxEvent c \<noteq> None \<Longrightarrow> returns (Bot_Error X c msg)"
  unfolding Bot_Error_def by (auto intro!: returns_rules split: option.split)

lemma returns_access [returns_rules]:
  "returns (allowAdmin a r)" "returns (allowUsers a r)" "returns (allowAnyone a r)"
  "returns (isReserved m)" "returns (IsGreylisted X addr)" "returns (IsBanned addr)"
  "returns (IsTrusted addr)" "returns (BanAuto X addr)" "returns (BanAuth X addr)"
  "returns (BanManually X addr)" "returns (getMapping m)" "returns (GetMapping m)"
  "returns (AllowAuth X e p)"
  unfolding allowAdmin_def allowUsers_def allowAnyone_def isReserved_def IsGreylisted_def
    IsBanned_def IsTrusted_def BanAuto_def BanAuth_def BanManually_def ban_now_def getMapping_def
    GetMapping_def AllowAuth_def
  by (intro returns_rules)+

text \<open>
  C25: SMTP authentication. \<open>AllowAuth\<close> lets a login in as a room exactly when the address ends in
  one of the configured domains, its mailbox is mapped to that room (the catch-all mailbox does
  not help), the room's settings can be read, the room may send, and the password fits the
  stored hash.
\<close>

theorem AllowAuth_iff:
  "AllowAuth X email password w = (Ret (Some roomID), w') \<longleftrightarrow>
    (\<exists>d \<in> set (domains w). HasSuffix email (''@'' @ d)) \<and>
    fmlookup (rooms w) (Mailbox X email) = Some roomID \<and>
    (\<exists>cfg. GetRoom roomID w = (Ret (cfg, None), w') \<and> \<not> Room_NoSend cfg \<and>
           ext_checkhash X (Room_Password cfg) password)"
  (is "?lhs \<longleftrightarrow> ?rhs")
proof
  assume ?lhs
  then show ?rhs by (rule AllowAuth_cases) blast
next
  assume ?rhs
  then show ?lhs by (auto simp: AllowAuth_suffix run_simps)
qed

text \<open>
  A mailbox that has no room falls back to the room of the catch-all mailbox, if one is set
  and mapped; a mailbox that has a room never does.
\<close>

theorem GetMapping_catch_all:
  assumes "bot_ready w bc"
  shows "GetMapping mailbox w =
    (Ret (case fmlookup (rooms w) mailbox of
            Some r \<Rightarrow> Some r
          | None \<Rightarrow> if CatchAll bc = [] then None else fmlookup (rooms w) (CatchAll bc)), w)"
  using run_GetMapping [OF assms, of mailbox] by (auto split: option.split)

theorem GetMapping_catch_all_witness:
  "fst (GetMapping ''nobody'' (bot_demo (fmupd BotCatchAll ''all'' fmempty) [] [(''all'', ''!a'')])) = Ret (Some ''!a'') \<and>
   fst (GetMapping ''bob'' (bot_demo (fmupd BotCatchAll ''all'' fmempty) [] [(''all'', ''!a''), (''bob'', ''!b'')])) = Ret (Some ''!b'')"
  using GetMapping_catch_all [OF bot_demo_ready, of "''nobody''" "fmupd BotCatchAll ''all'' fmempty" "[]" "[(''all'', ''!a'')]"]
    GetMapping_catch_all [OF bot_demo_ready, of "''bob''" "fmupd BotCatchAll ''all'' fmempty" "[]" "[(''all'', ''!a''), (''bob'', ''!b'')]"]
  by (simp add: CatchAll_def Bot_Get_def fmlookup_of_list)

text \<open>
  Reporting an error with neither an event nor a thread in the context panics (the event is
  read before it is checked); in every other context it returns.
\<close>

theorem Bot_Error_panics_iff:
  "(\<exists>p. fst (Bot_Error X c msg w) = Panic p) \<longleftrightarrow> ctxThreadID c = [] \<and> ctxEvent c = None"
proof (cases "ctxThreadID c = [] \<and> ctxEvent c = None")
  case False
  then show ?thesis using returns_no_panic [OF returns_Bot_Error] by blast
qed (simp add: Bot_Error_def run_simps)

lemma Users_single: "CHR '' '' \<notin> set p \<Longrightarrow> p \<noteq> [] \<Longrightarrow> Bot_Get cfg BotUsers = p \<Longrightarrow> Users cfg = [p]"
  by (simp add: Users_def Let_def)

lemma initBotUsers_default:
  assumes "bot_ready w bc" and "Users bc = []" and "user_homeserver (lp_user w) = Some server"
    and "CHR '' '' \<notin> set server" and "hs_fault w (hs_calls w) = None"
  obtains w' where "initBotUsers w = (Ret (Inr [''@*:'' @ server]), w')"
    and "\<And>k. k \<noteq> UserData acBotKey \<Longrightarrow> fmlookup (acc w') k = fmlookup (acc w) k"
proof -
  let ?c = "fmupd BotUsers (''@*:'' @ server) bc"
  have "Users ?c = [''@*:'' @ server]" using assms(4) by (intro Users_single) (simp_all add: Bot_Get_def)
  then show ?thesis
    using assms that
    by (simp add: initBotUsers_def BotSetOption_def SetBot_def bot_ready_def run_simps)
qed

text \<open>
  A bot that starts without configured users allows the users of its own homeserver, all of
  them and nobody else.
\<close>

theorem default_users_homeserver:
  assumes "bot_ready w bc" and "Users bc = []" and "user_homeserver (lp_user w) = Some server"
    and "set server \<inter> set '' *'' = {}" and "hs_fault w (hs_calls w) = None"
  shows "\<exists>ps w'. initBotUsers w = (Ret (Inr ps), w') \<and>
    (\<forall>u. Match u ps \<longleftrightarrow> (\<exists>l. u = ''@'' @ l @ '':'' @ server \<and> (\<forall>c \<in> set l. wild_char c)))"
proof -
  obtain w' where w': "initBotUsers w = (Ret (Inr [''@*:'' @ server]), w')"
    using initBotUsers_default [OF assms(1-3) _ assms(5)] assms(4) by auto
  have "CHR ''*'' \<notin> set server" using assms(4) by auto
  then show ?thesis using w' glob_server by (auto simp: Match_def)
qed

theorem default_users_homeserver_witness:
  "\<exists>ps w'. initBotUsers (bot_demo fmempty [] []) = (Ret (Inr ps), w') \<and> Match ''@eve:example.com'' ps \<and>
     \<not> Match ''@eve:example.org'' ps"
proof -
  have h: "user_homeserver ''@bot:example.com'' = Some ''example.com''" by code_simp
  have u: "Users (fmupd BotDKIMPrivateKey ''pem'' fmempty) = []" by (simp add: Users_def Bot_Get_def)
  obtain ps w' where ps: "initBotUsers (bot_demo fmempty [] []) = (Ret (Inr ps), w')"
    "\<And>u. Match u ps \<longleftrightarrow> (\<exists>l. u = ''@'' @ l @ '':'' @ ''example.com'' \<and> (\<forall>c \<in> set l. wild_char c))"
    using default_users_homeserver [of "bot_demo fmempty [] []" "fmupd BotDKIMPrivateKey ''pem'' fmempty" "''example.com''"]
      h u by auto
  have "\<exists>l. ''@eve:example.com'' = ''@'' @ l @ '':'' @ ''example.com'' \<and> (\<forall>c \<in> set l. wild_char c)"
    by (rule exI [of _ "''eve''"]) (simp add: wild_char_def)
  moreover have "\<nexists>l. ''@eve:example.org'' = ''@'' @ l @ '':'' @ ''example.com''"
  proof
    assume "\<exists>l. ''@eve:example.org'' = ''@'' @ l @ '':'' @ ''example.com''"
    then obtain l where "''@eve:example.org'' = ''@'' @ l @ '':'' @ ''example.com''" by blast
    then have "last ''@eve:example.org'' = last (''@'' @ l @ '':'' @ ''example.com'')" by presburger
    then show False by simp
  qed
  ultimately show ?thesis using ps by blast
qed

end
