(* ===== verification/Bot_Email.thy ===== *)
theory Bot_Email
  imports Bot
begin

text \<open>
  The emails of the bot (internal/bot/email.go): delivery with the queue as a fallback, the
  email of an SMTP session as a message in its room, the threads that keep replies together,
  replies and automatic replies; the reactions that mark a message in progress (mutex.go) and
  the reaction that marks an email as spam is in the theory of the commands.

  Sequential executions only: the mutex of a room has no effect there. An event read from an
  encrypted room is decrypted, which may fail; the events of the model hold plain content.
\<close>

section \<open>mutex.go\<close>

definition reactionLock :: string where
  "reactionLock = [CHR 0xF0, CHR 0x9F, CHR 0x93, CHR 0xA8]"

definition reactionUnlock :: string where
  "reactionUnlock = [CHR 0xE2, CHR 0x9C, CHR 0x85]"

definition Bot_lock :: "string \<Rightarrow> string \<Rightarrow> ('a bot_state_scheme, unit) action" where
  "Bot_lock roomID eventID = bindM (SendReaction roomID eventID reactionLock) (\<lambda>_. skipM)"

definition Bot_unlock :: "string \<Rightarrow> string \<Rightarrow> ('a bot_state_scheme, unit) action" where
  "Bot_unlock roomID eventID =
     bindM (ReplaceReaction roomID eventID reactionLock reactionUnlock) (\<lambda>_. skipM)"

section \<open>Delivery\<close>

definition ErrNoRoom :: string where
  "ErrNoRoom = ''room not found''"

definition shouldQueue :: "string \<Rightarrow> bool" where
  "shouldQueue msg =
     (let msg = TrimSpace msg in
      if HasPrefix msg ''4'' then True
      else if Contains msg ''450'' \<or> Contains msg ''451'' then True
      else Contains msg ''greylisted'')"

text \<open>The result tells whether the email was queued, and the error.\<close>

definition Sendmail ::
  "string \<Rightarrow> mailaddr \<Rightarrow> mailaddr \<Rightarrow> string \<Rightarrow> url option \<Rightarrow>
   ('a bot_state_scheme, bool \<times> string option) action" where
  "Sendmail eventID from to data relayOverride =
     bindM (sendmail from to data relayOverride) (\<lambda>err.
     case err of
       None \<Rightarrow> returnM (False, None)
     | Some e \<Rightarrow>
         if shouldQueue e
         then bindM (queue_Add eventID from to data [relayOverride]) (\<lambda>aerr. returnM (True, aerr))
         else returnM (False, Some e))"

definition GetDKIMprivkey :: "('a bot_state_scheme, string) action" where
  "GetDKIMprivkey = bindM GetBot (\<lambda>cfg. returnM (DKIMPrivateKey cfg))"

definition GetRelayConfig :: "externals \<Rightarrow> string \<Rightarrow> ('a bot_state_scheme, url option) action" where
  "GetRelayConfig X roomID =
     bindM (GetRoom roomID) (\<lambda>(cfg, err).
     returnM (if err \<noteq> None then None else Room_Relay X cfg))"

definition GetIFOptions :: "string \<Rightarrow> ('a bot_state_scheme, gomap) action" where
  "GetIFOptions roomID = bindM (GetRoom roomID) (\<lambda>(cfg, _). returnM cfg)"

section \<open>Threads\<close>

abbreviation acMessagePrefix :: string where "acMessagePrefix \<equiv> ''cc.etke.postmoogle.message''"
abbreviation acLastEventPrefix :: string where "acLastEventPrefix \<equiv> ''cc.etke.postmoogle.last''"

definition messageKey :: "string \<Rightarrow> string \<Rightarrow> ackey" where
  "messageKey roomID messageID = RoomData roomID (acMessagePrefix @ ''.'' @ messageID)"

definition lastEventKey :: "string \<Rightarrow> string \<Rightarrow> ackey" where
  "lastEventKey roomID threadID = RoomData roomID (acLastEventPrefix @ ''.'' @ threadID)"

definition eventID_data :: "string \<Rightarrow> gomap" where
  "eventID_data eventID = fmupd ''eventID'' eventID fmempty"

fun getThreadID_loop :: "string \<Rightarrow> string list \<Rightarrow> ('a bot_state_scheme, string) action" where
  "getThreadID_loop roomID [] = returnM []"
| "getThreadID_loop roomID (refID # refs) =
     bindM (GetAccountData (messageKey roomID refID)) (\<lambda>(data, err).
     if err \<noteq> None then getThreadID_loop roomID refs
     else if goget data ''eventID'' = [] then getThreadID_loop roomID refs
     else
       bindM (GetEvent roomID (goget data ''eventID'')) (\<lambda>resp.
       case resp of
         Inl _ \<Rightarrow> getThreadID_loop roomID refs
       | Inr evt \<Rightarrow> returnM (e_id evt)))"

definition getThreadID :: "string \<Rightarrow> mailid \<Rightarrow> string \<Rightarrow> ('a bot_state_scheme, string) action" where
  "getThreadID roomID messageID references =
     getThreadID_loop roomID
       (messageID # (if references \<noteq> [] then Split (CHR '' '') references else []))"

definition setThreadID :: "string \<Rightarrow> mailid \<Rightarrow> string \<Rightarrow> ('a bot_state_scheme, unit) action" where
  "setThreadID roomID messageID eventID =
     bindM (SetAccountData (messageKey roomID messageID) (eventID_data eventID)) (\<lambda>_. skipM)"

definition getLastEventID :: "string \<Rightarrow> string \<Rightarrow> ('a bot_state_scheme, string) action" where
  "getLastEventID roomID threadID =
     bindM (GetAccountData (lastEventKey roomID threadID)) (\<lambda>(data, err).
     if err \<noteq> None then returnM threadID
     else if goget data ''eventID'' \<noteq> [] then returnM (goget data ''eventID'')
     else returnM threadID)"

definition setLastEventID :: "string \<Rightarrow> string \<Rightarrow> string \<Rightarrow> ('a bot_state_scheme, unit) action" where
  "setLastEventID roomID threadID eventID =
     bindM (SetAccountData (lastEventKey roomID threadID) (eventID_data eventID)) (\<lambda>_. skipM)"

section \<open>The parent of a reply\<close>

record parentEmail =
  pe_MessageID :: mailid
  pe_ThreadID :: string
  pe_From :: mailaddr
  pe_FromDomain :: string
  pe_To :: mailaddr
  pe_RcptTo :: mailaddr
  pe_CC :: string
  pe_InReplyTo :: mailid
  pe_References :: string
  pe_Subject :: string
  pe_Recipients :: "mailaddr list"

definition no_parent :: parentEmail where
  "no_parent =
     \<lparr>pe_MessageID = [], pe_ThreadID = [], pe_From = [], pe_FromDomain = [], pe_To = [], pe_RcptTo = [],
      pe_CC = [], pe_InReplyTo = [], pe_References = [], pe_Subject = [], pe_Recipients = []\<rparr>"

text \<open>The addresses of the room's mailbox, one per domain, and the one the email used.\<close>

definition new_senders :: "string \<Rightarrow> string list \<Rightarrow> mailaddr list" where
  "new_senders mailbox ds = map (\<lambda>d. mailbox @ ''@'' @ d) ds"

definition previous_sender :: "parentEmail \<Rightarrow> mailaddr list \<Rightarrow> mailaddr" where
  "previous_sender e senders =
     (if pe_From e \<in> set senders then pe_From e
      else if pe_To e \<in> set senders then pe_To e
      else if pe_RcptTo e \<in> set senders then pe_RcptTo e
      else [])"

fun replace_senders :: "string \<Rightarrow> mailaddr \<Rightarrow> mailaddr list \<Rightarrow> string" where
  "replace_senders cc originalFrom [] = cc"
| "replace_senders cc originalFrom (s # ss) =
     replace_senders (if Contains cc s then ReplaceAll cc s originalFrom else cc) originalFrom ss"

definition fixtofrom ::
  "externals \<Rightarrow> parentEmail \<Rightarrow> string \<Rightarrow> string list \<Rightarrow> (parentEmail \<times> mailaddr) res" where
  "fixtofrom X e newSenderMailbox ds =
     (let senders = new_senders newSenderMailbox ds;
          previousSender = previous_sender e senders in
      case SanitizeDomain ds (Hostname X previousSender) of
        Panic p \<Rightarrow> Panic p
      | Ret host \<Rightarrow>
          (let originalFrom = pe_From e in
           Ret (e\<lparr>pe_FromDomain := host,
                  pe_From := (if pe_From e \<in> set senders then pe_From e else previousSender),
                  pe_To := (if pe_To e \<in> set senders then originalFrom else pe_To e),
                  pe_CC := replace_senders (pe_CC e) originalFrom
                             (ext_range X (sortStrings (remdups senders)))\<rparr>,
                previousSender)))"

definition calculateRecipients ::
  "externals \<Rightarrow> parentEmail \<Rightarrow> mailaddr \<Rightarrow> mailaddr list \<Rightarrow> parentEmail" where
  "calculateRecipients X e from forwardedFrom =
     (let recipients = Address X (pe_From e) # Split (CHR '','') (Address X (pe_To e)) @
            AddressList X (pe_CC e);
          recipients = filter (\<lambda>a. a \<notin> set forwardedFrom \<and> a \<noteq> from) recipients in
      e\<lparr>pe_Recipients := map (Address X) (ext_range X (sortStrings (remdups recipients)))\<rparr>)"

text \<open>\<open>Decrypt\<close> on an event of an encrypted room.\<close>

definition Decrypt :: "mxevent \<Rightarrow> ('a bot_state_scheme, mxevent option) action" where
  "Decrypt evt = bindM api_call (\<lambda>err. returnM (if err = None then Some evt else None))"

definition getParentEvent :: "mxevent \<Rightarrow> ('a bot_state_scheme, string \<times> mxevent option) action" where
  "getParentEvent evt =
     (let threadID = EventParent (e_id evt) (e_content evt) in
      if threadID = e_id evt then returnM (threadID, Some evt)
      else
        bindM (getLastEventID (e_room evt) threadID) (\<lambda>lastEventID.
        if lastEventID = e_id evt then returnM (threadID, Some evt)
        else
          bindM (GetEvent (e_room evt) lastEventID) (\<lambda>res.
          case res of
            Inl _ \<Rightarrow> returnM (threadID, None)
          | Inr parentEvt \<Rightarrow>
              bindM (readM (\<lambda>w. e_room evt |\<in>| hs_encrypted w)) (\<lambda>encrypted.
              if \<not> encrypted then returnM (threadID, Some parentEvt)
              else bindM (Decrypt parentEvt) (\<lambda>decrypted. returnM (threadID, decrypted))))))"

definition parent_fields :: "externals \<Rightarrow> string \<Rightarrow> mxevent \<Rightarrow> parentEmail" where
  "parent_fields X threadID parentEvt =
     (let fld = EventField (e_content parentEvt) in
      no_parent\<lparr>pe_ThreadID := threadID,
        pe_From := Address X (fld eventFromKey), pe_To := Address X (fld eventToKey),
        pe_CC := Address X (fld eventCcKey), pe_RcptTo := Address X (fld eventRcptToKey),
        pe_InReplyTo := fld eventMessageIDkey, pe_References := fld eventReferencesKey\<rparr>)"

definition getParentEmail ::
  "externals \<Rightarrow> mxevent \<Rightarrow> string \<Rightarrow> ('a bot_state_scheme, parentEmail) action" where
  "getParentEmail X evt newFromMailbox =
     bindM (getParentEvent evt) (\<lambda>(threadID, parent).
     case parent of
       None \<Rightarrow> returnM (no_parent\<lparr>pe_ThreadID := threadID\<rparr>)
     | Some parentEvt \<Rightarrow>
         if e_id parentEvt = e_id evt then returnM (no_parent\<lparr>pe_ThreadID := threadID\<rparr>)
         else
           bindM (readM (\<lambda>w. (domains w, Forwarded (mbxc w)))) (\<lambda>(ds, forwarded).
           bindM (liftM (fixtofrom X (parent_fields X threadID parentEvt) newFromMailbox ds))
             (\<lambda>(parent, senderEmail).
           (let parent = calculateRecipients X parent senderEmail forwarded;
                messageID = MessageID (e_id parentEvt) (pe_FromDomain parent);
                subject = EventField (e_content parentEvt) eventSubjectKey in
            returnM (parent\<lparr>pe_MessageID := messageID,
              pe_InReplyTo := (if pe_InReplyTo parent = [] then messageID else pe_InReplyTo parent),
              pe_References := (if pe_References parent = [] then '' '' @ messageID
                                else pe_References parent),
              pe_Subject := (if subject \<noteq> [] then ''Re: '' @ subject
                             else hd (SplitN1 (CHR 0x0A) (c_body (e_content evt))))\<rparr>)))))"

section \<open>Notices about sent emails\<close>

definition saveSentMetadata ::
  "externals \<Rightarrow> ctx \<Rightarrow> bool \<Rightarrow> string \<Rightarrow> mailaddr \<Rightarrow> email \<Rightarrow> gomap \<Rightarrow> string option \<Rightarrow>
   ('a bot_state_scheme, unit) action" where
  "saveSentMetadata X c queued threadID to eml cfg textOverride =
     (let txt = (case textOverride of
                   Some t \<Rightarrow> t
                 | None \<Rightarrow> if queued then ''Email to '' @ to @ '' has been queued''
                           else ''Email has been sent to '' @ to);
          notice = ext_markdown X txt;
          content = (Content X eml threadID (ContentOptions cfg))
            \<lparr>c_notice := True, c_body := fst notice, c_formatted := snd notice,
             c_rel := RelatesTo threadID (Room_NoThreads cfg)\<rparr> in
      case ctxEvent c of
        None \<Rightarrow> panicM ''nil pointer dereference''
      | Some evt \<Rightarrow>
          bindM (lp_Send (e_room evt) content) (\<lambda>res.
          case res of
            Inl e \<Rightarrow> Bot_Error X c (''cannot send notice: '' @ e)
          | Inr msgID \<Rightarrow>
              bindM (readM domains) (\<lambda>ds.
              bindM (liftM (SanitizeDomain ds (Room_Domain cfg))) (\<lambda>host.
              thenM (setThreadID (e_room evt) (MessageID (e_id evt) host) threadID)
              (thenM (setThreadID (e_room evt) (MessageID msgID host) threadID)
              (setLastEventID (e_room evt) threadID msgID))))))"

text \<open>
  The delivery loop of replies and automatic replies; \<open>note\<close> is the text of the notice an
  automatic reply overrides.
\<close>

fun deliver_loop ::
  "externals \<Rightarrow> ctx \<Rightarrow> string \<Rightarrow> parentEmail \<Rightarrow> string \<Rightarrow> email \<Rightarrow> gomap \<Rightarrow>
   (string \<Rightarrow> bool \<Rightarrow> string option) \<Rightarrow> mailaddr list \<Rightarrow> ('a bot_state_scheme, unit) action" where
  "deliver_loop X c eventID meta data eml cfg note [] = skipM"
| "deliver_loop X c eventID meta data eml cfg note (to # tos) =
     bindM (Sendmail eventID (pe_From meta) to data (Room_Relay X cfg)) (\<lambda>(queued, err).
     thenM
       (if queued then saveSentMetadata X c True (pe_ThreadID meta) to eml cfg (note to True)
        else case err of
          Some e \<Rightarrow> Bot_Error X c (''cannot send email to '' @ GoQuote to @ '': '' @ e)
        | None \<Rightarrow> saveSentMetadata X c False (pe_ThreadID meta) to eml cfg (note to False))
     (deliver_loop X c eventID meta data eml cfg note tos))"

section \<open>Replies\<close>

definition canReply :: "externals \<Rightarrow> ctx \<Rightarrow> mxevent \<Rightarrow> ('a bot_state_scheme, bool) action" where
  "canReply X c evt =
     bindM (allowSend X (e_sender evt) (e_room evt)) (\<lambda>ok.
     if \<not> ok then returnM False else allowReply X c (e_sender evt) (e_room evt))"

definition clearReply :: "mxcontent \<Rightarrow> mxcontent" where
  "clearReply content =
     content\<lparr>
       c_body :=
         (if Contains (c_body content) ''> <@'' then
            (case Index (c_body content) (newline @ newline) of
               None \<Rightarrow> drop 1 (c_body content)
             | Some i \<Rightarrow> drop (i + 2) (c_body content))
          else c_body content),
       c_formatted :=
         (case Index (c_formatted content) ''</mx-reply>'' of
            None \<Rightarrow> c_formatted content
          | Some i \<Rightarrow> drop (i + 11) (c_formatted content))\<rparr>"

text \<open>Text and HTML of a reply, with the signature of the room.\<close>

definition signed_body :: "string \<Rightarrow> string \<Rightarrow> string" where
  "signed_body body signature =
     body @ (if signature \<noteq> [] then newline @ newline @ ''---'' @ newline @ signature else [])"

definition signed_html :: "gomap \<Rightarrow> string \<Rightarrow> string \<Rightarrow> string" where
  "signed_html cfg html signature =
     (if Room_NoHTML cfg then []
      else html @ (if html \<noteq> [] \<and> signature \<noteq> [] then ''<br><hr><br>'' @ signature else []))"

text \<open>The email a reply becomes.\<close>

definition reply_email ::
  "externals \<Rightarrow> int \<Rightarrow> parentEmail \<Rightarrow> gomap \<Rightarrow> string \<times> string \<Rightarrow> email" where
  "reply_email X now meta cfg content =
     (let signature = ext_markdown X (Room_Signature cfg) in
      email_New X now (pe_MessageID meta) (pe_InReplyTo meta) (pe_References meta) (pe_Subject meta)
        (pe_From meta) (pe_To meta) (pe_RcptTo meta) (pe_CC meta)
        (signed_body (fst content) (fst signature))
        (signed_html cfg (snd content) (snd signature)) [] [])"

definition stamp_reply :: "string \<Rightarrow> parentEmail \<Rightarrow> parentEmail" where
  "stamp_reply eventID meta =
     (let messageID = MessageID eventID (pe_FromDomain meta) in
      meta\<lparr>pe_MessageID := messageID, pe_References := pe_References meta @ '' '' @ messageID\<rparr>)"

text \<open>\<open>SendEmailReply\<close> from the composed parent on.\<close>

definition send_reply ::
  "externals \<Rightarrow> ctx \<Rightarrow> mxevent \<Rightarrow> gomap \<Rightarrow> parentEmail \<Rightarrow> ('a bot_state_scheme, unit) action" where
  "send_reply X c evt cfg meta =
     (let content = clearReply (e_content evt);
          meta = (if pe_Subject meta = []
                  then meta\<lparr>pe_Subject := hd (SplitN1 (CHR 0x0A) (c_body content))\<rparr> else meta);
          meta = stamp_reply (e_id evt) meta in
      bindM (readM now_sec) (\<lambda>now.
      (let eml = reply_email X now meta cfg (c_body content, c_formatted content) in
       bindM GetBot (\<lambda>bot.
       bindM (liftM (Compose X eml (DKIMPrivateKey bot))) (\<lambda>data.
       if data = [] then
         SendNotice X (e_room evt) ''email body is empty''
           (Some (RelatesTo (pe_ThreadID meta) (Room_NoThreads cfg)))
       else deliver_loop X c (e_id evt) meta data eml cfg (\<lambda>_ _. None) (pe_Recipients meta))))))"

definition SendEmailReply :: "externals \<Rightarrow> ctx \<Rightarrow> mxevent \<Rightarrow> ('a bot_state_scheme, unit) action" where
  "SendEmailReply X c evt =
     bindM (canReply X c evt) (\<lambda>ok.
     if \<not> ok then skipM
     else
       bindM (GetRoom (e_room evt)) (\<lambda>(cfg, err).
       case err of
         Some e \<Rightarrow> Bot_Error X c (''cannot retrieve room settings: '' @ e)
       | None \<Rightarrow>
           (let mailbox = Room_Mailbox cfg in
            if mailbox = [] then Bot_Error X c ''mailbox is not configured, kupo''
            else
              thenM (Bot_lock (e_room evt) (e_id evt))
              (deferM
                (bindM (getParentEmail X evt mailbox) (\<lambda>meta.
                 if pe_To meta = [] then
                   Bot_Error X c
                     ''cannot find parent email and continue the thread. Please, start a new email thread''
                 else if pe_ThreadID meta = [] then
                   bindM (getThreadID (e_room evt) (pe_InReplyTo meta) (pe_References meta)) (\<lambda>threadID.
                   send_reply X (threadIDToContext c threadID) evt cfg (meta\<lparr>pe_ThreadID := threadID\<rparr>))
                 else send_reply X c evt cfg meta))
                (Bot_unlock (e_room evt) (e_id evt))))))"

section \<open>Automatic replies\<close>

definition autoreply_note :: "string \<Rightarrow> bool \<Rightarrow> string option" where
  "autoreply_note to queued =
     Some (''Autoreply has been sent to '' @ to @ (if queued then '' (queued)'' else []))"

definition autoreply_event :: "externals \<Rightarrow> int \<Rightarrow> string \<Rightarrow> string \<Rightarrow> mxevent" where
  "autoreply_event X now roomID threadID =
     \<lparr>e_id = threadID @ ''-autoreply-'' @ ext_FormatCompact X now, e_room = roomID, e_sender = [],
      e_ts = 0,
      e_content = \<lparr>c_body = [], c_formatted = [], c_notice = False,
                   c_rel = Some \<lparr>rel_thread = threadID, rel_reply = []\<rparr>, c_raw = fmempty\<rparr>\<rparr>"

definition sendAutoreply :: "externals \<Rightarrow> ctx \<Rightarrow> string \<Rightarrow> string \<Rightarrow> ('a bot_state_scheme, unit) action" where
  "sendAutoreply X c roomID threadID =
     bindM (GetRoom roomID) (\<lambda>(cfg, err).
     if err \<noteq> None then skipM
     else
       (let txt = Room_Autoreply cfg in
        if txt = [] then skipM
        else
          bindM (GetEvent roomID threadID) (\<lambda>res.
          case res of
            Inl _ \<Rightarrow> skipM
          | Inr threadEvt \<Rightarrow>
              bindM (readM now_sec) (\<lambda>now.
              (let evt = autoreply_event X now roomID threadID in
               bindM (getParentEmail X evt (Room_Mailbox cfg)) (\<lambda>meta.
               if pe_To meta = [] then skipM
               else
                 (let meta = (if pe_ThreadID meta = [] then meta\<lparr>pe_ThreadID := threadID\<rparr> else meta);
                      meta = (if pe_Subject meta = [] then meta\<lparr>pe_Subject := ''Automatic response''\<rparr>
                              else meta);
                      meta = stamp_reply (e_id evt) meta;
                      eml = reply_email X now meta cfg (ext_markdown X txt) in
                  bindM GetBot (\<lambda>bot.
                  bindM (liftM (Compose X eml (DKIMPrivateKey bot))) (\<lambda>data.
                  if data = [] then skipM
                  else
                    deliver_loop X (newContext c threadEvt) (e_id evt) meta data eml cfg autoreply_note
                      (pe_Recipients meta))))))))))"

section \<open>Incoming emails\<close>

definition sendFiles ::
  "externals \<Rightarrow> ctx \<Rightarrow> string \<Rightarrow> gofile list \<Rightarrow> bool \<Rightarrow> string \<Rightarrow> ('a bot_state_scheme, unit) action" where
  "sendFiles X c roomID files noThreads parentID =
     forM files (\<lambda>file.
       bindM (SendFile roomID file (RelatesTo parentID noThreads)) (\<lambda>err.
       case err of
         None \<Rightarrow> skipM
       | Some e \<Rightarrow> Bot_Error X c (''cannot upload file '' @ f_name file @ '': '' @ e)))"

text \<open>The copy of a message that stripping might damage.\<close>

definition original_file :: "externals \<Rightarrow> mxcontent \<Rightarrow> gofile" where
  "original_file X content = NewFile X ''original.md'' (c_body content)"

text \<open>
  \<open>IncomingEmail\<close> after the message has been sent to the room. The email is a pointer: files
  the function appends stay appended for its caller, so the email is part of the result.
\<close>

definition incoming_rest ::
  "externals \<Rightarrow> ctx \<Rightarrow> string \<Rightarrow> gomap \<Rightarrow> email \<Rightarrow> bool \<Rightarrow> string \<Rightarrow>
   ('a bot_state_scheme, string option \<times> email) action" where
  "incoming_rest X c roomID cfg eml newThread threadID =
     (let opts = ContentOptions cfg;
          finish = (\<lambda>eml.
            thenM (if \<not> Room_NoInlines cfg
                   then sendFiles X c roomID (em_InlineFiles eml) (Room_NoThreads cfg) threadID else skipM)
            (thenM (if \<not> Room_NoFiles cfg
                    then sendFiles X c roomID (em_Files eml) (Room_NoThreads cfg) threadID else skipM)
            (thenM (if newThread \<and> Room_Autoreply cfg \<noteq> [] then sendAutoreply X c roomID threadID else skipM)
            (returnM (None, eml))))) in
      if newThread \<and> Room_Threadify cfg then
        (case (ContentBody X eml threadID (opts\<lparr>co_Stripify := False\<rparr>), ContentBody X eml threadID opts) of
           (Some original, Some content) \<Rightarrow>
             (let eml = (if Room_Stripify cfg
                         then eml\<lparr>em_Files := em_Files eml @ [original_file X original]\<rparr> else eml) in
              bindM (lp_Send roomID content) (\<lambda>res.
              case res of
                Inl e \<Rightarrow> returnM (Some e, eml)
              | Inr _ \<Rightarrow> finish eml))
         | _ \<Rightarrow> panicM ''nil pointer dereference'')
      else finish eml)"

text \<open>The thread an email continues, if any, and the context its reports go to.\<close>

definition incoming_thread :: "string \<Rightarrow> email \<Rightarrow> ('a bot_state_scheme, string) action" where
  "incoming_thread roomID eml =
     (if em_InReplyTo eml \<noteq> [] \<or> em_References eml \<noteq> [] then
        bindM (getThreadID roomID (em_InReplyTo eml) (em_References eml)) (\<lambda>threadID.
        thenM (if threadID \<noteq> [] then setThreadID roomID (em_MessageID eml) threadID else skipM)
        (returnM threadID))
      else returnM [])"

text \<open>
  The message in the room. When the homeserver refuses it with \<open>M_UNKNOWN\<close>, the function goes
  on as for a new thread, with an empty event identifier.
\<close>

definition incoming_send ::
  "externals \<Rightarrow> ctx \<Rightarrow> string \<Rightarrow> gomap \<Rightarrow> email \<Rightarrow> string \<Rightarrow>
   ('a bot_state_scheme, string option \<times> email) action" where
  "incoming_send X c roomID cfg eml threadID =
     bindM (lp_Send roomID (Content X eml threadID (ContentOptions cfg))) (\<lambda>sent.
     case sent of
       Inl e \<Rightarrow>
         if \<not> Contains e ''M_UNKNOWN'' then returnM (Some e, eml)
         else
           thenM (setThreadID roomID (em_MessageID eml) [])
           (thenM (setLastEventID roomID [] [])
           (incoming_rest X (threadIDToContext c []) roomID cfg eml True []))
     | Inr eventID \<Rightarrow>
         (let tid = (if threadID = [] then eventID else threadID) in
          thenM (setThreadID roomID (em_MessageID eml) tid)
          (thenM (setLastEventID roomID tid eventID)
          (incoming_rest X (threadIDToContext c tid) roomID cfg eml (threadID = []) tid))))"

definition IncomingEmail ::
  "externals \<Rightarrow> ctx \<Rightarrow> email \<Rightarrow> ('a bot_state_scheme, string option \<times> email) action" where
  "IncomingEmail X c eml =
     bindM (GetMapping (email_Mailbox X eml True)) (\<lambda>mapping.
     case mapping of
       None \<Rightarrow> returnM (Some ErrNoRoom, eml)
     | Some roomID \<Rightarrow>
         bindM (GetRoom roomID) (\<lambda>(cfg, err).
         thenM (case err of None \<Rightarrow> skipM | Some e \<Rightarrow> Bot_Error X c (''cannot get settings: '' @ e))
         (bindM (incoming_thread roomID eml) (\<lambda>threadID.
          (let opts = ContentOptions cfg;
               eml = (if Room_Stripify cfg \<and> \<not> Room_Threadify cfg
                      then eml\<lparr>em_Files := em_Files eml @
                             [original_file X (Content X eml threadID (opts\<lparr>co_Stripify := False\<rparr>))]\<rparr>
                      else eml) in
           incoming_send X c roomID cfg eml threadID)))))"

section \<open>Lemmas\<close>

subsection \<open>What the emails leave alone\<close>

text \<open>
  Deliveries change the state of the queue and of the mail client, but not the fields the bot
  itself adds: mailboxes, users, administrators.
\<close>

definition bot_frame :: "('a queue_state_scheme \<Rightarrow> bool) \<Rightarrow> bool" where
  "bot_frame I \<longleftrightarrow> (\<forall>w w'. queue_state.more w = queue_state.more w' \<longrightarrow> I w = I w')"

lemma bot_frame_lp: "bot_frame I \<Longrightarrow> lp_frame I"
proof -
  have "queue_state.more w = queue_state.more w'" if "lp_state.more w = lp_state.more w'"
    for w w' :: "'a queue_state_scheme"
    using that by (cases w; cases w') simp
  then show "bot_frame I \<Longrightarrow> lp_frame I" unfolding bot_frame_def lp_frame_def by metis
qed

lemma bot_frame_more [simp, intro]: "bot_frame (\<lambda>w. P (queue_state.more w))"
  by (simp add: bot_frame_def)

lemma preserves_sendmail: "bot_frame I \<Longrightarrow> preserves I (sendmail f t d r)"
proof (rule preservesI)
  fix w :: "'a queue_state_scheme"
  assume "bot_frame I" "I w"
  moreover have "queue_state.more (snd (sendmail f t d r w)) = queue_state.more w"
    by (simp add: sendmail_def Let_def split: option.split)
  ultimately show "I (snd (sendmail f t d r w))" unfolding bot_frame_def by metis
qed

lemma preserves_queue_Add [preserves_rules]: "lp_frame I \<Longrightarrow> preserves I (queue_Add i f t d r)"
  unfolding queue_Add_def by (intro preserves_rules)

lemma preserves_Sendmail [preserves_rules]: "bot_frame I \<Longrightarrow> preserves I (Sendmail i f t d r)"
  unfolding Sendmail_def by (intro preserves_rules preserves_sendmail bot_frame_lp)

lemma preserves_threads [preserves_rules]:
  "lp_frame I \<Longrightarrow> preserves I (setThreadID r m e)" "lp_frame I \<Longrightarrow> preserves I (setLastEventID r t e)"
  "lp_frame I \<Longrightarrow> preserves I (getLastEventID r t)"
  unfolding setThreadID_def setLastEventID_def getLastEventID_def by (intro preserves_rules; assumption)+

lemma preserves_getThreadID_loop: "lp_frame I \<Longrightarrow> preserves I (getThreadID_loop r refs)"
  by (induction refs) (auto intro!: preserves_rules)

lemma preserves_getThreadID [preserves_rules]: "lp_frame I \<Longrightarrow> preserves I (getThreadID r m refs)"
  unfolding getThreadID_def by (rule preserves_getThreadID_loop)

lemma preserves_getParentEmail [preserves_rules]: "lp_frame I \<Longrightarrow> preserves I (getParentEmail X evt m)"
  unfolding getParentEmail_def getParentEvent_def Decrypt_def by (intro preserves_rules)

lemma preserves_saveSentMetadata [preserves_rules]:
  "lp_frame I \<Longrightarrow> preserves I (saveSentMetadata X c q t to eml cfg txt)"
  unfolding saveSentMetadata_def by (intro preserves_rules)

lemma preserves_deliver_loop:
  "bot_frame I \<Longrightarrow> preserves I (deliver_loop X c i meta data eml cfg note tos)"
  by (induction tos) (auto intro!: preserves_rules bot_frame_lp)

lemma preserves_sendFiles [preserves_rules]: "lp_frame I \<Longrightarrow> preserves I (sendFiles X c r fs n p)"
  unfolding sendFiles_def by (intro preserves_rules)

lemma preserves_sendAutoreply [preserves_rules]: "bot_frame I \<Longrightarrow> preserves I (sendAutoreply X c r t)"
  unfolding sendAutoreply_def by (intro preserves_rules preserves_deliver_loop bot_frame_lp)

lemma preserves_incoming_rest [preserves_rules]:
  "bot_frame I \<Longrightarrow> preserves I (incoming_rest X c r cfg eml n t)"
  unfolding incoming_rest_def by (intro preserves_rules bot_frame_lp)

lemma preserves_IncomingEmail [preserves_rules]: "bot_frame I \<Longrightarrow> preserves I (IncomingEmail X c eml)"
  unfolding IncomingEmail_def incoming_thread_def incoming_send_def
  by (intro preserves_rules bot_frame_lp)

lemma preserves_send_reply [preserves_rules]: "bot_frame I \<Longrightarrow> preserves I (send_reply X c evt cfg meta)"
  unfolding send_reply_def by (intro preserves_rules preserves_deliver_loop bot_frame_lp)

lemma preserves_SendEmailReply [preserves_rules]: "bot_frame I \<Longrightarrow> preserves I (SendEmailReply X c evt)"
  unfolding SendEmailReply_def canReply_def Bot_lock_def Bot_unlock_def
  by (intro preserves_rules bot_frame_lp)

lemma preserves_email_getters [preserves_rules]:
  "lp_frame I \<Longrightarrow> preserves I GetDKIMprivkey" "lp_frame I \<Longrightarrow> preserves I (GetRelayConfig X r)"
  "lp_frame I \<Longrightarrow> preserves I (GetIFOptions r)"
  unfolding GetDKIMprivkey_def GetRelayConfig_def GetIFOptions_def by (intro preserves_rules; assumption)+

end
