(* ===== verification/Commands_Owner.thy ===== *)
theory Commands_Owner
  imports Commands
begin

text \<open>
  The commands of a room's owner (internal/bot/command_owner.go): options, mailbox, aliases,
  password, relay and the spam list. A write to the settings a handler read shows in the cache
  at once (\<open>RoomSetOption\<close>), before it is stored.
\<close>

definition Room_failed :: "externals \<Rightarrow> ctx \<Rightarrow> string \<Rightarrow> string \<Rightarrow> ('a bot_state_scheme, unit) action" where
  "Room_failed X c what e = Bot_Error X c (what @ '': '' @ e)"

text \<open>The end most handlers share: store the settings, then answer.\<close>

definition store_answer ::
  "externals \<Rightarrow> ctx \<Rightarrow> mxevent \<Rightarrow> gomap \<Rightarrow> string \<Rightarrow> string \<Rightarrow> ('a bot_state_scheme, unit) action" where
  "store_answer X c evt cfg failure msg =
     bindM (SetRoom (e_room evt) cfg) (\<lambda>err.
     case err of
       Some e \<Rightarrow> Room_failed X c failure e
     | None \<Rightarrow> answer X evt cfg msg)"

definition runStop :: "externals \<Rightarrow> ctx \<Rightarrow> mxevent \<Rightarrow> ('a bot_state_scheme, unit) action" where
  "runStop X c evt =
     bindM (GetRoom (e_room evt)) (\<lambda>(cfg, err).
     case err of
       Some e \<Rightarrow> Room_failed X c ''failed to retrieve settings'' e
     | None \<Rightarrow>
         (let mailbox = Room_Get cfg RoomMailbox in
          if mailbox = [] then answer X evt cfg ''that room is not configured yet''
          else
            thenM (rooms_Delete mailbox)
            (bindM (SetRoom (e_room evt) fmempty) (\<lambda>err.
             case err of
               Some e \<Rightarrow> Room_failed X c ''cannot update settings'' e
             | None \<Rightarrow> answer X evt cfg ''mailbox has been disabled''))))"

definition getOption :: "externals \<Rightarrow> ctx \<Rightarrow> mxevent \<Rightarrow> string \<Rightarrow> ('a bot_state_scheme, unit) action" where
  "getOption X c evt name =
     bindM (GetRoom (e_room evt)) (\<lambda>(cfg, err).
     case err of
       Some e \<Rightarrow> Room_failed X c ''failed to retrieve settings'' e
     | None \<Rightarrow>
         (let name = (if name = commandSpamlist then RoomSpamlist else name);
              v = Room_Get cfg name in
          bindM (readM (\<lambda>w. (prefix w, domains w))) (\<lambda>(pref, ds).
          if v = [] then
            answer X evt cfg (''`'' @ name @ ''` is not set, kupo.'' @ newline @
              ''To set it, send a `'' @ pref @ '' '' @ name @ '' VALUE` command.'')
          else
            bindM (if name = RoomMailbox then liftM (EmailsList ds v (Room_Domain cfg))
                   else returnM v) (\<lambda>v.
            answer X evt cfg
              (if name = RoomPassword then
                 ''There is an SMTP password already set for this room/mailbox. '' @
                 ''It's stored in a secure hashed manner, so we can't tell you what the original raw password was. '' @
                 ''To find the raw password, try to find your old message which had originally set it, '' @
                 ''or just set a new one with `'' @ pref @ '' '' @ name @ '' NEW_PASSWORD`.''
               else
                 ''`'' @ name @ ''` of this room is:'' @ newline @ ''```'' @ newline @ v @ newline @ ''```'' @
                 newline @ ''To set it to a new value, send a `'' @ pref @ '' '' @ name @
                 '' VALUE` command.'')))))"

text \<open>A mailbox is taken when it belongs to another room, or is reserved.\<close>

definition taken :: "mxevent \<Rightarrow> string \<Rightarrow> ('a bot_state_scheme, bool) action" where
  "taken evt mailbox =
     bindM (getMapping mailbox) (\<lambda>mapping.
     bindM (isReserved mailbox) (\<lambda>reserved.
     returnM ((case mapping of None \<Rightarrow> False | Some r \<Rightarrow> r \<noteq> [] \<and> r \<noteq> e_room evt) \<or> reserved)))"

definition already_taken :: "externals \<Rightarrow> mxevent \<Rightarrow> string \<Rightarrow> ('a bot_state_scheme, unit) action" where
  "already_taken X evt v =
     bindM (readM domains) (\<lambda>ds.
     bindM (liftM (EmailsList ds v [])) (\<lambda>emails.
     SendNotice X (e_room evt) (''Mailbox `'' @ v @ ''` ('' @ emails @ '') already taken, kupo'') None))"

definition setMailbox :: "externals \<Rightarrow> ctx \<Rightarrow> mxevent \<Rightarrow> string \<Rightarrow> ('a bot_state_scheme, unit) action" where
  "setMailbox X c evt v =
     bindM (taken evt v) (\<lambda>tk.
     if tk then already_taken X evt v
     else
       bindM (GetRoom (e_room evt)) (\<lambda>(cfg, err).
       case err of
         Some e \<Rightarrow> Room_failed X c ''failed to retrieve settings'' e
       | None \<Rightarrow>
           (let old = Room_Get cfg RoomMailbox in
            bindM (RoomSetOption (e_room evt) cfg RoomMailbox v) (\<lambda>cfg.
            bindM (RoomSetOption (e_room evt) cfg RoomOwner (e_sender evt)) (\<lambda>cfg.
            thenM (if old \<noteq> [] then rooms_Delete old else skipM)
            (bindM (ActivateMailbox X (e_sender evt) (e_room evt) v) (\<lambda>active.
             bindM (RoomSetOption (e_room evt) cfg RoomActive (FormatBool active)) (\<lambda>cfg.
             bindM (readM domains) (\<lambda>ds.
             bindM (liftM (SanitizeDomain ds (Room_Domain cfg))) (\<lambda>host.
             store_answer X c evt cfg ''cannot update settings''
               (''mailbox of this room set to `'' @ v @ ''@'' @ host @ ''`'')))))))))))"

text \<open>The check loop of \<open>setAliases\<close>: is any of the aliases taken?\<close>

fun any_taken :: "mxevent \<Rightarrow> string list \<Rightarrow> ('a bot_state_scheme, bool) action" where
  "any_taken evt [] = returnM False"
| "any_taken evt (a # as) =
     bindM (taken evt a) (\<lambda>tk. if tk then returnM True else any_taken evt as)"

text \<open>
  The second loop of \<open>setAliases\<close>. It activates the whole argument, not the alias, and
  returns the addresses for the answer.
\<close>

fun alias_loop ::
  "externals \<Rightarrow> mxevent \<Rightarrow> gomap \<Rightarrow> string \<Rightarrow> string list \<Rightarrow> string list \<Rightarrow>
   ('a bot_state_scheme, string list) action" where
  "alias_loop X evt cfg v old [] = returnM []"
| "alias_loop X evt cfg v old (a # as) =
     thenM (if a \<notin> set old then bindM (ActivateAlias X (e_sender evt) (e_room evt) v) (\<lambda>_. skipM)
            else skipM)
     (bindM (readM domains) (\<lambda>ds.
      bindM (liftM (SanitizeDomain ds (Room_Domain cfg))) (\<lambda>host.
      bindM (alias_loop X evt cfg v old as) (\<lambda>rest.
      returnM ((a @ ''@'' @ host) # rest)))))"

definition setAliases :: "externals \<Rightarrow> ctx \<Rightarrow> mxevent \<Rightarrow> string \<Rightarrow> ('a bot_state_scheme, unit) action" where
  "setAliases X c evt v =
     (let aliases = Split (CHR '','') v in
      bindM (any_taken evt aliases) (\<lambda>tk.
      if tk then already_taken X evt v
      else
        bindM (GetRoom (e_room evt)) (\<lambda>(cfg, err).
        case err of
          Some e \<Rightarrow> Room_failed X c ''failed to retrieve settings'' e
        | None \<Rightarrow>
            (let old = Room_Get cfg RoomAliases;
                 oldAliases = StringSlice old in
             bindM (RoomSetOption (e_room evt) cfg RoomAliases v) (\<lambda>cfg.
             bindM (RoomSetOption (e_room evt) cfg RoomOwner (e_sender evt)) (\<lambda>cfg.
             thenM (if old \<noteq> [] then rooms_Delete old else skipM)
             (bindM (alias_loop X evt cfg v oldAliases aliases) (\<lambda>valueParts.
              store_answer X c evt cfg ''cannot update settings''
                (''aliases of this room set to `'' @ SliceString valueParts @ ''`'')))))))))"

definition setPassword :: "externals \<Rightarrow> ctx \<Rightarrow> mxevent \<Rightarrow> ('a bot_state_scheme, unit) action" where
  "setPassword X c evt =
     bindM (GetRoom (e_room evt)) (\<lambda>(cfg, err).
     case err of
       Some e \<Rightarrow> Room_failed X c ''failed to retrieve settings'' e
     | None \<Rightarrow>
         bindM (original_arg evt) (\<lambda>v.
         case ext_hash X v of
           Inl e \<Rightarrow> Room_failed X c ''failed to hash password'' e
         | Inr hash \<Rightarrow>
             bindM (RoomSetOption (e_room evt) cfg RoomPassword hash) (\<lambda>cfg.
             store_answer X c evt cfg ''cannot update settings'' ''SMTP password has been set'')))"

definition setRelay :: "externals \<Rightarrow> ctx \<Rightarrow> mxevent \<Rightarrow> ('a bot_state_scheme, unit) action" where
  "setRelay X c evt =
     bindM (GetRoom (e_room evt)) (\<lambda>(cfg, err).
     case err of
       Some e \<Rightarrow> Room_failed X c ''failed to retrieve settings'' e
     | None \<Rightarrow>
         bindM (original_arg evt) (\<lambda>v.
         bindM (RoomSetOption (e_room evt) cfg RoomRelay (if v = ''reset'' then [] else v)) (\<lambda>cfg.
         store_answer X c evt cfg ''cannot update settings'' ''Relay config has been set'')))"

text \<open>The argument of an option whose text keeps its case: everything behind the name.\<close>

definition original_text :: "mxevent \<Rightarrow> ('a bot_state_scheme, string) action" where
  "original_text evt =
     bindM (readM prefix) (\<lambda>pref.
     case parseCommand pref (c_body (e_content evt)) False of
       Some (_ # args) \<Rightarrow> returnM (Join args '' '')
     | _ \<Rightarrow> panicM ''slice bounds out of range'')"

definition setOption ::
  "externals \<Rightarrow> ctx \<Rightarrow> mxevent \<Rightarrow> string \<Rightarrow> string \<Rightarrow> ('a bot_state_scheme, unit) action" where
  "setOption X c evt name v =
     bindM (readM domains) (\<lambda>ds.
     bindM (liftM (case commandList_get initCommands name of
                     None \<Rightarrow> Ret v
                   | Some command \<Rightarrow>
                       (case cmd_sanitizer command of
                          None \<Rightarrow> Ret v
                        | Some s \<Rightarrow> run_sanitizer X ds s v))) (\<lambda>v.
     bindM (GetRoom (e_room evt)) (\<lambda>(cfg, err).
     case err of
       Some e \<Rightarrow> Room_failed X c ''failed to retrieve settings'' e
     | None \<Rightarrow>
         bindM (if name = RoomAutoreply \<or> name = RoomSignature then original_text evt
                else returnM v) (\<lambda>v.
         (let v = (if v = ''reset'' then [] else v) in
          if Room_Get cfg name = v then answer X evt cfg ''nothing changed, kupo.''
          else
            bindM (RoomSetOption (e_room evt) cfg name v) (\<lambda>cfg.
            store_answer X c evt cfg ''cannot update settings''
              (''`'' @ name @ ''` of this room set to:'' @ newline @ ''```'' @ newline @ v @ newline @ ''```'')))))))"

definition handleOption ::
  "externals \<Rightarrow> ctx \<Rightarrow> mxevent \<Rightarrow> string list \<Rightarrow> ('a bot_state_scheme, unit) action" where
  "handleOption X c evt command =
     (case command of
        [] \<Rightarrow> panicM ''index out of range''
      | [name] \<Rightarrow> getOption X c evt name
      | name # v # _ \<Rightarrow>
          if name = RoomActive then skipM
          else if name = RoomMailbox then setMailbox X c evt v
          else if name = RoomAliases then setAliases X c evt v
          else if name = RoomPassword then setPassword X c evt
          else if name = RoomRelay then setRelay X c evt
          else setOption X c evt name v)"

section \<open>The spam list\<close>

fun add_items :: "string list \<Rightarrow> string list \<Rightarrow> string list" where
  "add_items spamlist [] = spamlist"
| "add_items spamlist (i # is) =
     add_items (if TrimSpace i \<in> set spamlist then spamlist else spamlist @ [TrimSpace i]) is"

text \<open>The settings under the key itself, not through \<open>Get\<close>, as these handlers read them.\<close>

definition raw_spamlist :: "gomap \<Rightarrow> string list" where
  "raw_spamlist cfg = StringSlice (goget cfg RoomSpamlist)"

definition runSpamlistAdd ::
  "externals \<Rightarrow> ctx \<Rightarrow> mxevent \<Rightarrow> string list \<Rightarrow> ('a bot_state_scheme, unit) action" where
  "runSpamlistAdd X c evt commandSlice =
     (if length commandSlice < 2 then getOption X c evt RoomSpamlist
      else
        bindM (GetRoom (e_room evt)) (\<lambda>(cfg, err).
        case err of
          Some e \<Rightarrow> Room_failed X c ''cannot get room settings'' e
        | None \<Rightarrow>
            bindM (RoomSetOption (e_room evt) cfg RoomSpamlist
                     (SliceString (add_items (raw_spamlist cfg) (drop 1 commandSlice)))) (\<lambda>cfg.
            bindM (SetRoom (e_room evt) cfg) (\<lambda>err.
            case err of
              Some e \<Rightarrow> Room_failed X c ''cannot store room settings'' e
            | None \<Rightarrow>
                (let threadID = (if threadIDFromContext c = [] then e_id evt else threadIDFromContext c) in
                 SendNotice X (e_room evt) ''spamlist has been updated, kupo''
                   (Some (RelatesTo threadID (Room_NoThreads cfg))))))))"

text \<open>The position of the first occurrence, as \<open>slices.Index\<close> gives it.\<close>

fun index_of :: "string list \<Rightarrow> string \<Rightarrow> nat option" where
  "index_of [] y = None"
| "index_of (x # xs) y = (if x = y then Some 0 else map_option Suc (index_of xs y))"

definition to_remove :: "string list \<Rightarrow> string list \<Rightarrow> nat list" where
  "to_remove spamlist items = List.map_filter (\<lambda>i. index_of spamlist (TrimSpace i)) items"

definition without_positions :: "nat list \<Rightarrow> 'b list \<Rightarrow> 'b list" where
  "without_positions ps xs = map snd (filter (\<lambda>(i, _). i \<notin> set ps) (enumerate 0 xs))"

definition runSpamlistRemove ::
  "externals \<Rightarrow> ctx \<Rightarrow> mxevent \<Rightarrow> string list \<Rightarrow> ('a bot_state_scheme, unit) action" where
  "runSpamlistRemove X c evt commandSlice =
     (if length commandSlice < 2 then getOption X c evt RoomSpamlist
      else
        bindM (GetRoom (e_room evt)) (\<lambda>(cfg, err).
        case err of
          Some e \<Rightarrow> Room_failed X c ''cannot get room settings'' e
        | None \<Rightarrow>
            (let spamlist = raw_spamlist cfg;
                 positions = to_remove spamlist (drop 1 commandSlice) in
             if positions = [] then answer X evt cfg ''nothing new, kupo.''
             else
               bindM (RoomSetOption (e_room evt) cfg RoomSpamlist
                        (SliceString (without_positions positions spamlist))) (\<lambda>cfg.
               store_answer X c evt cfg ''cannot store room settings'' ''spamlist has been updated, kupo''))))"

definition runSpamlistReset :: "externals \<Rightarrow> ctx \<Rightarrow> mxevent \<Rightarrow> ('a bot_state_scheme, unit) action" where
  "runSpamlistReset X c evt =
     bindM (GetRoom (e_room evt)) (\<lambda>(cfg, err).
     case err of
       Some e \<Rightarrow> Room_failed X c ''cannot get room settings'' e
     | None \<Rightarrow>
         if raw_spamlist cfg = [] then answer X evt cfg ''spamlist is empty, kupo.''
         else
           bindM (RoomSetOption (e_room evt) cfg RoomSpamlist []) (\<lambda>cfg.
           store_answer X c evt cfg ''cannot store room settings'' ''spamlist has been reset, kupo.''))"

end
