(* ===== verification/Commands_Admin.thy ===== *)
theory Commands_Admin
  imports Commands
begin

text \<open>
  The commands of an administrator (internal/bot/command_admin.go): mailboxes, allowed users,
  DKIM, catch-all, admin room, grey- and banlist.
\<close>

text \<open>A notice in answer to the event, always in a thread.\<close>

definition reply_notice :: "externals \<Rightarrow> mxevent \<Rightarrow> string \<Rightarrow> ('a bot_state_scheme, unit) action" where
  "reply_notice X evt msg = SendNotice X (e_room evt) msg (Some (RelatesTo (e_id evt) False))"

section \<open>Mailboxes\<close>

text \<open>The range over the mailboxes, which reads the settings of each one's room.\<close>

fun mailboxes_loop ::
  "(string, string) fmap \<Rightarrow> string list \<Rightarrow> ('a bot_state_scheme, (string \<times> gomap \<times> string) list) action" where
  "mailboxes_loop rs [] = returnM []"
| "mailboxes_loop rs (m # ms) =
     (let roomID = (case fmlookup rs m of None \<Rightarrow> [] | Some r \<Rightarrow> r) in
      bindM (GetRoom roomID) (\<lambda>(cfg, _).
      bindM (mailboxes_loop rs ms) (\<lambda>rest. returnM ((m, cfg, roomID) # rest))))"

fun mailboxes_text :: "string list \<Rightarrow> (string \<times> gomap \<times> string) list \<Rightarrow> string list \<Rightarrow> string res" where
  "mailboxes_text ds infos [] = Ret []"
| "mailboxes_text ds infos (m # ms) =
     (case map_of infos m of
        None \<Rightarrow> mailboxes_text ds infos ms
      | Some (cfg, roomID) \<Rightarrow>
          (case EmailsList ds m (Room_Domain cfg) of
             Panic p \<Rightarrow> Panic p
           | Ret emails \<Rightarrow>
               (case mailboxes_text ds infos ms of
                  Panic p \<Rightarrow> Panic p
                | Ret rest \<Rightarrow>
                    Ret (''* `'' @ emails @ ''` by '' @ Room_Owner cfg @ '' in ['' @ roomID @
                      ''](https://matrix.to/#/'' @ roomID @ '')'' @ newline @ rest))))"

definition sendMailboxes :: "externals \<Rightarrow> mxevent \<Rightarrow> ('a bot_state_scheme, unit) action" where
  "sendMailboxes X evt =
     bindM (readM (\<lambda>w. (rooms w, domains w))) (\<lambda>(rs, ds).
     bindM (mailboxes_loop rs (ext_range X (sorted_list_of_fset (fmdom rs)))) (\<lambda>infos.
     (let slice = sortStrings (map fst infos) in
      if slice = [] then reply_notice X evt ''No mailboxes are managed by the bot so far, kupo!''
      else
        bindM (liftM (mailboxes_text ds infos slice)) (\<lambda>txt.
        reply_notice X evt (''The following mailboxes are managed by the bot:'' @ newline @ txt)))))"

definition runDelete ::
  "externals \<Rightarrow> ctx \<Rightarrow> mxevent \<Rightarrow> string list \<Rightarrow> ('a bot_state_scheme, unit) action" where
  "runDelete X c evt commandSlice =
     (if length commandSlice < 2 then
        bindM (readM prefix) (\<lambda>pref. reply_notice X evt (''Usage: `'' @ pref @ '' delete MAILBOX`''))
      else
        (let mailbox = Mailbox X (commandSlice ! 1) in
         bindM (readM (\<lambda>w. fmlookup (rooms w) mailbox)) (\<lambda>mapping.
         case mapping of
           None \<Rightarrow> reply_notice X evt ''mailbox does not exists, kupo''
         | Some roomID \<Rightarrow>
             thenM (rooms_Delete mailbox)
             (bindM (SetRoom roomID fmempty) (\<lambda>err.
              case err of
                Some e \<Rightarrow> Bot_Error X c (''cannot update settings: '' @ e)
              | None \<Rightarrow> reply_notice X evt ''mailbox has been deleted'')))))"

section \<open>Options of the bot\<close>

definition users_usage :: "string \<Rightarrow> gomap \<Rightarrow> string" where
  "users_usage pref cfg =
     (if Users cfg \<noteq> [] then ''Currently: `'' @ Join (Users cfg) '' '' @ ''`'' @ newline @ newline else []) @
     ''Usage: `'' @ pref @ '' users PATTERN1 PATTERN2 PATTERN3...`'' @
     ''where each pattern is like `@someone:example.com`, '' @
     ''`@bot.*:example.com`, `@*:another.com`, or `@*:*`'' @ newline"

definition runUsers ::
  "externals \<Rightarrow> ctx \<Rightarrow> mxevent \<Rightarrow> string list \<Rightarrow> ('a bot_state_scheme, unit) action" where
  "runUsers X c evt commandSlice =
     bindM GetBot (\<lambda>cfg.
     if length commandSlice < 2 then
       bindM (readM prefix) (\<lambda>pref. reply_notice X evt (users_usage pref cfg))
     else
       bindM (readM lp_user) (\<lambda>u.
       thenM (case user_homeserver u of
                Some _ \<Rightarrow> skipM
              | None \<Rightarrow> reply_notice X evt (''invalid userID: '' @ invalid_user u))
       (let homeserver = (case user_homeserver u of Some h \<Rightarrow> h | None \<Rightarrow> []);
            patterns = drop 1 commandSlice in
        case parseMXIDpatterns patterns (''@*:'' @ homeserver) of
          Inl e \<Rightarrow> reply_notice X evt (''invalid patterns: '' @ e)
        | Inr allowed \<Rightarrow>
            bindM (BotSetOption cfg BotUsers (Join patterns '' '')) (\<lambda>cfg.
            bindM (SetBot cfg) (\<lambda>err.
            thenM (case err of
                     None \<Rightarrow> skipM
                   | Some e \<Rightarrow> Bot_Error X c (''cannot set bot config: '' @ e))
            (thenM (modifyM (\<lambda>w. w\<lparr>allowedUsers := allowed\<rparr>))
            (reply_notice X evt ''allowed users updated'')))))))"

definition dkim_text :: "string \<Rightarrow> string \<Rightarrow> string" where
  "dkim_text pref signature =
     ''DKIM signature is: `'' @ signature @ ''`.'' @ newline @
     ''You need to add it to DNS records of all domains added to postmoogle (if not already):'' @ newline @
     ''Add new DNS record with type = `TXT`, key (subdomain/from): `postmoogle._domainkey` and value (to):'' @
     newline @ '' ```'' @ newline @ signature @ newline @ ''```'' @ newline @
     ''Without that record other email servers may reject your emails as spam, kupo.'' @ newline @
     ''To reset the signature, send `'' @ pref @ '' dkim reset`''"

definition runDKIM ::
  "externals \<Rightarrow> ctx \<Rightarrow> mxevent \<Rightarrow> string list \<Rightarrow> ('a bot_state_scheme, unit) action" where
  "runDKIM X c evt commandSlice =
     bindM GetBot (\<lambda>cfg.
     bindM (if length commandSlice > 1 \<and> commandSlice ! 1 = ''reset'' then
              bindM (BotSetOption cfg BotDKIMPrivateKey []) (\<lambda>cfg. BotSetOption cfg BotDKIMSignature [])
            else returnM cfg) (\<lambda>cfg.
     bindM (readM prefix) (\<lambda>pref.
     (let signature = DKIMSignature cfg in
      if signature \<noteq> [] then reply_notice X evt (dkim_text pref signature)
      else
        (case ext_dkim X of
           Inl e \<Rightarrow> Bot_Error X c (''cannot generate DKIM signature: '' @ e)
         | Inr (signature, private) \<Rightarrow>
             bindM (BotSetOption cfg BotDKIMSignature signature) (\<lambda>cfg.
             bindM (BotSetOption cfg BotDKIMPrivateKey private) (\<lambda>cfg.
             bindM (SetBot cfg) (\<lambda>err.
             case err of
               Some e \<Rightarrow> Bot_Error X c (''cannot save bot options: '' @ e)
             | None \<Rightarrow> reply_notice X evt (dkim_text pref signature)))))))))"

definition catchall_usage :: "string \<Rightarrow> string \<Rightarrow> string \<Rightarrow> string" where
  "catchall_usage pref catchAll emails =
     ''Currently: `'' @
     (if catchAll \<noteq> [] then catchAll @ '' ('' @ emails @ '')'' else ''not set'') @
     ''`'' @ newline @ newline @ ''Usage: `'' @ pref @ '' catch-all MAILBOX`'' @
     ''where mailbox is valid and existing mailbox name'' @ newline"

definition runCatchAll ::
  "externals \<Rightarrow> ctx \<Rightarrow> mxevent \<Rightarrow> string list \<Rightarrow> ('a bot_state_scheme, unit) action" where
  "runCatchAll X c evt commandSlice =
     bindM GetBot (\<lambda>cfg.
     bindM (readM (\<lambda>w. (prefix w, domains w))) (\<lambda>(pref, ds).
     if length commandSlice < 2 then
       bindM (if CatchAll cfg \<noteq> [] then liftM (EmailsList ds (CatchAll cfg) []) else returnM []) (\<lambda>emails.
       reply_notice X evt (catchall_usage pref (CatchAll cfg) emails))
     else
       (let mailbox = Mailbox X (commandSlice ! 1) in
        bindM (GetMapping mailbox) (\<lambda>mapping.
        if mapping = None then reply_notice X evt ''mailbox does not exist, kupo.''
        else
          bindM (BotSetOption cfg BotCatchAll mailbox) (\<lambda>cfg.
          bindM (SetBot cfg) (\<lambda>err.
          case err of
            Some e \<Rightarrow> Bot_Error X c (''cannot save bot options: '' @ e)
          | None \<Rightarrow>
              bindM (liftM (EmailsList ds mailbox [])) (\<lambda>emails.
              reply_notice X evt (''Catch-all is set to: `'' @ mailbox @ ''` ('' @ emails @ '').''))))))))"

definition adminroom_usage :: "string \<Rightarrow> gomap \<Rightarrow> string" where
  "adminroom_usage pref cfg =
     ''Currently: `'' @ (if AdminRoom cfg \<noteq> [] then AdminRoom cfg else ''not set'') @ ''`'' @ newline @ newline @
     ''Usage: `'' @ pref @ '' adminroom ROOM_ID`'' @
     ''where ROOM_ID is valid and existing matrix room id'' @ newline"

definition runAdminRoom ::
  "externals \<Rightarrow> ctx \<Rightarrow> mxevent \<Rightarrow> string list \<Rightarrow> ('a bot_state_scheme, unit) action" where
  "runAdminRoom X c evt commandSlice =
     bindM GetBot (\<lambda>cfg.
     if length commandSlice < 2 then
       bindM (readM prefix) (\<lambda>pref. reply_notice X evt (adminroom_usage pref cfg))
     else
       bindM (original_arg evt) (\<lambda>roomID.
       bindM (BotSetOption cfg BotAdminRoom roomID) (\<lambda>cfg.
       bindM (SetBot cfg) (\<lambda>err.
       case err of
         Some e \<Rightarrow> Bot_Error X c (''cannot save bot options: '' @ e)
       | None \<Rightarrow>
           thenM (modifyM (\<lambda>w. w\<lparr>adminRooms := roomID # adminRooms w\<rparr>))
           (reply_notice X evt (''Admin Room is set to: `'' @ roomID @ ''`.''))))))"

section \<open>Greylist\<close>

definition greylist_text :: "string \<Rightarrow> gomap \<Rightarrow> gomap \<Rightarrow> string" where
  "greylist_text pref cfg greylist =
     (let size = fcard (fmdom greylist); duration = Greylist cfg in
      ''Currently: `'' @ (if duration = 0 then ''disabled'' else Bot_Get cfg BotGreylist @ ''min'') @ ''`'' @
      (if size > 0 then
         '', total known: '' @ Itoa (int size) @ '' hosts (`'' @ Join (List_Slice greylist) ''`, `'' @ ''`)'' @
         newline @ newline
       else []) @
      (if duration = 0 then
         newline @ newline @ ''To enable greylist: `'' @ pref @ '' greylist MIN`'' @
         ''where `MIN` is duration in minutes for automatic greylisting'' @ newline
       else []))"

definition printGreylist :: "externals \<Rightarrow> mxevent \<Rightarrow> ('a bot_state_scheme, unit) action" where
  "printGreylist X evt =
     bindM GetBot (\<lambda>cfg.
     bindM GetGreylist (\<lambda>greylist.
     bindM (readM prefix) (\<lambda>pref. reply_notice X evt (greylist_text pref cfg greylist))))"

text \<open>The end the option commands share: a failure to store is reported, and the answer comes anyway.\<close>

definition set_bot_option ::
  "externals \<Rightarrow> ctx \<Rightarrow> mxevent \<Rightarrow> gomap \<Rightarrow> string \<Rightarrow> string \<Rightarrow> string \<Rightarrow> ('a bot_state_scheme, unit) action" where
  "set_bot_option X c evt cfg key v msg =
     bindM (BotSetOption cfg key v) (\<lambda>cfg.
     bindM (SetBot cfg) (\<lambda>err.
     thenM (case err of None \<Rightarrow> skipM | Some e \<Rightarrow> Bot_Error X c (''cannot set bot config: '' @ e))
     (reply_notice X evt msg)))"

definition runGreylist ::
  "externals \<Rightarrow> ctx \<Rightarrow> mxevent \<Rightarrow> string list \<Rightarrow> ('a bot_state_scheme, unit) action" where
  "runGreylist X c evt commandSlice =
     (if length commandSlice < 2 then printGreylist X evt
      else
        bindM GetBot (\<lambda>cfg.
        set_bot_option X c evt cfg BotGreylist (SanitizeIntString (commandSlice ! 1))
          ''greylist duration has been updated''))"

section \<open>Banlist\<close>

text \<open>The zero time of Go, in seconds, which a failed parse gives too.\<close>

definition zero_time :: int where
  "zero_time = -62135596800"

definition ban_day :: "externals \<Rightarrow> string \<Rightarrow> string" where
  "ban_day X ts =
     (case ext_ParseTime X ts of
        None \<Rightarrow> ''???''
      | Some t \<Rightarrow> if t = zero_time then ''???'' else ext_DateOnly X t)"

definition timeline_ips :: "externals \<Rightarrow> gomap \<Rightarrow> string \<Rightarrow> string list" where
  "timeline_ips X banlist day =
     sortStrings (filter (\<lambda>ip. ban_day X (goget banlist ip) = day) (List_Slice banlist))"

definition timeline_days :: "externals \<Rightarrow> gomap \<Rightarrow> string list" where
  "timeline_days X banlist =
     sortStrings (remdups (map (\<lambda>ip. ban_day X (goget banlist ip)) (List_Slice banlist)))"

definition day_text :: "externals \<Rightarrow> gomap \<Rightarrow> bool \<Rightarrow> string \<Rightarrow> string" where
  "day_text X banlist onlyTotals day =
     (let data = timeline_ips X banlist day in
      ''* `'' @ day @
      (if onlyTotals then ''` '' @ Itoa (int (length data)) @ '' hosts banned'' @ newline
       else ''` `'' @ Join data ''`, `'' @ ''`'' @ newline))"

definition addBanlistTimeline :: "externals \<Rightarrow> mxevent \<Rightarrow> bool \<Rightarrow> ('a bot_state_scheme, unit) action" where
  "addBanlistTimeline X evt onlyTotals =
     bindM GetBanlist (\<lambda>banlist.
     bindM (liftM (Chunks (timeline_days X banlist) 7)) (\<lambda>chunks.
     forM chunks (\<lambda>chunk.
       reply_notice X evt (concat (map (day_text X banlist onlyTotals) chunk)))))"

definition banlist_text :: "string \<Rightarrow> gomap \<Rightarrow> gomap \<Rightarrow> string" where
  "banlist_text pref cfg banlist =
     (let size = fcard (fmdom banlist) in
      (if size > 0 then
         ''Currently: `'' @ Bot_Get cfg BotBanlistEnabled @ ''`, total: '' @ Itoa (int size) @ newline @ newline
       else []) @
      (if \<not> BanlistEnabled cfg then
         ''To enable banlist, send `'' @ pref @ '' banlist true`'' @ newline @ newline
       else []) @
      ''To ban somebody: `'' @ pref @ '' banlist:add IP1 IP2 IP3...`'' @
      ''where each ip is IPv4 or IPv6'' @ newline @ newline @
      ''You can find current banlist values below:'' @ newline)"

definition runBanlist ::
  "externals \<Rightarrow> ctx \<Rightarrow> mxevent \<Rightarrow> string list \<Rightarrow> ('a bot_state_scheme, unit) action" where
  "runBanlist X c evt commandSlice =
     bindM GetBot (\<lambda>cfg.
     if length commandSlice < 2 then
       bindM GetBanlist (\<lambda>banlist.
       bindM (readM prefix) (\<lambda>pref.
       thenM (reply_notice X evt (banlist_text pref cfg banlist))
       (addBanlistTimeline X evt False)))
     else
       set_bot_option X c evt cfg BotBanlistEnabled (SanitizeBoolString (commandSlice ! 1))
         ''banlist has been updated'')"

definition runBanlistTotals :: "externals \<Rightarrow> mxevent \<Rightarrow> ('a bot_state_scheme, unit) action" where
  "runBanlistTotals X evt =
     bindM GetBanlist (\<lambda>banlist.
     (let size = fcard (fmdom banlist) in
      if size = 0 then reply_notice X evt ''banlist is empty, kupo.''
      else
        thenM (reply_notice X evt
          (''Total: '' @ Itoa (int size) @ '' hosts banned'' @ newline @ newline @
           ''You can find daily totals below:'' @ newline))
        (addBanlistTimeline X evt True)))"

definition switch_text :: "string \<Rightarrow> string \<Rightarrow> bool \<Rightarrow> string \<Rightarrow> string \<Rightarrow> string" where
  "switch_text pref current enabled purpose name =
     ''Currently: `'' @ current @ ''`'' @ newline @ newline @
     (if \<not> enabled then
        ''To enable automatic banning for invalid '' @ purpose @ '', send `'' @ pref @ '' '' @ name @
        '' true` (banlist itself must be enabled!)'' @ newline @ newline
      else [])"

definition runBanlistAuth ::
  "externals \<Rightarrow> ctx \<Rightarrow> mxevent \<Rightarrow> string list \<Rightarrow> ('a bot_state_scheme, unit) action" where
  "runBanlistAuth X c evt commandSlice =
     bindM GetBot (\<lambda>cfg.
     if length commandSlice < 2 then
       bindM (readM prefix) (\<lambda>pref.
       reply_notice X evt
         (switch_text pref (Bot_Get cfg BotBanlistAuth) (BanlistAuth cfg) ''credentials'' ''banlist:auth''))
     else
       set_bot_option X c evt cfg BotBanlistAuth (SanitizeBoolString (commandSlice ! 1))
         ''auth banning has been updated'')"

definition runBanlistAuto ::
  "externals \<Rightarrow> ctx \<Rightarrow> mxevent \<Rightarrow> string list \<Rightarrow> ('a bot_state_scheme, unit) action" where
  "runBanlistAuto X c evt commandSlice =
     bindM GetBot (\<lambda>cfg.
     if length commandSlice < 2 then
       bindM (readM prefix) (\<lambda>pref.
       reply_notice X evt
         (switch_text pref (Bot_Get cfg BotBanlistAuto) (BanlistAuto cfg) ''emails'' ''banlist:auto''))
     else
       set_bot_option X c evt cfg BotBanlistAuto (SanitizeBoolString (commandSlice ! 1))
         ''auto banning has been updated'')"

text \<open>
  The loop of \<open>runBanlistChange\<close>: every change is one of the cached list. The result is the
  list, or the error at the first address that does not resolve.
\<close>

fun banlist_loop ::
  "externals \<Rightarrow> bool \<Rightarrow> gomap \<Rightarrow> string list \<Rightarrow> ('a bot_state_scheme, string + gomap) action" where
  "banlist_loop X remove banlist [] = returnM (Inr banlist)"
| "banlist_loop X remove banlist (ip # ips) =
     (case ext_ResolveIP X ip of
        Inl e \<Rightarrow> returnM (Inl (''cannot remove '' @ ip @ '' from banlist: '' @ e))
      | Inr addr \<Rightarrow>
          bindM (readM now_sec) (\<lambda>now.
          (let banlist = (if remove then List_Remove banlist addr else List_Add X now banlist addr) in
           thenM (alias_write (UserData acBanlistKey) banlist)
           (banlist_loop X remove banlist ips))))"

definition runBanlistChange ::
  "externals \<Rightarrow> ctx \<Rightarrow> mxevent \<Rightarrow> string \<Rightarrow> string list \<Rightarrow> ('a bot_state_scheme, unit) action" where
  "runBanlistChange X c evt mode commandSlice =
     (if length commandSlice < 2 then runBanlist X c evt commandSlice
      else
        bindM GetBot (\<lambda>cfg.
        if \<not> BanlistEnabled cfg then
          reply_notice X evt ''banlist is disabled, you have to enable it first, kupo''
        else
          bindM GetBanlist (\<lambda>banlist.
          bindM (banlist_loop X (mode = ''remove'') banlist (drop 1 commandSlice)) (\<lambda>res.
          case res of
            Inl e \<Rightarrow> Bot_Error X c e
          | Inr banlist \<Rightarrow>
              bindM (SetBanlist banlist) (\<lambda>err.
              case err of
                Some e \<Rightarrow> Bot_Error X c (''cannot set banlist: '' @ e)
              | None \<Rightarrow> reply_notice X evt ''banlist has been updated, kupo'')))))"

definition runBanlistReset :: "externals \<Rightarrow> ctx \<Rightarrow> mxevent \<Rightarrow> ('a bot_state_scheme, unit) action" where
  "runBanlistReset X c evt =
     bindM GetBot (\<lambda>cfg.
     if \<not> BanlistEnabled cfg then
       reply_notice X evt ''banlist is disabled, you have to enable it first, kupo''
     else
       bindM (SetBanlist fmempty) (\<lambda>err.
       case err of
         Some e \<Rightarrow> Bot_Error X c (''cannot set banlist: '' @ e)
       | None \<Rightarrow> reply_notice X evt ''banlist has been reset, kupo''))"

end
