(* ===== verification/Bot_Sync.thy ===== *)
theory Bot_Sync
  imports Commands_Owner Commands_Admin
begin

text \<open>
  The dispatch of commands (\<open>handle\<close> of internal/bot/command.go), the reaction that marks an
  email as spam (reaction.go), and the events of the Matrix sync (sync.go). A reaction is its
  event with the key and the event it refers to.
\<close>

section \<open>Dispatch\<close>

definition typing :: "('a bot_state_scheme, unit) action" where
  "typing = bindM api_call (\<lambda>_. skipM)"

text \<open>The switch over the commands an administrator gives, and the one over all others.\<close>

definition dispatch_admin ::
  "externals \<Rightarrow> ctx \<Rightarrow> mxevent \<Rightarrow> string list \<Rightarrow> string \<Rightarrow> ('a bot_state_scheme, unit) action option" where
  "dispatch_admin X c evt commandSlice name =
     map_of
       [(commandDKIM, runDKIM X c evt commandSlice),
        (BotAdminRoom, runAdminRoom X c evt commandSlice),
        (commandUsers, runUsers X c evt commandSlice),
        (commandCatchAll, runCatchAll X c evt commandSlice),
        (commandDelete, runDelete X c evt commandSlice),
        (BotGreylist, runGreylist X c evt commandSlice),
        (commandBanlist, runBanlist X c evt commandSlice),
        (commandBanlistAuth, runBanlistAuth X c evt commandSlice),
        (commandBanlistAuto, runBanlistAuto X c evt commandSlice),
        (commandBanlistTotals, runBanlistTotals X evt),
        (commandBanlistAdd, runBanlistChange X c evt ''add'' commandSlice),
        (commandBanlistRemove, runBanlistChange X c evt ''remove'' commandSlice),
        (commandBanlistReset, runBanlistReset X c evt),
        (commandMailboxes, sendMailboxes X evt)] name"

definition dispatch_room ::
  "externals \<Rightarrow> ctx \<Rightarrow> mxevent \<Rightarrow> string list \<Rightarrow> string \<Rightarrow> ('a bot_state_scheme, unit) action" where
  "dispatch_room X c evt commandSlice name =
     (case map_of
        [(commandHelp, sendHelp X evt),
         (commandStop, runStop X c evt),
         (commandSend, runSend X c evt),
         (commandSpamlistAdd, runSpamlistAdd X c evt commandSlice),
         (commandSpamlistRemove, runSpamlistRemove X c evt commandSlice),
         (commandSpamlistReset, runSpamlistReset X c evt)] name of
        Some run \<Rightarrow> run
      | None \<Rightarrow> handleOption X c evt commandSlice)"

definition dispatch ::
  "externals \<Rightarrow> ctx \<Rightarrow> mxevent \<Rightarrow> string list \<Rightarrow> string \<Rightarrow> ('a bot_state_scheme, unit) action" where
  "dispatch X c evt commandSlice name =
     (case dispatch_admin X c evt commandSlice name of
        Some run \<Rightarrow> run
      | None \<Rightarrow> dispatch_room X c evt commandSlice name)"

text \<open>\<open>handle\<close> once the table has an entry for the command.\<close>

definition run_command ::
  "externals \<Rightarrow> ctx \<Rightarrow> mxevent \<Rightarrow> string list \<Rightarrow> command \<Rightarrow> ('a bot_state_scheme, unit) action" where
  "run_command X c evt commandSlice command =
     thenM typing
     (deferM
       (bindM (run_allowed X (cmd_allowed command) (e_sender evt) (e_room evt)) (\<lambda>ok.
        if \<not> ok then SendNotice X (e_room evt) ''not allowed to do that, kupo'' None
        else dispatch X c evt commandSlice (hd commandSlice)))
       typing)"

definition handle :: "externals \<Rightarrow> ctx \<Rightarrow> mxevent \<Rightarrow> ('a bot_state_scheme, unit) action" where
  "handle X c evt =
     bindM api_call (\<lambda>_.
     (let content = e_content evt in
      if c_notice content then skipM
      else
        bindM (readM prefix) (\<lambda>pref.
        case parseCommand pref (TrimSpace (c_body content)) True of
          None \<Rightarrow> if EventParent [] content \<noteq> [] then SendEmailReply X c evt else skipM
        | Some commandSlice \<Rightarrow>
            (case commandSlice of
               [] \<Rightarrow> panicM ''index out of range''
             | name # _ \<Rightarrow>
                 (case commandList_get initCommands name of
                    None \<Rightarrow> skipM
                  | Some command \<Rightarrow> run_command X c evt commandSlice command)))))"

section \<open>reaction.go\<close>

definition supportedReactions :: "(string \<times> string) list" where
  "supportedReactions =
     [([CHR 0xE2, CHR 0x9B, CHR 0x94, CHR 0xEF, CHR 0xB8, CHR 0x8F], commandSpamlistAdd),
      ([CHR 0xF0, CHR 0x9F, CHR 0x9B, CHR 0x91], commandSpamlistAdd),
      ([CHR 0xF0, CHR 0x9F, CHR 0x9A, CHR 0xAB], commandSpamlistAdd),
      (''spam'', commandSpamlistAdd)]"

definition handleReaction ::
  "externals \<Rightarrow> ctx \<Rightarrow> mxevent \<Rightarrow> string \<Rightarrow> string \<Rightarrow> ('a bot_state_scheme, unit) action" where
  "handleReaction X c evt key srcID =
     (case map_of supportedReactions key of
        None \<Rightarrow> skipM
      | Some act \<Rightarrow>
          bindM (GetEvent (e_room evt) srcID) (\<lambda>res.
          case res of
            Inl e \<Rightarrow> Bot_Error X c (''cannot find event '' @ srcID @ '': '' @ e)
          | Inr srcEvt \<Rightarrow>
              bindM (readM (\<lambda>w. e_room evt |\<in>| hs_encrypted w)) (\<lambda>encrypted.
              bindM (if encrypted
                     then bindM (Decrypt srcEvt) (\<lambda>d. returnM (case d of Some e \<Rightarrow> e | None \<Rightarrow> srcEvt))
                     else returnM srcEvt) (\<lambda>srcEvt.
              (let threadID = EventParent srcID (e_content srcEvt);
                   c = threadIDToContext c threadID in
               if act = commandSpamlistAdd then
                 (let sender = EventField (e_content srcEvt) eventFromKey in
                  if sender = [] then Bot_Error X c ''cannot get sender of the email''
                  else runSpamlistAdd X c evt [commandSpamlistAdd, sender])
               else skipM)))))"

section \<open>sync.go\<close>

datatype membership = MembershipJoin | MembershipLeave | MembershipBan | MembershipOther

definition joinPermit :: "mxevent \<Rightarrow> ('a bot_state_scheme, bool) action" where
  "joinPermit evt = allowUsers (e_sender evt) (e_room evt)"

text \<open>\<open>LoadOrStore\<close> on the membership events already handled.\<close>

definition membership_seen :: "string \<Rightarrow> ('a bot_state_scheme, bool) action" where
  "membership_seen eventID =
     bindM (readM (\<lambda>w. eventID |\<in>| handledMembership w)) (\<lambda>seen.
     thenM (modifyM (\<lambda>w. w\<lparr>handledMembership := finsert eventID (handledMembership w)\<rparr>))
     (returnM seen))"

definition onBotJoin :: "externals \<Rightarrow> mxevent \<Rightarrow> ('a bot_state_scheme, unit) action" where
  "onBotJoin X evt =
     bindM (GetRoom (e_room evt)) (\<lambda>(cfg, err).
     if err = None \<and> Room_Mailbox cfg \<noteq> [] then skipM
     else
       bindM (membership_seen (e_id evt)) (\<lambda>seen.
       if seen then skipM
       else thenM (sendIntroduction X (e_room evt)) (sendHelp X evt)))"

definition onLeave :: "externals \<Rightarrow> ctx \<Rightarrow> mxevent \<Rightarrow> ('a bot_state_scheme, unit) action" where
  "onLeave X c evt =
     bindM (membership_seen (e_id evt)) (\<lambda>seen.
     if seen then skipM
     else
       bindM api_call (\<lambda>err.
       if err \<noteq> None then skipM
       else
         bindM (readM (\<lambda>w. (case fmlookup (hs_members w) (e_room evt) of None \<Rightarrow> [] | Some ms \<Rightarrow> ms, lp_user w)))
           (\<lambda>(members, me).
         if members = [me] then
           thenM (runStop X c evt)
           (bindM api_call (\<lambda>err.
            case err of
              None \<Rightarrow> skipM
            | Some e \<Rightarrow> Bot_Error X c (''cannot leave empty room: '' @ e)))
         else skipM)))"

definition onMembership :: "externals \<Rightarrow> mxevent \<Rightarrow> membership \<Rightarrow> ('a bot_state_scheme, unit) action" where
  "onMembership X evt evtType =
     bindM (readM (\<lambda>w. (ignoreBefore w, lp_user w))) (\<lambda>(before, me).
     if before \<ge> e_ts evt then skipM
     else
       (let c = newContext background evt in
        if evtType = MembershipJoin \<and> e_sender evt = me then onBotJoin X evt
        else if evtType = MembershipBan \<or> evtType = MembershipLeave \<and> e_sender evt \<noteq> me
        then onLeave X c evt
        else skipM))"

definition onMessage :: "externals \<Rightarrow> mxevent \<Rightarrow> ('a bot_state_scheme, unit) action" where
  "onMessage X evt =
     bindM (readM (\<lambda>w. (ignoreBefore w, lp_user w))) (\<lambda>(before, me).
     if e_sender evt = me then skipM
     else if before \<ge> e_ts evt then skipM
     else handle X (newContext background evt) evt)"

definition onReaction :: "externals \<Rightarrow> mxevent \<Rightarrow> string \<Rightarrow> string \<Rightarrow> ('a bot_state_scheme, unit) action" where
  "onReaction X evt key srcID =
     bindM (readM (\<lambda>w. (ignoreBefore w, lp_user w))) (\<lambda>(before, me).
     if e_sender evt = me then skipM
     else if before \<ge> e_ts evt then skipM
     else handleReaction X (newContext background evt) evt key srcID)"

text \<open>The events the bot subscribes to, and what it does with each (\<open>initSync\<close>).\<close>

datatype mxinput =
    InMembership mxevent membership
  | InMessage mxevent
  | InReaction mxevent string string

fun on_event :: "externals \<Rightarrow> mxinput \<Rightarrow> ('a bot_state_scheme, unit) action" where
  "on_event X (InMembership evt m) = onMembership X evt m"
| "on_event X (InMessage evt) = onMessage X evt"
| "on_event X (InReaction evt key srcID) = onReaction X evt key srcID"

end
