(* ===== verification/Smtp_Session.thy ===== *)
theory Smtp_Session
  imports Bot_Sync
begin

text \<open>
  The SMTP server's side of a connection (internal/smtp): the errors it answers with
  (errors.go), blocklists (dnsbl.go), the authentication servers (authserver.go) and the
  session (session.go, server.go).

  The session calls the bot through the interface \<open>matrixbot\<close> of manager.go, which is a
  record of operations here, so that what a session does can be stated for every bot;
  \<open>postmoogle\<close> is the record of the operations of the modelled bot. The mail client's
  \<open>Send\<close> is the argument \<open>send\<close>. A session is passed explicitly and returned changed.

  What this package takes from elsewhere is the record \<open>smtp_ext\<close>: the MIME parser, the
  DKIM verifier, the email validator, the resolver and the parser of IP addresses.
\<close>

section \<open>errors.go\<close>

text \<open>An error of the SMTP library has a code, an enhanced code and a message; other errors a message.\<close>

datatype smtp_error = SMTPError nat "nat \<times> nat \<times> nat" string | OtherError string

definition NoUserCode :: nat where
  "NoUserCode = 550"

definition BannedCode :: nat where
  "BannedCode = 554"

definition GreylistCode :: nat where
  "GreylistCode = 451"

definition RBLCode :: nat where
  "RBLCode = 450"

definition AuthRequiredCode :: nat where
  "AuthRequiredCode = 530"

definition NoUserEnhancedCode :: "nat \<times> nat \<times> nat" where
  "NoUserEnhancedCode = (5, 5, 0)"

definition BannedEnhancedCode :: "nat \<times> nat \<times> nat" where
  "BannedEnhancedCode = (5, 5, 4)"

definition GreylistEnhancedCode :: "nat \<times> nat \<times> nat" where
  "GreylistEnhancedCode = (4, 5, 1)"

definition RBLEnhancedCode :: "nat \<times> nat \<times> nat" where
  "RBLEnhancedCode = (4, 5, 0)"

definition AuthRequiredEnhancedCode :: "nat \<times> nat \<times> nat" where
  "AuthRequiredEnhancedCode = (5, 7, 0)"

definition ErrBanned :: smtp_error where
  "ErrBanned = SMTPError BannedCode BannedEnhancedCode ''please, don't bother me anymore, kupo.''"

definition ErrNoUser :: smtp_error where
  "ErrNoUser = SMTPError NoUserCode NoUserEnhancedCode ''no such user here, kupo.''"

definition ErrGreylisted :: smtp_error where
  "ErrGreylisted = SMTPError GreylistCode GreylistEnhancedCode ''You have been greylisted, try again a bit later.''"

definition ErrRBL :: smtp_error where
  "ErrRBL = SMTPError RBLCode RBLEnhancedCode ''You are blacklisted, kupo.''"

definition ErrAuthRequired :: smtp_error where
  "ErrAuthRequired = SMTPError AuthRequiredCode AuthRequiredEnhancedCode ''authentication required, kupo.''"

definition ErrInvalidEmail :: smtp_error where
  "ErrInvalidEmail = OtherError ''please, provide valid email address''"

definition extendErrRBL :: "string list \<Rightarrow> smtp_error" where
  "extendErrRBL reasons =
     SMTPError RBLCode RBLEnhancedCode (''You are blacklisted, kupo. Details: '' @ Join reasons ''; '')"

section \<open>What the package calls\<close>

datatype dnsres = HostNotFound | HostFailed | HostAddrs "string list"

text \<open>The configuration of the email validator.\<close>

record vconfig =
  v_Enforce :: bool
  v_Spamlist :: "string list"
  v_MX :: bool
  v_SPF :: bool
  v_SMTP :: bool
  v_From :: string

record smtp_ext =
  sx_envelope :: "string \<Rightarrow> string + envelope"
    \<comment> \<open>enmime ReadEnvelope: an error or the envelope\<close>
  sx_dkimverify :: "string \<Rightarrow> string + string option list"
    \<comment> \<open>go-msgauth Verify: an error, or the error of each signature\<close>
  sx_validate :: "vconfig \<Rightarrow> string \<Rightarrow> string \<Rightarrow> nat list option \<Rightarrow> bool"
    \<comment> \<open>go-validator Email: from, return path, sender address\<close>
  sx_ParseIP :: "string \<Rightarrow> nat list option"
    \<comment> \<open>net ParseIP: the bytes, 4 of them for an IPv4 address\<close>
  sx_IPString :: "nat list \<Rightarrow> string"
    \<comment> \<open>the text of an address\<close>
  sx_LookupHost :: "string \<Rightarrow> dnsres"
  sx_LookupTXT :: "string \<Rightarrow> string list"
  sx_order :: "(string \<times> string list) list \<Rightarrow> (string \<times> string list) list"
    \<comment> \<open>the order in which the concurrent lookups of a check append their results\<close>

record 'w matrixbot =
  mb_AllowAuth :: "string \<Rightarrow> string \<Rightarrow> ('w, string option) action"
  mb_IsGreylisted :: "netaddr \<Rightarrow> ('w, bool) action"
  mb_IsBanned :: "netaddr \<Rightarrow> ('w, bool) action"
  mb_IsTrusted :: "netaddr \<Rightarrow> ('w, bool) action"
  mb_BanAuto :: "netaddr \<Rightarrow> ('w, unit) action"
  mb_BanAuth :: "netaddr \<Rightarrow> ('w, unit) action"
  mb_GetMapping :: "string \<Rightarrow> ('w, string option) action"
  mb_GetIFOptions :: "string \<Rightarrow> ('w, gomap) action"
  mb_IncomingEmail :: "email \<Rightarrow> ('w, string option \<times> email) action"
  mb_GetDKIMprivkey :: "('w, string) action"
  mb_GetRelayConfig :: "string \<Rightarrow> ('w, url option) action"
  mb_now :: "('w, int) action"

text \<open>The modelled bot behind the interface; \<open>mb_now\<close> is the clock.\<close>

definition postmoogle :: "externals \<Rightarrow> 'a bot_state_scheme matrixbot" where
  "postmoogle X =
     \<lparr>mb_AllowAuth = AllowAuth X, mb_IsGreylisted = IsGreylisted X, mb_IsBanned = IsBanned,
      mb_IsTrusted = IsTrusted, mb_BanAuto = BanAuto X, mb_BanAuth = BanAuth X,
      mb_GetMapping = GetMapping, mb_GetIFOptions = GetIFOptions,
      mb_IncomingEmail = IncomingEmail X background, mb_GetDKIMprivkey = GetDKIMprivkey,
      mb_GetRelayConfig = GetRelayConfig X, mb_now = readM now_sec\<rparr>"

section \<open>dnsbl.go\<close>

abbreviation DNSBLDefaultSignal :: string where "DNSBLDefaultSignal \<equiv> ''127.0.0.2''"

definition DNSBLs :: "(string \<times> string list) list" where
  "DNSBLs =
     [(''b.barracudacentral.org'', [DNSBLDefaultSignal]),
      (''bl.spamcop.net'', [DNSBLDefaultSignal, ''127.0.0.3'']),
      (''ix.dnsbl.manitu.net'', [DNSBLDefaultSignal]),
      (''psbl.surriel.com'', [DNSBLDefaultSignal]),
      (''rbl.interserver.net'', [DNSBLDefaultSignal]),
      (''spam.dnsbl.anonmails.de'', [DNSBLDefaultSignal]),
      (''zen.spamhaus.org'', [DNSBLDefaultSignal, ''127.0.0.3'', ''127.0.0.4'', ''127.0.0.5'',
         ''127.0.0.6'', ''127.0.0.7'', ''127.0.0.9'']),
      (''rbl.your-server.de'', [DNSBLDefaultSignal])]"

record dnsblResult =
  r_RBL :: string
  r_Reasons :: string
  r_Listed :: bool
  r_Error :: bool

text \<open>The address with its bytes, or its nibbles, in reverse order, below the list's domain.\<close>

definition getHost :: "smtp_ext \<Rightarrow> netaddr \<Rightarrow> string \<Rightarrow> string" where
  "getHost S addr list =
     (case sx_ParseIP S (AddrIP addr) of
        None \<Rightarrow> []
      | Some ip \<Rightarrow>
          (if length ip = 4 then Join (map (\<lambda>b. Itoa (int b)) (rev ip)) ''.''
           else Join (map (\<lambda>b. [hex_digit (b mod 16)] @ ''.'' @ [hex_digit (b div 16 mod 16)]) (rev ip)) ''.'') @
          ''.'' @ list @ ''.'')"

definition checkRBL :: "smtp_ext \<Rightarrow> netaddr \<Rightarrow> string \<times> string list \<Rightarrow> dnsblResult" where
  "checkRBL S addr entry =
     (let (rbl, signals) = entry; host = getHost S addr rbl;
          unlisted = \<lparr>r_RBL = rbl, r_Reasons = [], r_Listed = False, r_Error = False\<rparr> in
      case sx_LookupHost S host of
        HostNotFound \<Rightarrow> unlisted
      | HostFailed \<Rightarrow> unlisted\<lparr>r_Error := True\<rparr>
      | HostAddrs ips \<Rightarrow>
          if \<exists>ip \<in> set ips. ip \<in> set signals
          then unlisted\<lparr>r_Listed := True, r_Reasons := Join (sx_LookupTXT S host) ''; ''\<rparr>
          else unlisted)"

definition decision :: "nat \<Rightarrow> nat \<Rightarrow> nat \<Rightarrow> bool" where
  "decision all listed unlisted =
     (if all = 0 \<or> listed = 0 then False else listed > 1 \<or> listed > unlisted)"

text \<open>The decision over the results, in the order in which they arrived.\<close>

definition evaluate_results :: "dnsblResult list \<Rightarrow> bool \<times> string list" where
  "evaluate_results results =
     (let answered = filter (\<lambda>r. \<not> r_Error r) results;
          listed = filter r_Listed answered; unlisted = filter (\<lambda>r. \<not> r_Listed r) answered in
      (decision (length results) (length listed) (length unlisted), map r_Reasons listed))"

definition CheckDNSBLs :: "smtp_ext \<Rightarrow> netaddr \<Rightarrow> bool \<times> string list" where
  "CheckDNSBLs S addr = evaluate_results (map (checkRBL S addr) (sx_order S DNSBLs))"

section \<open>session.go, server.go\<close>

abbreviation Incoming :: string where "Incoming \<equiv> ''incoming''"
abbreviation Outgoing :: string where "Outgoing \<equiv> ''outgoing''"

record session =
  s_addr :: netaddr
  s_domains :: "string list"
  s_dir :: string
  s_tos :: "string list"
  s_from :: string
  s_roomID :: string
  s_privkey :: string
  s_fromRoom :: string

definition NewSession :: "'w matrixbot \<Rightarrow> string list \<Rightarrow> netaddr \<Rightarrow> ('w, session) action" where
  "NewSession B ds addr =
     bindM (mb_GetDKIMprivkey B) (\<lambda>privkey.
     returnM \<lparr>s_addr = addr, s_domains = ds, s_dir = [], s_tos = [], s_from = [], s_roomID = [],
              s_privkey = privkey, s_fromRoom = []\<rparr>)"

definition AuthMechanisms :: "string list" where
  "AuthMechanisms = [''PLAIN'', ''LOGIN'']"

definition authPlain ::
  "externals \<Rightarrow> 'w matrixbot \<Rightarrow> session \<Rightarrow> string \<Rightarrow> string \<Rightarrow> ('w, session \<times> smtp_error option) action" where
  "authPlain X B s username password =
     (if \<not> AddressValid X username then
        thenM (mb_BanAuth B (s_addr s)) (returnM (s, Some ErrBanned))
      else
        bindM (mb_AllowAuth B username password) (\<lambda>allow.
        case allow of
          None \<Rightarrow> thenM (mb_BanAuth B (s_addr s)) (returnM (s, Some ErrBanned))
        | Some roomID \<Rightarrow>
            returnM (s\<lparr>s_dir := Outgoing, s_from := username, s_fromRoom := roomID\<rparr>, None)))"

definition validateOutgoingMail ::
  "externals \<Rightarrow> 'w matrixbot \<Rightarrow> session \<Rightarrow> string \<Rightarrow> ('w, smtp_error option) action" where
  "validateOutgoingMail X B s from =
     (if \<not> AddressValid X from then returnM (Some ErrInvalidEmail)
      else if Hostname X from \<notin> set (s_domains s) then returnM (Some ErrNoUser)
      else
        bindM (mb_GetMapping B (Mailbox X from)) (\<lambda>mapping.
        case mapping of
          None \<Rightarrow> returnM (Some ErrNoUser)
        | Some roomID \<Rightarrow>
            if s_fromRoom s \<noteq> roomID then returnM (Some ErrNoUser) else returnM None))"

definition session_Mail ::
  "externals \<Rightarrow> 'w matrixbot \<Rightarrow> session \<Rightarrow> string \<Rightarrow> ('w, session \<times> smtp_error option) action" where
  "session_Mail X B s from =
     (if s_dir s = Outgoing then
        bindM (validateOutgoingMail X B s from) (\<lambda>err. returnM (s, err))
      else if \<not> AddressValid X from then
        thenM (mb_BanAuto B (s_addr s)) (returnM (s, Some ErrBanned))
      else if Hostname X from \<in> set (s_domains s) then returnM (s, Some ErrAuthRequired)
      else returnM (s\<lparr>s_from := Address X from\<rparr>, None))"

definition validateIncomingRcpt ::
  "externals \<Rightarrow> 'w matrixbot \<Rightarrow> session \<Rightarrow> string \<Rightarrow> ('w, session \<times> smtp_error option) action" where
  "validateIncomingRcpt X B s to =
     (if Hostname X to \<notin> set (s_domains s) then returnM (s, Some ErrNoUser)
      else
        bindM (mb_GetMapping B (Mailbox X to)) (\<lambda>mapping.
        case mapping of
          None \<Rightarrow> returnM (s\<lparr>s_roomID := []\<rparr>, Some ErrNoUser)
        | Some roomID \<Rightarrow> returnM (s\<lparr>s_roomID := roomID\<rparr>, None)))"

definition session_Rcpt ::
  "externals \<Rightarrow> smtp_ext \<Rightarrow> 'w matrixbot \<Rightarrow> session \<Rightarrow> string \<Rightarrow>
   ('w, session \<times> smtp_error option) action" where
  "session_Rcpt X S B s to =
     (let s = s\<lparr>s_tos := s_tos s @ [to]\<rparr> in
      if s_dir s = Outgoing then returnM (s, None)
      else
        bindM (validateIncomingRcpt X B s to) (\<lambda>(s, err).
        if err \<noteq> None then returnM (s, err)
        else
          bindM (mb_GetIFOptions B (s_roomID s)) (\<lambda>options.
          if Room_SpamcheckRBL options then
            (let (listed, reasons) = CheckDNSBLs S (s_addr s) in
             if listed then returnM (s, Some (if reasons \<noteq> [] then extendErrRBL reasons else ErrRBL))
             else returnM (s, None))
          else returnM (s, None))))"

text \<open>\<open>net.JoinHostPort\<close>, and the text of a \<open>net.TCPAddr\<close>, whose address may be nil.\<close>

definition JoinHostPort :: "string \<Rightarrow> string \<Rightarrow> string" where
  "JoinHostPort host port =
     (if Contains host '':'' then ''['' @ host @ '']:'' @ port else host @ '':'' @ port)"

definition TCPAddr_String :: "smtp_ext \<Rightarrow> nat list option \<Rightarrow> int \<Rightarrow> netaddr" where
  "TCPAddr_String S ip port =
     (case ip of None \<Rightarrow> '':'' @ Itoa port | Some b \<Rightarrow> JoinHostPort (sx_IPString S b) (Itoa port))"

definition getAddr :: "smtp_ext \<Rightarrow> 'w matrixbot \<Rightarrow> session \<Rightarrow> envelope \<Rightarrow> ('w, netaddr) action" where
  "getAddr S B s env =
     bindM (mb_IsTrusted B (s_addr s)) (\<lambda>trusted.
     if \<not> trusted then returnM (s_addr s)
     else
       (let addrHeader = env_header env ''X-Real-Addr'' in
        if addrHeader = [] then returnM (s_addr s)
        else
          (let (host, portString) = (case SplitHostPort addrHeader of None \<Rightarrow> ([], []) | Some hp \<Rightarrow> hp) in
           if host = [] then returnM (s_addr s)
           else
             (let port = (case Atoi portString of None \<Rightarrow> 0 | Some p \<Rightarrow> p) in
              returnM (TCPAddr_String S (sx_ParseIP S host) port)))))"

definition validateIncoming :: "smtp_ext \<Rightarrow> string \<Rightarrow> string \<Rightarrow> netaddr \<Rightarrow> gomap \<Rightarrow> bool" where
  "validateIncoming S from returnPath senderAddr options =
     (let host = (case SplitHostPort senderAddr of None \<Rightarrow> [] | Some (h, _) \<Rightarrow> h) in
      sx_validate S
        \<lparr>v_Enforce = True, v_Spamlist = Room_Spamlist options, v_MX = Room_SpamcheckMX options,
         v_SPF = Room_SpamcheckSPF options, v_SMTP = Room_SpamcheckSMTP options, v_From = from\<rparr>
        from returnPath (sx_ParseIP S host))"

text \<open>The first signature that does not verify, if any.\<close>

fun dkim_failure :: "string option list \<Rightarrow> string option" where
  "dkim_failure [] = None"
| "dkim_failure (r # rs) = (case r of Some e \<Rightarrow> Some e | None \<Rightarrow> dkim_failure rs)"

fun incoming_loop ::
  "'w matrixbot \<Rightarrow> email \<Rightarrow> string list \<Rightarrow> ('w, smtp_error option) action" where
  "incoming_loop B eml [] = returnM None"
| "incoming_loop B eml (to # tos) =
     bindM (mb_IncomingEmail B (eml\<lparr>em_RcptTo := to\<rparr>)) (\<lambda>(err, eml).
     case err of
       Some e \<Rightarrow> returnM (Some (OtherError e))
     | None \<Rightarrow> incoming_loop B eml tos)"

text \<open>The delivery that ends \<open>incomingData\<close>; without recipients the index is out of range.\<close>

definition deliver_incoming ::
  "externals \<Rightarrow> 'w matrixbot \<Rightarrow> session \<Rightarrow> envelope \<Rightarrow> ('w, smtp_error option) action" where
  "deliver_incoming X B s env =
     (case s_tos s of
        [] \<Rightarrow> panicM ''index out of range''
      | to # _ \<Rightarrow> bindM (mb_now B) (\<lambda>now. incoming_loop B (FromEnvelope X now to env) (s_tos s)))"

definition incomingData ::
  "externals \<Rightarrow> smtp_ext \<Rightarrow> 'w matrixbot \<Rightarrow> session \<Rightarrow> string \<Rightarrow> ('w, smtp_error option) action" where
  "incomingData X S B s data =
     (case sx_envelope S data of
        Inl e \<Rightarrow> returnM (Some (OtherError e))
      | Inr env \<Rightarrow>
          bindM (getAddr S B s env) (\<lambda>addr.
          bindM (mb_GetIFOptions B (s_roomID s)) (\<lambda>validations.
          if \<not> validateIncoming S (s_from s) (env_header env ''Return-Path'') addr validations then
            thenM (mb_BanAuth B addr) (returnM (Some ErrBanned))
          else
            bindM (mb_IsGreylisted B addr) (\<lambda>greylisted.
            if greylisted then returnM (Some ErrGreylisted)
            else if \<not> Room_SpamcheckDKIM validations then deliver_incoming X B s env
            else
              (case sx_dkimverify S data of
                 Inl e \<Rightarrow> returnM (Some (OtherError e))
               | Inr results \<Rightarrow>
                   (case dkim_failure results of
                      Some e \<Rightarrow> returnM (Some (OtherError e))
                    | None \<Rightarrow> deliver_incoming X B s env))))))"

type_synonym 'w sender = "mailaddr \<Rightarrow> mailaddr \<Rightarrow> string \<Rightarrow> url option \<Rightarrow> ('w, string option) action"

fun outgoing_loop ::
  "externals \<Rightarrow> 'w matrixbot \<Rightarrow> 'w sender \<Rightarrow> session \<Rightarrow> email \<Rightarrow> string list \<Rightarrow>
   ('w, smtp_error option) action" where
  "outgoing_loop X B send s eml [] = returnM None"
| "outgoing_loop X B send s eml (to # tos) =
     (let eml = eml\<lparr>em_RcptTo := to\<rparr> in
      if Hostname X to \<in> set (s_domains s) then
        bindM (mb_IncomingEmail B eml) (\<lambda>(err, eml).
        case err of
          Some e \<Rightarrow> returnM (Some (OtherError e))
        | None \<Rightarrow> outgoing_loop X B send s eml tos)
      else
        bindM (liftM (Compose X eml (s_privkey s))) (\<lambda>data.
        bindM (mb_GetRelayConfig B (s_fromRoom s)) (\<lambda>relay.
        bindM (send (em_From eml) to data relay) (\<lambda>err.
        case err of
          Some e \<Rightarrow> returnM (Some (OtherError e))
        | None \<Rightarrow> outgoing_loop X B send s eml tos))))"

definition outgoingData ::
  "externals \<Rightarrow> smtp_ext \<Rightarrow> 'w matrixbot \<Rightarrow> 'w sender \<Rightarrow> session \<Rightarrow> string \<Rightarrow>
   ('w, smtp_error option) action" where
  "outgoingData X S B send s data =
     (case sx_envelope S data of
        Inl e \<Rightarrow> returnM (Some (OtherError e))
      | Inr env \<Rightarrow>
          (case s_tos s of
             [] \<Rightarrow> panicM ''index out of range''
           | to # _ \<Rightarrow>
               bindM (mb_now B) (\<lambda>now.
               outgoing_loop X B send s (FromEnvelope X now to env) (s_tos s))))"

definition session_Data ::
  "externals \<Rightarrow> smtp_ext \<Rightarrow> 'w matrixbot \<Rightarrow> 'w sender \<Rightarrow> session \<Rightarrow> string \<Rightarrow>
   ('w, smtp_error option) action" where
  "session_Data X S B send s data =
     (if s_dir s = Outgoing then outgoingData X S B send s data else incomingData X S B s data)"

text \<open>\<open>Reset\<close> has an empty body: the recipients of a finished transaction stay.\<close>

definition session_Reset :: "session \<Rightarrow> session" where
  "session_Reset s = s"

section \<open>authserver.go\<close>

datatype loginState = loginStateNotStarted | loginStateUsername | loginStatePassword

record loginServer =
  ls_done :: bool
  ls_state :: loginState
  ls_username :: string
  ls_password :: string

definition NewLoginAuthServer :: loginServer where
  "NewLoginAuthServer =
     \<lparr>ls_done = False, ls_state = loginStateNotStarted, ls_username = [], ls_password = []\<rparr>"

definition ErrUnexpectedClientResponse :: smtp_error where
  "ErrUnexpectedClientResponse = OtherError ''sasl: unexpected client response''"

text \<open>
  The result of \<open>Next\<close>: the server, the session the authentication may have changed, the
  challenge, whether the exchange is done, and the error.
\<close>

type_synonym 's auth_step = "'s \<times> session \<times> string \<times> bool \<times> smtp_error option"

definition Login_Next ::
  "externals \<Rightarrow> 'w matrixbot \<Rightarrow> session \<Rightarrow> loginServer \<Rightarrow> string \<Rightarrow> ('w, loginServer auth_step) action" where
  "Login_Next X B s a response =
     (if ls_done a then returnM (a, s, [], False, Some ErrUnexpectedClientResponse)
      else
        (case ls_state a of
           loginStateNotStarted \<Rightarrow>
             returnM (a\<lparr>ls_state := loginStateUsername\<rparr>, s, ''Username:'', False, None)
         | loginStateUsername \<Rightarrow>
             returnM (a\<lparr>ls_username := response, ls_state := loginStatePassword\<rparr>, s, ''Password:'', False, None)
         | loginStatePassword \<Rightarrow>
             bindM (authPlain X B s (ls_username a) response) (\<lambda>(s, err).
             returnM (a\<lparr>ls_password := response, ls_done := True\<rparr>, s, [], True, err))))"

text \<open>The PLAIN server keeps only whether it is done; \<open>None\<close> is the missing first response.\<close>

definition Plain_Next ::
  "externals \<Rightarrow> 'w matrixbot \<Rightarrow> session \<Rightarrow> bool \<Rightarrow> string option \<Rightarrow> ('w, bool auth_step) action" where
  "Plain_Next X B s finished response =
     (if finished then returnM (finished, s, [], False, Some ErrUnexpectedClientResponse)
      else
        (case response of
           None \<Rightarrow> returnM (False, s, [], False, None)
         | Some r \<Rightarrow>
             (case Split (CHR 0x00) r of
                [identity, username, password] \<Rightarrow>
                  bindM (authPlain X B s username password) (\<lambda>(s, err).
                  returnM (True, s, [], True, err))
              | _ \<Rightarrow>
                  thenM (mb_BanAuth B (s_addr s))
                  (returnM (True, s, [], False,
                     Some (OtherError ''sasl: invalid response. Don't bother me anymore, kupo''))))))"

text \<open>\<open>Auth\<close>: the server for a mechanism; an unknown mechanism is a reason to ban.\<close>

datatype authServer = LoginServer loginServer | PlainServer bool

definition session_Auth ::
  "'w matrixbot \<Rightarrow> session \<Rightarrow> string \<Rightarrow> ('w, smtp_error + authServer) action" where
  "session_Auth B s mech =
     (if mech \<notin> set AuthMechanisms then
        thenM (mb_BanAuth B (s_addr s)) (returnM (Inl ErrBanned))
      else if mech = ''LOGIN'' then returnM (Inr (LoginServer NewLoginAuthServer))
      else if mech = ''PLAIN'' then returnM (Inr (PlainServer False))
      else thenM (mb_BanAuth B (s_addr s)) (returnM (Inl ErrBanned)))"

definition auth_Next ::
  "externals \<Rightarrow> 'w matrixbot \<Rightarrow> session \<Rightarrow> authServer \<Rightarrow> string option \<Rightarrow> ('w, authServer auth_step) action" where
  "auth_Next X B s a response =
     (case a of
        LoginServer l \<Rightarrow>
          bindM (Login_Next X B s l (case response of None \<Rightarrow> [] | Some r \<Rightarrow> r)) (\<lambda>(l, rest).
          returnM (LoginServer l, rest))
      | PlainServer f \<Rightarrow>
          bindM (Plain_Next X B s f response) (\<lambda>(f, rest). returnM (PlainServer f, rest)))"

end
