(* ===== verification/Smtp_Client.thy ===== *)
theory Smtp_Client
  imports Smtp_Session
begin

text \<open>
  The SMTP client (internal/smtp/client.go): the relay or the mail exchangers of the
  recipient's domain, the dialogue with the server that answers, and the message.

  The network is a parameter: the MX records of a domain, and for each address either the error
  of the connection or a \<open>peer\<close>, the server's answers (\<open>None\<close> is a positive reply). The answers of a
  peer that offers STARTTLS are those behind it. The state of an action is the list of what the
  client did, \<open>wire\<close>, in order.
\<close>

section \<open>The network\<close>

record peer =
  p_Hello :: "string \<Rightarrow> string option"
  p_STARTTLS :: bool
  p_Auth :: "string \<Rightarrow> string \<Rightarrow> string option"
  p_Mail :: "mailaddr \<Rightarrow> string option"
  p_Rcpt :: "mailaddr \<Rightarrow> string option"
  p_Data :: "string option"
  p_Write :: "string \<Rightarrow> string option"
  p_Final :: "string \<Rightarrow> string option"
    \<comment> \<open>the reply to the end of the message\<close>

record net =
  n_Dial :: "string \<Rightarrow> string + peer"
  n_LookupMX :: "string \<Rightarrow> string + string list"

datatype wire =
    WDial string
  | WHello string string
  | WStartTLS string string
  | WAuth string string
  | WMail string mailaddr
  | WRcpt string mailaddr
  | WMessage string string "string option"
  | WClose string

type_synonym 'a client = "(wire list, 'a) action"

definition emit :: "wire \<Rightarrow> unit client" where
  "emit e = modifyM (\<lambda>l. l @ [e])"

text \<open>A connection is the address it was made to, and the server there.\<close>

type_synonym smtp_conn = "string \<times> peer"

section \<open>Connecting\<close>

definition connect :: "net \<Rightarrow> string \<Rightarrow> string \<Rightarrow> smtp_conn option client" where
  "connect N localname mxhost =
     (let target = mxhost @ '':25'' in
      thenM (emit (WDial target))
      (case n_Dial N target of
         Inl _ \<Rightarrow> returnM None
       | Inr p \<Rightarrow>
           thenM (emit (WHello target localname))
           (if p_Hello p localname \<noteq> None then returnM None
            else
              thenM (if p_STARTTLS p then emit (WStartTLS target mxhost) else skipM)
              (returnM (Some (target, p))))))"

text \<open>The loop over the MX records; a record that is a single dot is skipped.\<close>

fun mx_loop :: "net \<Rightarrow> string \<Rightarrow> string list \<Rightarrow> smtp_conn option client" where
  "mx_loop N localname [] = returnM None"
| "mx_loop N localname (mx # mxs) =
     (if mx = ''.'' then mx_loop N localname mxs
      else
        bindM (connect N localname (TrimSuffix mx ''.'')) (\<lambda>client.
        case client of
          Some c \<Rightarrow> returnM (Some c)
        | None \<Rightarrow> mx_loop N localname mxs))"

definition errNoSMTP :: string where
  "errNoSMTP = ''cannot connect to any SMTP server''"

definition trySMTP :: "net \<Rightarrow> string \<Rightarrow> string \<Rightarrow> (string + smtp_conn) client" where
  "trySMTP N localname hostname =
     (case n_LookupMX N hostname of
        Inl e \<Rightarrow> returnM (Inl e)
      | Inr mxs \<Rightarrow>
          bindM (mx_loop N localname mxs) (\<lambda>client.
          case client of
            Some c \<Rightarrow> returnM (Inr c)
          | None \<Rightarrow>
              bindM (connect N localname hostname) (\<lambda>client.
              returnM (case client of Some c \<Rightarrow> Inr c | None \<Rightarrow> Inl errNoSMTP))))"

text \<open>The part behind the first at-sign; without one the index is out of range.\<close>

definition host_of :: "mailaddr \<Rightarrow> string client" where
  "host_of address =
     (case SplitN2 (CHR ''@'') address of
        [_, host] \<Rightarrow> returnM host
      | _ \<Rightarrow> panicM ''index out of range'')"

text \<open>MAIL and RCPT; a connection that refuses one of them is closed.\<close>

definition envelope_cmds ::
  "smtp_conn \<Rightarrow> mailaddr \<Rightarrow> mailaddr \<Rightarrow> (string + smtp_conn) client" where
  "envelope_cmds c from to =
     (let (target, p) = c in
      thenM (emit (WMail target from))
      (case p_Mail p from of
         Some e \<Rightarrow> thenM (emit (WClose target)) (returnM (Inl e))
       | None \<Rightarrow>
           thenM (emit (WRcpt target to))
           (case p_Rcpt p to of
              Some e \<Rightarrow> thenM (emit (WClose target)) (returnM (Inl e))
            | None \<Rightarrow> returnM (Inr c))))"

definition createDirectClient ::
  "net \<Rightarrow> mailaddr \<Rightarrow> mailaddr \<Rightarrow> (string + smtp_conn) client" where
  "createDirectClient N from to =
     bindM (host_of from) (\<lambda>localname.
     bindM (host_of to) (\<lambda>hostname.
     bindM (trySMTP N localname hostname) (\<lambda>client.
     case client of
       Inl e \<Rightarrow> returnM (Inl e)
     | Inr c \<Rightarrow> envelope_cmds c from to)))"

record relayConfig =
  rc_Host :: string
  rc_Port :: string
  rc_Username :: string
  rc_Password :: string

definition relayFromURL :: "url option \<Rightarrow> relayConfig option" where
  "relayFromURL relayURL =
     map_option (\<lambda>u. \<lparr>rc_Host = url_hostname u, rc_Port = url_port u, rc_Username = url_username u,
                      rc_Password = url_password u\<rparr>) relayURL"

definition createRelayClient ::
  "net \<Rightarrow> relayConfig \<Rightarrow> mailaddr \<Rightarrow> mailaddr \<Rightarrow> (string + smtp_conn) client" where
  "createRelayClient N config from to =
     bindM (host_of from) (\<lambda>localname.
     (let target = rc_Host config @ '':'' @ rc_Port config in
      thenM (emit (WDial target))
      (case n_Dial N target of
         Inl e \<Rightarrow> returnM (Inl e)
       | Inr p \<Rightarrow>
           thenM (emit (WHello target localname))
           (case p_Hello p localname of
              Some e \<Rightarrow> returnM (Inl e)
            | None \<Rightarrow>
                thenM (if p_STARTTLS p then emit (WStartTLS target (rc_Host config)) else skipM)
                (if rc_Username config = [] then envelope_cmds (target, p) from to
                 else
                   thenM (emit (WAuth target (rc_Username config)))
                   (case p_Auth p (rc_Username config) (rc_Password config) of
                      Some e \<Rightarrow> thenM (emit (WClose target)) (returnM (Inl e))
                    | None \<Rightarrow> envelope_cmds (target, p) from to))))))"

section \<open>Sending\<close>

text \<open>
  The relay of the call, or else the configured one, if it has a host. The reply to the end of
  the message comes when the writer is closed, by a deferred call whose result nobody reads:
  it is only recorded.
\<close>

definition relay_for :: "relayConfig option \<Rightarrow> url option \<Rightarrow> relayConfig option" where
  "relay_for config relayOverride =
     (case (case relayFromURL relayOverride of Some r \<Rightarrow> Some r | None \<Rightarrow> config) of
        None \<Rightarrow> None
      | Some r \<Rightarrow> if rc_Host r \<noteq> [] then Some r else None)"

definition open_client ::
  "net \<Rightarrow> relayConfig option \<Rightarrow> mailaddr \<Rightarrow> mailaddr \<Rightarrow> (string + smtp_conn) client" where
  "open_client N relay from to =
     (case relay of
        Some r \<Rightarrow> createRelayClient N r from to
      | None \<Rightarrow> createDirectClient N from to)"

definition Client_Send ::
  "net \<Rightarrow> relayConfig option \<Rightarrow> mailaddr \<Rightarrow> mailaddr \<Rightarrow> string \<Rightarrow> url option \<Rightarrow> string option client" where
  "Client_Send N config from to data relayOverride =
     bindM (open_client N (relay_for config relayOverride) from to) (\<lambda>conn.
     case conn of
       Inl e \<Rightarrow> returnM (Some e)
     | Inr (target, p) \<Rightarrow>
         deferM
           (case p_Data p of
              Some e \<Rightarrow> returnM (Some e)
            | None \<Rightarrow>
                deferM (returnM (p_Write p data)) (emit (WMessage target data (p_Final p data))))
           (emit (WClose target)))"

section \<open>What the client promises\<close>

text \<open>
  The specification: which server is asked, and whose refusal is the answer. A host can be
  reached when the connection is made and the greeting is accepted.
\<close>

definition reachable :: "net \<Rightarrow> string \<Rightarrow> string \<Rightarrow> bool" where
  "reachable N localname host =
     (case n_Dial N (host @ '':25'') of Inl _ \<Rightarrow> False | Inr p \<Rightarrow> p_Hello p localname = None)"

definition candidates :: "string list \<Rightarrow> string \<Rightarrow> string list" where
  "candidates mxs host = map (\<lambda>mx. TrimSuffix mx ''.'') (filter (\<lambda>mx. mx \<noteq> ''.'') mxs) @ [host]"

definition server_at :: "net \<Rightarrow> string \<Rightarrow> smtp_conn" where
  "server_at N target = (target, projr (n_Dial N target))"

definition direct_server :: "net \<Rightarrow> string \<Rightarrow> string \<Rightarrow> string + smtp_conn" where
  "direct_server N localname host =
     (case n_LookupMX N host of
        Inl e \<Rightarrow> Inl e
      | Inr mxs \<Rightarrow>
          (case List.find (reachable N localname) (candidates mxs host) of
             None \<Rightarrow> Inl errNoSMTP
           | Some h \<Rightarrow> Inr (server_at N (h @ '':25''))))"

definition relay_server :: "net \<Rightarrow> relayConfig \<Rightarrow> string \<Rightarrow> string + smtp_conn" where
  "relay_server N r localname =
     (let target = rc_Host r @ '':'' @ rc_Port r in
      case n_Dial N target of
        Inl e \<Rightarrow> Inl e
      | Inr p \<Rightarrow>
          (case p_Hello p localname of
             Some e \<Rightarrow> Inl e
           | None \<Rightarrow>
               (case (if rc_Username r = [] then None else p_Auth p (rc_Username r) (rc_Password r)) of
                  Some e \<Rightarrow> Inl e
                | None \<Rightarrow> Inr (target, p))))"

fun first_error :: "string option list \<Rightarrow> string option" where
  "first_error [] = None"
| "first_error (Some e # es) = Some e"
| "first_error (None # es) = first_error es"

definition send_spec ::
  "net \<Rightarrow> relayConfig option \<Rightarrow> mailaddr \<Rightarrow> mailaddr \<Rightarrow> string \<Rightarrow> url option \<Rightarrow> string option" where
  "send_spec N config from to data relayOverride =
     (let localname = SplitN2 (CHR ''@'') from ! 1; host = SplitN2 (CHR ''@'') to ! 1 in
      case (case relay_for config relayOverride of
              Some r \<Rightarrow> relay_server N r localname
            | None \<Rightarrow> direct_server N localname host) of
        Inl e \<Rightarrow> Some e
      | Inr (target, p) \<Rightarrow> first_error [p_Mail p from, p_Rcpt p to, p_Data p, p_Write p data])"

section \<open>Lemmas\<close>

text \<open>\<open>gives r m\<close>: the action returns \<open>r\<close>, whatever was done before.\<close>

definition gives :: "'a \<Rightarrow> 'a client \<Rightarrow> bool" where
  "gives r m \<longleftrightarrow> (\<forall>l. fst (m l) = Ret r)"

named_theorems gives_rules "what an action of the client returns"

lemma gives_bind: "gives r m \<Longrightarrow> gives s (f r) \<Longrightarrow> gives s (bindM m f)"
  unfolding gives_def bindM_def by (auto split: prod.split res.split) (metis fst_conv res.inject(1) res.distinct(1))+

lemma gives_emit: "gives () (emit e)"
  by (simp add: gives_def emit_def modifyM_def)

lemma gives_then_emit [gives_rules]: "gives s m \<Longrightarrow> gives s (thenM (emit e) m)"
  unfolding thenM_def by (rule gives_bind [OF gives_emit])

lemma gives_returnM [gives_rules]: "r = s \<Longrightarrow> gives s (returnM r)"
  by (simp add: gives_def returnM_def)

lemma gives_tls [gives_rules]: "gives s m \<Longrightarrow> gives s (thenM (if b then emit e else skipM) m)"
  unfolding thenM_def by (rule gives_bind [where r = "()"]) (auto simp: gives_def emit_def modifyM_def skipM_def returnM_def)

lemma gives_then_skip [gives_rules]: "gives s m \<Longrightarrow> gives s (thenM skipM m)"
  using gives_tls [of s m False] by simp

lemma first_error_Cons: "first_error (x # xs) = (case x of Some e \<Rightarrow> Some e | None \<Rightarrow> first_error xs)"
  by (cases x) auto

lemma gives_defer_emit [gives_rules]: "gives r m \<Longrightarrow> gives r (deferM m (emit e))"
  by (auto simp: gives_def deferM_def emit_def modifyM_def split: prod.split) (metis fst_conv)

lemma gives_connect:
  "gives (if reachable N localname h then Some (server_at N (h @ '':25'')) else None) (connect N localname h)"
  unfolding connect_def
  by (auto simp: reachable_def server_at_def Let_def intro!: gives_rules split: sum.split)

lemma gives_mx_loop:
  "gives (map_option (\<lambda>h. server_at N (h @ '':25''))
            (List.find (reachable N localname) (map (\<lambda>mx. TrimSuffix mx ''.'') (filter (\<lambda>mx. mx \<noteq> ''.'') mxs))))
     (mx_loop N localname mxs)"
  by (induction mxs) (auto intro!: gives_rules gives_bind [OF gives_connect])

lemma find_append: "List.find P (xs @ ys) = (case List.find P xs of None \<Rightarrow> List.find P ys | Some x \<Rightarrow> Some x)"
  by (induction xs) auto

lemma gives_trySMTP: "gives (direct_server N localname host) (trySMTP N localname host)"
  unfolding trySMTP_def direct_server_def
  by (auto simp: candidates_def find_append intro!: gives_rules gives_bind [OF gives_mx_loop]
      gives_bind [OF gives_connect] split: sum.split option.split)

lemma gives_host_of: "CHR ''@'' \<in> set a \<Longrightarrow> gives (SplitN2 (CHR ''@'') a ! 1) (host_of a)"
  using SplitN2_cases [of "CHR ''@''" a] by (auto simp: host_of_def intro!: gives_rules)

lemma gives_envelope:
  "gives (case first_error [p_Mail p from, p_Rcpt p to] of Some e \<Rightarrow> Inl e | None \<Rightarrow> Inr (target, p))
     (envelope_cmds (target, p) from to)"
  unfolding envelope_cmds_def
  by (cases "p_Mail p from"; cases "p_Rcpt p to") (auto intro!: gives_rules)

lemma gives_envelope_eq:
  "r = (case first_error [p_Mail p from, p_Rcpt p to] of Some e \<Rightarrow> Inl e | None \<Rightarrow> Inr (target, p)) \<Longrightarrow>
   gives r (envelope_cmds (target, p) from to)"
  using gives_envelope by simp

lemma gives_open:
  assumes "CHR ''@'' \<in> set from" and "CHR ''@'' \<in> set to"
  shows "gives (case (case relay of
              Some r \<Rightarrow> relay_server N r (SplitN2 (CHR ''@'') from ! 1)
            | None \<Rightarrow> direct_server N (SplitN2 (CHR ''@'') from ! 1) (SplitN2 (CHR ''@'') to ! 1)) of
        Inl e \<Rightarrow> Inl e
      | Inr (target, p) \<Rightarrow>
         (case first_error [p_Mail p from, p_Rcpt p to] of Some e \<Rightarrow> Inl e | None \<Rightarrow> Inr (target, p)))
    (open_client N relay from to)"
proof (cases relay)
  case None
  show ?thesis
    unfolding None open_client_def createDirectClient_def option.case
    by (intro gives_bind [OF gives_host_of [OF assms(1)]] gives_bind [OF gives_host_of [OF assms(2)]]
        gives_bind [OF gives_trySMTP])
      (auto intro!: gives_rules gives_envelope split: sum.split)
next
  case (Some r)
  show ?thesis
    unfolding Some open_client_def createRelayClient_def option.case relay_server_def Let_def
    by (intro gives_bind [OF gives_host_of [OF assms(1)]])
      (auto intro!: gives_rules gives_envelope_eq split: sum.split option.split)
qed

section \<open>Properties\<close>

text \<open>
  C5: the client implements its specification: the relay of the call, else the configured relay,
  else the first MX host of the recipient's domain that can be reached, and the domain itself
  when none can; the result is the first refusal on the way, and success when there is none. The
  addresses must have an at-sign.
\<close>

theorem Client_Send_refines:
  assumes "CHR ''@'' \<in> set from" and "CHR ''@'' \<in> set to"
  shows "fst (Client_Send N config from to data relayOverride l) =
    Ret (send_spec N config from to data relayOverride)"
proof -
  have "gives (send_spec N config from to data relayOverride) (Client_Send N config from to data relayOverride)"
    unfolding Client_Send_def send_spec_def Let_def
    by (rule gives_bind [OF gives_open [OF assms]])
      (auto intro!: gives_rules simp: first_error_Cons split: sum.split option.split)
  then show ?thesis by (simp add: gives_def)
qed


text \<open>A network for the witnesses: two exchangers of which the second answers.\<close>

definition demo_peer :: peer where
  "demo_peer =
     \<lparr>p_Hello = (\<lambda>_. None), p_STARTTLS = True, p_Auth = (\<lambda>_ _. None), p_Mail = (\<lambda>_. None),
      p_Rcpt = (\<lambda>_. None), p_Data = None, p_Write = (\<lambda>_. None), p_Final = (\<lambda>_. Some ''451 try again'')\<rparr>"

definition demo_net :: net where
  "demo_net =
     \<lparr>n_Dial = (\<lambda>t. if t = ''mx2.example.org:25'' then Inr demo_peer else Inl ''connection refused''),
      n_LookupMX = (\<lambda>_. Inr [''mx1.example.org.'', ''.'', ''mx2.example.org.''])\<rparr>"

theorem Client_Send_refines_witness:
  "Client_Send demo_net None ''bob@example.com'' ''eve@example.org'' ''hi'' None [] =
     (Ret None,
      [WDial ''mx1.example.org:25'', WDial ''mx2.example.org:25'', WHello ''mx2.example.org:25'' ''example.com'',
       WStartTLS ''mx2.example.org:25'' ''mx2.example.org'', WMail ''mx2.example.org:25'' ''bob@example.com'',
       WRcpt ''mx2.example.org:25'' ''eve@example.org'',
       WMessage ''mx2.example.org:25'' ''hi'' (Some ''451 try again''), WClose ''mx2.example.org:25'']) \<and>
   send_spec demo_net None ''bob@example.com'' ''eve@example.org'' ''hi'' None = None"
proof -
  have run: "Client_Send demo_net None ''bob@example.com'' ''eve@example.org'' ''hi'' None [] =
     (Ret None,
      [WDial ''mx1.example.org:25'', WDial ''mx2.example.org:25'', WHello ''mx2.example.org:25'' ''example.com'',
       WStartTLS ''mx2.example.org:25'' ''mx2.example.org'', WMail ''mx2.example.org:25'' ''bob@example.com'',
       WRcpt ''mx2.example.org:25'' ''eve@example.org'',
       WMessage ''mx2.example.org:25'' ''hi'' (Some ''451 try again''), WClose ''mx2.example.org:25''])"
    by code_simp
  then show ?thesis
    using Client_Send_refines [of "''bob@example.com''" "''eve@example.org''" demo_net None "''hi''" None "[]"] by simp
qed

text \<open>The network with other replies to the end of the message.\<close>

definition with_final :: "(string \<Rightarrow> string \<Rightarrow> string option) \<Rightarrow> net \<Rightarrow> net" where
  "with_final f N = N\<lparr>n_Dial := \<lambda>t. map_sum id (\<lambda>p. p\<lparr>p_Final := f t\<rparr>) (n_Dial N t)\<rparr>"

definition final_conn :: "(string \<Rightarrow> string \<Rightarrow> string option) \<Rightarrow> smtp_conn \<Rightarrow> smtp_conn" where
  "final_conn f c = (fst c, (snd c)\<lparr>p_Final := f (fst c)\<rparr>)"

text \<open>\<open>parallel g m n\<close>: \<open>n\<close> does what \<open>m\<close> does, and returns what \<open>g\<close> makes of its result.\<close>

definition parallel :: "('a \<Rightarrow> 'b) \<Rightarrow> 'a client \<Rightarrow> 'b client \<Rightarrow> bool" where
  "parallel g m n \<longleftrightarrow> (\<forall>l. n l = (map_res g (fst (m l)), snd (m l)))"

lemma parallel_bind:
  "parallel g m n \<Longrightarrow> (\<And>x. parallel h (f x) (f' (g x))) \<Longrightarrow> parallel h (bindM m f) (bindM n f')"
  by (auto simp: parallel_def bindM_def split: prod.split res.split)

lemma parallel_same: "parallel id m m"
  by (simp add: parallel_def res.map_id)

lemma parallel_returnM: "g x = y \<Longrightarrow> parallel g (returnM x) (returnM y)"
  by (simp add: parallel_def returnM_def)

lemma parallel_bind_same: "(\<And>x. parallel h (f x) (f' x)) \<Longrightarrow> parallel h (bindM m f) (bindM m f')"
  using parallel_bind [OF parallel_same, of h f f' m] by simp

lemma parallel_then: "(parallel h m n) \<Longrightarrow> parallel h (thenM e m) (thenM e n)"
  unfolding thenM_def by (rule parallel_bind [OF parallel_same]) simp

lemmas parallel_rules = parallel_then parallel_returnM

lemma parallel_connect: "parallel (map_option (final_conn f)) (connect N ln h) (connect (with_final f N) ln h)"
  unfolding connect_def Let_def
  by (auto simp: with_final_def final_conn_def intro!: parallel_rules split: sum.split)

lemma parallel_mx_loop: "parallel (map_option (final_conn f)) (mx_loop N ln mxs) (mx_loop (with_final f N) ln mxs)"
  by (induction mxs)
    (auto intro!: parallel_rules parallel_bind [OF parallel_connect] split: option.split)

lemma parallel_trySMTP:
  "parallel (map_sum id (final_conn f)) (trySMTP N ln h) (trySMTP (with_final f N) ln h)"
proof -
  have "n_LookupMX (with_final f N) = n_LookupMX N" by (simp add: with_final_def)
  then show ?thesis
    unfolding trySMTP_def
    by (auto intro!: parallel_rules parallel_bind [OF parallel_mx_loop] parallel_bind [OF parallel_connect]
        split: sum.split option.split)
qed

lemma parallel_envelope:
  "parallel (map_sum id (final_conn f)) (envelope_cmds c from to) (envelope_cmds (final_conn f c) from to)"
  by (cases c) (auto simp: envelope_cmds_def final_conn_def intro!: parallel_rules split: option.split)

lemma parallel_open:
  "parallel (map_sum id (final_conn f)) (open_client N relay from to) (open_client (with_final f N) relay from to)"
proof (cases relay)
  case None
  show ?thesis
    unfolding None open_client_def createDirectClient_def option.case
    by (rule parallel_bind_same, rule parallel_bind_same, rule parallel_bind [OF parallel_trySMTP])
      (rename_tac c, case_tac c; simp add: parallel_envelope parallel_returnM)
next
  case (Some r)
  have e: "parallel (map_sum id (final_conn f)) (envelope_cmds (t, p) from to)
      (envelope_cmds (t, p\<lparr>p_Final := f t\<rparr>) from to)" for t p
    using parallel_envelope [of f "(t, p)"] by (simp add: final_conn_def)
  show ?thesis
    unfolding Some open_client_def createRelayClient_def option.case Let_def
    by (rule parallel_bind_same)
      (auto simp: with_final_def intro!: parallel_rules e split: sum.split option.split)
qed

text \<open>
  C28: the client never sees the reply to the message itself. Whatever the servers answer to the
  end of the data, a refusal or a request to try later, the result of the call is the same; when
  the earlier replies were positive it is success.
\<close>

theorem Client_Send_ignores_final_reply:
  "fst (Client_Send (with_final f N) config from to data relayOverride l) =
   fst (Client_Send N config from to data relayOverride l)"
proof -
  let ?m = "open_client N (relay_for config relayOverride) from to"
  obtain r l' where m: "?m l = (r, l')" by fastforce
  then have "open_client (with_final f N) (relay_for config relayOverride) from to l =
      (map_res (map_sum id (final_conn f)) r, l')"
    using parallel_open [of f N "relay_for config relayOverride" "from" to] by (simp add: parallel_def)
  then show ?thesis
    using m by (cases r)
      (auto simp: Client_Send_def bindM_def deferM_def emit_def modifyM_def returnM_def final_conn_def
        split: sum.split option.split)
qed

end
