(* ===== verification/Listener.thy ===== *)
theory Listener
  imports Smtp_Session
begin

text \<open>
  The listener that drops connections of banned addresses (internal/smtp/listener.go). What happens
  around it is a list of events, in the order in which the loop of \<open>Accept\<close> sees them: a connection
  arrives, the socket fails, another goroutine calls \<open>Close\<close> or \<open>SetTLSConfig\<close>. TLS itself is not
  modelled: a connection behind TLS carries the certificates that were in force when it was accepted.

  \<open>ban_check\<close> is what the listener needs of the bot: an answer to \<open>IsBanned\<close> that changes nothing. It
  is interpreted for the bot whose options and ban list are loaded.
\<close>

section \<open>listener.go\<close>

record 'c listener =
  l_done :: bool
  l_tls :: "'c list option"

datatype 'c listener_event =
    Arrives netaddr
  | AcceptFails string
  | CloseCalled
  | ConfigSet "'c list option"

datatype 'c net_conn = PlainConn netaddr | TLSConn netaddr "'c list option"

text \<open>\<open>opened\<close> is the error of the call that opens the port, if it has one.\<close>

definition NewListener :: "string option \<Rightarrow> 'c list option \<Rightarrow> string + 'c listener" where
  "NewListener opened tlsConfig =
     (case opened of Some e \<Rightarrow> Inl e | None \<Rightarrow> Inr \<lparr>l_done = False, l_tls = tlsConfig\<rparr>)"

definition SetTLSConfig :: "'c list option \<Rightarrow> 'c listener \<Rightarrow> 'c listener" where
  "SetTLSConfig cfg l = l\<lparr>l_tls := cfg\<rparr>"

definition acceptTLS :: "'c listener \<Rightarrow> netaddr \<Rightarrow> 'c net_conn" where
  "acceptTLS l addr = TLSConn addr (l_tls l)"

text \<open>Closing the channel a second time panics.\<close>

definition listener_Close :: "'c listener \<Rightarrow> 'c listener res" where
  "listener_Close l = (if l_done l then Panic ''close of closed channel'' else Ret (l\<lparr>l_done := True\<rparr>))"

text \<open>\<open>None\<close> says that \<open>Accept\<close> still waits when the events end.\<close>

fun Accept ::
  "'w matrixbot \<Rightarrow> 'c listener \<Rightarrow> 'c listener_event list \<Rightarrow>
   ('w, 'c listener \<times> ((string + 'c net_conn) \<times> 'c listener_event list) option) action" where
  "Accept B l [] = returnM (l, None)"
| "Accept B l (Arrives addr # evs) =
     bindM (mb_IsBanned B addr) (\<lambda>banned.
     if banned then Accept B l evs
     else returnM (l, Some (Inr (if l_tls l \<noteq> None then acceptTLS l addr else PlainConn addr), evs)))"
| "Accept B l (AcceptFails e # evs) =
     (if l_done l then returnM (l, Some (Inl e, evs)) else Accept B l evs)"
| "Accept B l (CloseCalled # evs) =
     bindM (liftM (listener_Close l)) (\<lambda>l. Accept B l evs)"
| "Accept B l (ConfigSet cfg # evs) = Accept B (SetTLSConfig cfg l) evs"

section \<open>What the listener relies on\<close>

text \<open>The state of the listener after the events that only change it.\<close>

fun listener_after :: "'c listener \<Rightarrow> 'c listener_event list \<Rightarrow> 'c listener" where
  "listener_after l [] = l"
| "listener_after l (CloseCalled # evs) = listener_after (l\<lparr>l_done := True\<rparr>) evs"
| "listener_after l (ConfigSet cfg # evs) = listener_after (SetTLSConfig cfg l) evs"
| "listener_after l (_ # evs) = listener_after l evs"

text \<open>Events the loop goes past: banned addresses, failures while the listener is open, changes.\<close>

fun skipped :: "(netaddr \<Rightarrow> bool) \<Rightarrow> 'c listener \<Rightarrow> 'c listener_event list \<Rightarrow> bool" where
  "skipped ban l [] \<longleftrightarrow> True"
| "skipped ban l (Arrives a # evs) \<longleftrightarrow> ban a \<and> skipped ban l evs"
| "skipped ban l (AcceptFails e # evs) \<longleftrightarrow> \<not> l_done l \<and> skipped ban l evs"
| "skipped ban l (CloseCalled # evs) \<longleftrightarrow> \<not> l_done l \<and> skipped ban (l\<lparr>l_done := True\<rparr>) evs"
| "skipped ban l (ConfigSet cfg # evs) \<longleftrightarrow> skipped ban (SetTLSConfig cfg l) evs"

locale ban_check =
  fixes B :: "'w matrixbot" and I :: "'w \<Rightarrow> bool" and ban :: "'w \<Rightarrow> netaddr \<Rightarrow> bool"
  assumes IsBanned_answers: "I w \<Longrightarrow> mb_IsBanned B a w = (Ret (ban w a), w)"
begin

lemma Accept_skipped: "I w \<Longrightarrow> skipped (ban w) l pre \<Longrightarrow> Accept B l (pre @ evs) w = Accept B (listener_after l pre) evs w"
  by (induction "ban w" l pre rule: skipped.induct)
    (auto simp: IsBanned_answers run_simps listener_Close_def liftM_def)

lemma Accept_waits: "I w \<Longrightarrow> skipped (ban w) l evs \<Longrightarrow> Accept B l evs w = (Ret (listener_after l evs, None), w)"
  using Accept_skipped [of w l evs "[]"] by (simp add: run_simps)

lemma Accept_conn:
  assumes "I w" and "skipped (ban w) l pre" and "\<not> ban w a" and "listener_after l pre = l'"
  shows "Accept B l (pre @ Arrives a # rest) w =
    (Ret (l', Some (Inr (case l_tls l' of None \<Rightarrow> PlainConn a | Some certs \<Rightarrow> TLSConn a (Some certs)), rest)), w)"
  using assms by (simp add: Accept_skipped IsBanned_answers run_simps acceptTLS_def split: option.split)

lemma Accept_closed:
  assumes "I w" and "skipped (ban w) l pre" and "l_done (listener_after l pre)"
  shows "Accept B l (pre @ AcceptFails e # rest) w = (Ret (listener_after l pre, Some (Inl e, rest)), w)"
  using assms by (simp add: Accept_skipped run_simps)

end

text \<open>The bot with its options and its ban list loaded; without the list enabled nobody is banned.\<close>

definition lists_loaded :: "'a bot_state_scheme \<Rightarrow> bool" where
  "lists_loaded w \<longleftrightarrow> (\<exists>bc. bot_ready w bc) \<and> banned w \<noteq> None"

definition is_banned :: "'a bot_state_scheme \<Rightarrow> netaddr \<Rightarrow> bool" where
  "is_banned w a \<longleftrightarrow> (case (bot_cfg w, banned w) of (Some bc, Some l) \<Rightarrow> BanlistEnabled bc \<and> List_Has l a | _ \<Rightarrow> False)"

interpretation pmlistener: ban_check "postmoogle X" lists_loaded is_banned for X
proof
  fix w :: "'a bot_state_scheme" and a
  assume "lists_loaded w"
  then obtain bc l where w: "bot_ready w bc" "banned w = Some l" by (auto simp: lists_loaded_def)
  have "IsBanned a w = (Ret (BanlistEnabled bc \<and> List_Has l a), w)"
  proof (cases "BanlistEnabled bc")
    case False
    with w show ?thesis by (simp add: IsBanned_def GetBanlist_def List_Has_def run_simps)
  qed (use w in \<open>simp add: run_IsBanned\<close>)
  with w show "mb_IsBanned (postmoogle X) a w = (Ret (is_banned w a), w)"
    by (simp add: postmoogle_def is_banned_def bot_ready_def)
qed

section \<open>Property\<close>

text \<open>
  C38: what \<open>Accept\<close> returns. It goes past banned addresses, failures of an open listener and changes
  of the certificates; the first other address gets a connection, behind TLS with the certificates in
  force by then, if there are some; once the listener is closed the next failure ends it.
\<close>

theorem Accept_decides:
  assumes "lists_loaded w" and "skipped (is_banned w) l pre" and "l' = listener_after l pre"
  shows "Accept (postmoogle X) l pre w = (Ret (l', None), w) \<and>
    (\<forall>a rest. \<not> is_banned w a \<longrightarrow> Accept (postmoogle X) l (pre @ Arrives a # rest) w =
       (Ret (l', Some (Inr (case l_tls l' of None \<Rightarrow> PlainConn a | Some certs \<Rightarrow> TLSConn a (Some certs)), rest)), w)) \<and>
    (\<forall>e rest. l_done l' \<longrightarrow> Accept (postmoogle X) l (pre @ AcceptFails e # rest) w = (Ret (l', Some (Inl e, rest)), w))"
  unfolding assms(3) using assms(1,2)
  by (intro conjI allI impI pmlistener.Accept_waits pmlistener.Accept_conn pmlistener.Accept_closed) simp_all

theorem Accept_decides_witness:
  "fst (Accept (postmoogle demo_ext) \<lparr>l_done = False, l_tls = None\<rparr>
     [AcceptFails ''timeout'', ConfigSet (Some [''cert'']), Arrives ''192.0.2.7:25'']
     (bot_demo fmempty [] [])) = Ret (\<lparr>l_done = False, l_tls = Some [''cert'']\<rparr>, Some (Inr (TLSConn ''192.0.2.7:25'' (Some [''cert''])), []))"
proof -
  let ?w = "bot_demo fmempty [] []" and ?l = "\<lparr>l_done = False, l_tls = None\<rparr>"
  let ?l' = "\<lparr>l_done = False, l_tls = Some [''cert'']\<rparr>" and ?pre = "[AcceptFails ''timeout'', ConfigSet (Some [''cert''])]"
  have "bot_ready ?w (fmupd BotDKIMPrivateKey ''pem'' fmempty)" "banned ?w \<noteq> None" by (rule bot_demo_ready) simp
  then have w: "lists_loaded ?w" unfolding lists_loaded_def by blast
  have "\<not> is_banned ?w ''192.0.2.7:25''" by (simp add: is_banned_def List_Has_def)
  moreover have "skipped (is_banned ?w) ?l ?pre" "?l' = listener_after ?l ?pre" by (simp_all add: SetTLSConfig_def)
  ultimately have "Accept (postmoogle demo_ext) ?l (?pre @ Arrives ''192.0.2.7:25'' # []) ?w =
      (Ret (?l', Some (Inr (case l_tls ?l' of None \<Rightarrow> PlainConn ''192.0.2.7:25''
         | Some certs \<Rightarrow> TLSConn ''192.0.2.7:25'' (Some certs)), [])), ?w)"
    using Accept_decides [OF w] by blast
  then show ?thesis by (simp only: append.simps fst_conv option.case listener.select_convs)
qed

end
