(* ===== verification/Logging.thy ===== *)
theory Logging
  imports GoStrings
begin

text \<open>
  Logging: what the program uses of the vendored package zerolog (levels, the level of a logger and the
  global one), \<open>initLog\<close> of cmd/postmoogle/main.go, the adapters of internal/smtp/logger.go, and the copy
  of its traffic a connection of the vendored SMTP server writes to them. The world of an action is the
  logger, with the messages it has written. Lines that only say what the program does are not modelled.
\<close>

section \<open>zerolog\<close>

type_synonym level = int

definition TraceLevel :: level where "TraceLevel = - 1"
definition DebugLevel :: level where "DebugLevel = 0"
definition InfoLevel :: level where "InfoLevel = 1"
definition WarnLevel :: level where "WarnLevel = 2"
definition ErrorLevel :: level where "ErrorLevel = 3"
definition FatalLevel :: level where "FatalLevel = 4"
definition PanicLevel :: level where "PanicLevel = 5"
definition NoLevel :: level where "NoLevel = 6"
definition Disabled :: level where "Disabled = 7"

lemmas level_defs =
  TraceLevel_def DebugLevel_def InfoLevel_def WarnLevel_def ErrorLevel_def FatalLevel_def PanicLevel_def
  NoLevel_def Disabled_def

definition EqualFold :: "string \<Rightarrow> string \<Rightarrow> bool" where
  "EqualFold s t \<longleftrightarrow> ToLower s = ToLower t"

text \<open>The level of a name, a number of 8 bits, or an error.\<close>

definition ParseLevel :: "string \<Rightarrow> level option" where
  "ParseLevel s =
     (if EqualFold s ''trace'' then Some TraceLevel
      else if EqualFold s ''debug'' then Some DebugLevel
      else if EqualFold s ''info'' then Some InfoLevel
      else if EqualFold s ''warn'' then Some WarnLevel
      else if EqualFold s ''error'' then Some ErrorLevel
      else if EqualFold s ''fatal'' then Some FatalLevel
      else if EqualFold s ''panic'' then Some PanicLevel
      else if EqualFold s ''disabled'' then Some Disabled
      else if EqualFold s '''' then Some NoLevel
      else (case Atoi s of None \<Rightarrow> None | Some i \<Rightarrow> if i > 127 \<or> i < - 128 then None else Some i))"

record logger =
  lg_level :: level
  lg_global :: level
  lg_lines :: "(level \<times> string) list"

definition should :: "logger \<Rightarrow> level \<Rightarrow> bool" where
  "should l lvl =
     (if lg_level l = Disabled then False else if lvl < lg_level l \<or> lvl < lg_global l then False else True)"

definition log_Msg :: "level \<Rightarrow> string \<Rightarrow> (logger, unit) action" where
  "log_Msg lvl msg = modifyM (\<lambda>l. if should l lvl then l\<lparr>lg_lines := lg_lines l @ [(lvl, msg)]\<rparr> else l)"

text \<open>
  \<open>fmt.Sprintf\<close> with the verbs the program and the SMTP server use here, on values that are already
  printed: \<open>%v\<close> and \<open>%s\<close>. A verb without a value and a value without a verb are marked, the latter without
  its type.
\<close>

fun Sprintf :: "string \<Rightarrow> string list \<Rightarrow> string" where
  "Sprintf [] [] = []"
| "Sprintf [] (v # vs) = ''%!(EXTRA '' @ Join (v # vs) '', '' @ '')''"
| "Sprintf [c] vs = (if c = CHR ''%'' then ''%!(NOVERB)'' else [c]) @ Sprintf [] vs"
| "Sprintf (c # d # cs) vs =
     (if c \<noteq> CHR ''%'' then c # Sprintf (d # cs) vs
      else if d = CHR ''%'' then CHR ''%'' # Sprintf cs vs
      else (case vs of
              [] \<Rightarrow> ''%!'' @ [d] @ ''(MISSING)'' @ Sprintf cs []
            | v # vs' \<Rightarrow> v @ Sprintf cs vs'))"

section \<open>initLog\<close>

text \<open>
  \<open>initLog\<close> sets the global level. The level of the logger itself stays that of a new one, which is
  the lowest.
\<close>

definition zerolog_New :: logger where
  "zerolog_New = \<lparr>lg_level = TraceLevel, lg_global = TraceLevel, lg_lines = []\<rparr>"

definition initLog :: "string \<Rightarrow> logger" where
  "initLog LogLevel =
     (let loglevel = (case ParseLevel LogLevel of Some level \<Rightarrow> level | None \<Rightarrow> InfoLevel)
      in zerolog_New\<lparr>lg_global := loglevel\<rparr>)"

section \<open>The adapters\<close>

definition strings_Repeat :: "string \<Rightarrow> nat \<Rightarrow> string" where
  "strings_Repeat s n = concat (replicate n s)"

type_synonym loggerWrapper = "string \<Rightarrow> string list \<Rightarrow> (logger, unit) action"

definition Printf :: "loggerWrapper \<Rightarrow> string \<Rightarrow> string list \<Rightarrow> (logger, unit) action" where
  "Printf l format v = l format v"

definition Println :: "loggerWrapper \<Rightarrow> string list \<Rightarrow> (logger, unit) action" where
  "Println l v = (let msg = strings_Repeat ''%v '' (length v) in l msg v)"

type_synonym loggerWriter = "string \<Rightarrow> (logger, unit) action"

definition loggerWriter_Write :: "loggerWriter \<Rightarrow> string \<Rightarrow> (logger, nat \<times> string option) action" where
  "loggerWriter_Write l p = thenM (l p) (returnM (length p, None))"

text \<open>What \<open>NewManager\<close> gives to the server as \<open>ErrorLog\<close> and \<open>Debug\<close>, and for which levels it sets \<open>Debug\<close>.\<close>

definition smtp_ErrorLog :: loggerWrapper where
  "smtp_ErrorLog s i = log_Msg WarnLevel (Sprintf s i)"

definition smtp_Debug :: loggerWriter where
  "smtp_Debug s = log_Msg InfoLevel s"

definition debug_level :: "level \<Rightarrow> bool" where
  "debug_level loglevel \<longleftrightarrow> loglevel = InfoLevel \<or> loglevel = DebugLevel \<or> loglevel = TraceLevel"

section \<open>The traffic of a connection\<close>

text \<open>
  The connection of the SMTP server (go-smtp, \<open>init\<close>) reads through a \<open>TeeReader\<close> and writes through a
  \<open>MultiWriter\<close> when \<open>Debug\<close> is set: the bytes of a read, unless there are none, and those of a successful
  write are written to \<open>Debug\<close> too. This happens above TLS.
\<close>

datatype traffic = Received string | Sent string

fun traffic_bytes :: "traffic \<Rightarrow> string" where
  "traffic_bytes (Received p) = p"
| "traffic_bytes (Sent p) = p"

fun conn_io :: "bool \<Rightarrow> traffic \<Rightarrow> (logger, unit) action" where
  "conn_io debug (Received p) =
     (if debug \<and> p \<noteq> [] then thenM (loggerWriter_Write smtp_Debug p) skipM else skipM)"
| "conn_io debug (Sent p) = (if debug then thenM (loggerWriter_Write smtp_Debug p) skipM else skipM)"

definition conn_traffic :: "bool \<Rightarrow> traffic list \<Rightarrow> (logger, unit) action" where
  "conn_traffic debug ts = forM ts (conn_io debug)"

section \<open>Lemmas\<close>

lemma Println_text: "Sprintf (strings_Repeat ''%v '' (length vs)) vs = concat (map (\<lambda>v. v @ '' '') vs)"
proof -
  have "Sprintf (strings_Repeat ''%v '' (length vs)) vs = concat (map (\<lambda>v. v @ '' '') vs)" for vs
  proof (induction vs)
    case (Cons v vs)
    obtain r where r: "strings_Repeat ''%v '' (length vs) = r" by simp
    have "Sprintf (CHR '' '' # r) vs = CHR '' '' # Sprintf r vs"
      by (cases r; cases vs) auto
    with Cons.IH r show ?case by (simp add: strings_Repeat_def)
  qed (simp add: strings_Repeat_def)
  then show ?thesis .
qed

text \<open>A line of the SMTP server prints every value once, in order, at level warn.\<close>

lemma Println_logs:
  "snd (Println smtp_ErrorLog vs l) =
     (if should l WarnLevel
      then l\<lparr>lg_lines := lg_lines l @ [(WarnLevel, concat (map (\<lambda>v. v @ '' '') vs))]\<rparr> else l)"
  by (simp add: Println_def Let_def smtp_ErrorLog_def log_Msg_def modifyM_def Println_text)

lemma Write_whole: "fst (loggerWriter_Write smtp_Debug p l) = Ret (length p, None)"
  by (simp add: loggerWriter_Write_def smtp_Debug_def log_Msg_def run_simps bindM_def modifyM_def)

lemma initLog_sel [simp]: "lg_level (initLog s) = TraceLevel" "lg_lines (initLog s) = []"
  by (simp_all add: initLog_def zerolog_New_def Let_def)

lemma initLog_global: "lg_global (initLog s) = (case ParseLevel s of Some level \<Rightarrow> level | None \<Rightarrow> InfoLevel)"
  by (simp add: initLog_def Let_def)

text \<open>The messages of a sequence of reads and writes.\<close>

definition logged :: "traffic list \<Rightarrow> (level \<times> string) list" where
  "logged ts = map (\<lambda>t. (InfoLevel, traffic_bytes t)) (filter (\<lambda>t. t \<noteq> Received []) ts)"

lemma run_conn_io:
  "conn_io debug t l =
     (Ret (), if debug \<and> should l InfoLevel then l\<lparr>lg_lines := lg_lines l @ logged [t]\<rparr> else l)"
  by (cases t)
    (auto simp: loggerWriter_Write_def smtp_Debug_def log_Msg_def logged_def run_simps bindM_def modifyM_def)

lemma run_conn_traffic:
  "conn_traffic debug ts l =
     (Ret (), if debug \<and> should l InfoLevel then l\<lparr>lg_lines := lg_lines l @ logged ts\<rparr> else l)"
proof (induction ts arbitrary: l)
  case (Cons t ts)
  have "should (l\<lparr>lg_lines := x\<rparr>) = should l" for x by (simp add: should_def fun_eq_iff)
  with Cons.IH show ?case
    by (simp add: conn_traffic_def thenM_def bindM_def run_conn_io) (simp add: logged_def)
qed (simp add: conn_traffic_def run_simps logged_def)

end
