(* ===== verification/Monitoring.thy ===== *)
theory Monitoring
  imports Prelude
begin

text \<open>
  The client of the vendored package go-healthchecks as main.go uses it: a client that has a check, the
  requests it sends, and the ticker of \<open>Auto\<close>. A request is its endpoint and its body; that it is sent
  in a goroutine, with retries, is not modelled. A client that is shut down sends nothing.
\<close>

record hc_client =
  hc_baseURL :: string
  hc_uuid :: string
  hc_enabled :: bool
  hc_closed :: bool
  hc_sent :: "(string \<times> string option) list"

definition hc_New :: "string \<Rightarrow> string \<Rightarrow> hc_client" where
  "hc_New url uuid = \<lparr>hc_baseURL = url, hc_uuid = uuid, hc_enabled = True, hc_closed = False, hc_sent = []\<rparr>"

definition hc_Call :: "string \<Rightarrow> string option \<Rightarrow> hc_client \<Rightarrow> hc_client" where
  "hc_Call endpoint body c =
     (if \<not> hc_enabled c \<or> hc_closed c then c else c\<lparr>hc_sent := hc_sent c @ [(endpoint, body)]\<rparr>)"

definition hc_Start :: "string \<Rightarrow> hc_client \<Rightarrow> hc_client" where
  "hc_Start body = hc_Call ''/start'' (Some body)"

definition hc_ExitStatus :: "string \<Rightarrow> string \<Rightarrow> hc_client \<Rightarrow> hc_client" where
  "hc_ExitStatus code body = hc_Call (''/'' @ code) (Some body)"

definition hc_Shutdown :: "hc_client \<Rightarrow> hc_client" where
  "hc_Shutdown c = (if hc_closed c then c else c\<lparr>hc_closed := True\<rparr>)"

text \<open>\<open>Auto\<close> creates its ticker first, which panics for an interval that is not positive.\<close>

definition hc_Auto :: "int \<Rightarrow> ('w, unit) action" where
  "hc_Auto every = (if every \<le> 0 then panicM ''non-positive interval for NewTicker'' else skipM)"

lemma ExitStatus_after_Shutdown [simp]: "hc_ExitStatus code body (hc_Shutdown c) = hc_Shutdown c"
  by (simp add: hc_ExitStatus_def hc_Call_def hc_Shutdown_def)

lemma hc_Shutdown_sel [simp]: "hc_closed (hc_Shutdown c)" "hc_sent (hc_Shutdown c) = hc_sent c"
  by (simp_all add: hc_Shutdown_def)

lemma hc_ExitStatus_closed [simp]: "hc_closed c \<Longrightarrow> hc_ExitStatus code body c = c"
  by (simp add: hc_ExitStatus_def hc_Call_def)

end
