(* ===== verification/Setup.thy ===== *)
theory Setup
  imports Smtp_Client Listener Logging Monitoring
begin

text \<open>
  How the program is put together: the configuration from the environment (internal/config, with
  the vendored package go-env), the TLS state of the SMTP server (internal/smtp/manager.go), and
  the wiring of cmd/postmoogle/main.go. The environment is a function from names to values, the
  empty string where a variable is not set.
\<close>

section \<open>go-env\<close>

definition ToUpper :: "string \<Rightarrow> string" where
  "ToUpper = map (\<lambda>c. if CHR ''a'' \<le> c \<and> c \<le> CHR ''z'' then char_of (of_char c - 32 :: nat) else c)"

type_synonym env = "string \<Rightarrow> string"

definition env_key :: "string \<Rightarrow> string" where
  "env_key shortkey = ToUpper (''postmoogle_'' @ ReplaceAll shortkey ''.'' ''_'')"

definition env_String :: "env \<Rightarrow> string \<Rightarrow> string \<Rightarrow> string" where
  "env_String env shortkey dv =
     (let v = TrimSpace (env (env_key shortkey)) in if v = [] then dv else v)"

definition env_Int :: "env \<Rightarrow> string \<Rightarrow> int \<Rightarrow> int" where
  "env_Int env shortkey dv =
     (let str = env_String env shortkey [] in
      if str = [] then dv else (case Atoi str of None \<Rightarrow> dv | Some i \<Rightarrow> i))"

definition env_Bool :: "env \<Rightarrow> string \<Rightarrow> bool" where
  "env_Bool env shortkey = (ToLower (env_String env shortkey []) \<in> {''1'', ''true'', ''yes''})"

definition env_Slice :: "env \<Rightarrow> string \<Rightarrow> string list" where
  "env_Slice env shortkey =
     (let str = env_String env shortkey [] in if str = [] then [] else Split (CHR '' '') str)"

section \<open>internal/config\<close>

record dkimConfig =
  PrivKey :: string
  Signature :: string

record dbConfig =
  DSN :: string
  Dialect :: string

record tlsConfig =
  TLS_Certs :: "string list"
  TLS_Keys :: "string list"
  TLS_Port :: string
  TLS_Required :: bool

record monitoringConfig =
  SentryDSN :: string
  SentrySampleRate :: int
  HealthchecksURL :: string
  HealthchecksUUID :: string
  HealthchecksDuration :: int

record config =
  Homeserver :: string
  Login :: string
  Password :: string
  SharedSecret :: string
  Domains :: "string list"
  Port :: string
  Proxies :: "string list"
  LogLevel :: string
  DataSecret :: string
  DKIM :: dkimConfig
  Prefix :: string
  MaxSize :: int
  StatusMsg :: string
  Mailboxes :: mbxconfig
  Admins :: "string list"
  DB :: dbConfig
  TLS :: tlsConfig
  Monitoring :: monitoringConfig
  Relay :: relayConfig

definition defaultConfig :: config where
  "defaultConfig =
     \<lparr>Homeserver = [], Login = [], Password = [], SharedSecret = [], Domains = [''localhost''],
      Port = ''25'', Proxies = [], LogLevel = ''INFO'', DataSecret = [],
      DKIM = \<lparr>PrivKey = [], Signature = []\<rparr>, Prefix = ''!pm'', MaxSize = 1024,
      StatusMsg = ''Delivering emails'',
      Mailboxes = \<lparr>Reserved = [], Forwarded = [], Activation = ''none''\<rparr>, Admins = [],
      DB = \<lparr>DSN = ''local.db'', Dialect = ''sqlite3''\<rparr>,
      TLS = \<lparr>TLS_Certs = [], TLS_Keys = [], TLS_Port = ''587'', TLS_Required = False\<rparr>,
      Monitoring = \<lparr>SentryDSN = [], SentrySampleRate = 20, HealthchecksURL = ''https://hc-ping.com'',
        HealthchecksUUID = [], HealthchecksDuration = 60\<rparr>,
      Relay = \<lparr>rc_Host = [], rc_Port = [], rc_Username = [], rc_Password = []\<rparr>\<rparr>"

definition migrateDomains :: "env \<Rightarrow> string \<Rightarrow> string \<Rightarrow> string list" where
  "migrateDomains env oldKey newKey =
     (let old = env_String env oldKey [] in (if old \<noteq> [] then [old] else []) @ env_Slice env newKey)"

text \<open>A duration is a number of nanoseconds, with the wrap-around of 64 bits.\<close>

definition config_New :: "env \<Rightarrow> config" where
  "config_New env =
     (let d = defaultConfig in
      \<lparr>Homeserver = env_String env ''homeserver'' (Homeserver d),
       Login = env_String env ''login'' (Login d),
       Password = env_String env ''password'' (Password d),
       SharedSecret = env_String env ''sharedsecret'' (SharedSecret d),
       Domains = migrateDomains env ''domain'' ''domains'',
       Port = env_String env ''port'' (Port d),
       Proxies = env_Slice env ''proxies'',
       LogLevel = env_String env ''loglevel'' (LogLevel d),
       DataSecret = env_String env ''data.secret'' (DataSecret d),
       DKIM = \<lparr>PrivKey = env_String env ''dkim.privkey'' (PrivKey (DKIM d)),
               Signature = env_String env ''dkim.signature'' (Signature (DKIM d))\<rparr>,
       Prefix = env_String env ''prefix'' (Prefix d),
       MaxSize = env_Int env ''maxsize'' (MaxSize d),
       StatusMsg = env_String env ''statusmsg'' (StatusMsg d),
       Mailboxes = \<lparr>Reserved = env_Slice env ''mailboxes.reserved'',
                    Forwarded = env_Slice env ''mailboxes.forwarded'',
                    Activation = env_String env ''mailboxes.activation'' (Activation (Mailboxes d))\<rparr>,
       Admins = env_Slice env ''admins'',
       DB = \<lparr>DSN = env_String env ''db.dsn'' (DSN (DB d)),
             Dialect = env_String env ''db.dialect'' (Dialect (DB d))\<rparr>,
       TLS = \<lparr>TLS_Certs = env_Slice env ''tls.cert'', TLS_Keys = env_Slice env ''tls.key'',
              TLS_Port = env_String env ''tls.port'' (TLS_Port (TLS d)),
              TLS_Required = env_Bool env ''tls.required''\<rparr>,
       Monitoring =
         \<lparr>SentryDSN = env_String env ''monitoring.sentry.dsn'' (env_String env ''sentry.dsn'' []),
          SentrySampleRate = env_Int env ''monitoring.sentry.rate'' (env_Int env ''sentry.rate'' 0),
          HealthchecksURL = env_String env ''monitoring.healthchecks.url'' (HealthchecksURL (Monitoring d)),
          HealthchecksUUID = env_String env ''monitoring.healthchecks.uuid'' [],
          HealthchecksDuration =
            wrap64 (env_Int env ''monitoring.healthchecks.duration'' (HealthchecksDuration (Monitoring d)) * 10 ^ 9)\<rparr>,
       Relay = \<lparr>rc_Host = env_String env ''relay.host'' (rc_Host (Relay d)),
                rc_Port = env_String env ''relay.port'' (rc_Port (Relay d)),
                rc_Username = env_String env ''relay.username'' (rc_Username (Relay d)),
                rc_Password = env_String env ''relay.password'' (rc_Password (Relay d))\<rparr>\<rparr>)"

section \<open>The SMTP manager\<close>

text \<open>
  What \<open>NewManager\<close> sets of the server. A connection may authenticate when it is encrypted, or when
  insecure authentication is allowed. The size is a product of 64-bit integers. \<open>sv_Debug\<close> says whether
  the traffic of the server is written to the log, which depends on the level of the logger.
\<close>

record serverConfig =
  sv_ReadTimeout :: int
  sv_WriteTimeout :: int
  sv_MaxMessageBytes :: int
  sv_AllowInsecureAuth :: bool
  sv_EnableREQUIRETLS :: bool
  sv_EnableSMTPUTF8 :: bool
  sv_Domain :: string
  sv_Debug :: bool

record smtpConfig =
  cf_Domains :: "string list"
  cf_Port :: string
  cf_TLSCerts :: "string list"
  cf_TLSKeys :: "string list"
  cf_TLSPort :: string
  cf_TLSRequired :: bool
  cf_Logger :: logger
  cf_MaxSize :: int
  cf_Relay :: "relayConfig option"

definition NewManager_server :: "smtpConfig \<Rightarrow> serverConfig" where
  "NewManager_server cfg =
     \<lparr>sv_ReadTimeout = 10 * 10 ^ 9, sv_WriteTimeout = 10 * 10 ^ 9,
      sv_MaxMessageBytes = wrap64 (wrap64 (cf_MaxSize cfg * 1024) * 1024), sv_AllowInsecureAuth = \<not> cf_TLSRequired cfg,
      sv_EnableREQUIRETLS = cf_TLSRequired cfg, sv_EnableSMTPUTF8 = True,
      sv_Domain = (case cf_Domains cfg of [d] \<Rightarrow> d | _ \<Rightarrow> []), sv_Debug = debug_level (lg_level (cf_Logger cfg))\<rparr>"

text \<open>
  The TLS part of the manager: the files, the configuration that is in force, and the TLS listener
  with the configuration it uses, \<open>None\<close> before it is started. Certificates are of type \<open>'c\<close>, and
  \<open>load\<close> is the loader of the library: a certificate, or \<open>None\<close> for an error.
\<close>

record 'c tls_state =
  t_Certs :: "string list"
  t_Keys :: "string list"
  t_Config :: "'c list option"
  t_Listener :: "'c listener option"

type_synonym 'c loader = "string \<Rightarrow> string \<Rightarrow> 'c option"

fun load_loop :: "'c loader \<Rightarrow> string list \<Rightarrow> string list \<Rightarrow> 'c list res" where
  "load_loop load [] keys = Ret []"
| "load_loop load (path # paths) [] = Panic ''index out of range''"
| "load_loop load (path # paths) (key # keys) =
     (case load_loop load paths keys of
        Panic p \<Rightarrow> Panic p
      | Ret certs \<Rightarrow> Ret (case load path key of None \<Rightarrow> certs | Some c \<Rightarrow> c # certs))"

definition loadTLSConfig :: "'c loader \<Rightarrow> ('c tls_state, bool) action" where
  "loadTLSConfig load =
     bindM (readM (\<lambda>t. (t_Certs t, t_Keys t))) (\<lambda>(certs, keys).
     if certs = [] \<or> keys = [] then returnM False
     else
       bindM (liftM (load_loop load certs keys)) (\<lambda>certificates.
       if certificates = [] then returnM False
       else thenM (modifyM (\<lambda>t. t\<lparr>t_Config := Some certificates\<rparr>)) (returnM True)))"

text \<open>The callback of the file watcher; a listener that is not there is a nil pointer.\<close>

definition reloadTLS :: "'c loader \<Rightarrow> ('c tls_state, unit) action" where
  "reloadTLS load =
     bindM (loadTLSConfig load) (\<lambda>ok.
     if \<not> ok then skipM
     else
       bindM (readM t_Listener) (\<lambda>listener.
       case listener of
         None \<Rightarrow> panicM ''nil pointer dereference''
       | Some l \<Rightarrow> modifyM (\<lambda>t. t\<lparr>t_Listener := Some (SetTLSConfig (t_Config t) l)\<rparr>)))"

text \<open>
  The manager as \<open>NewManager\<close> returns it: the client with its relay, which becomes the \<open>Sendmail\<close> of bot
  and queue; the settings of the server; the TLS part after the first load; and whether the file watcher
  was created, which \<open>watch\<close> says for the files.
\<close>

record 'c manager =
  m_server :: serverConfig
  m_domains :: "string list"
  m_sender :: "relayConfig option"
  m_fsw :: bool
  m_port :: string
  m_tlsPort :: string
  m_tls :: "'c tls_state"

definition NewManager :: "'c loader \<Rightarrow> (string list \<Rightarrow> bool) \<Rightarrow> smtpConfig \<Rightarrow> 'c manager res" where
  "NewManager load watch cfg =
     (case loadTLSConfig load
             \<lparr>t_Certs = cf_TLSCerts cfg, t_Keys = cf_TLSKeys cfg, t_Config = None, t_Listener = None\<rparr> of
        (Panic e, _) \<Rightarrow> Panic e
      | (Ret _, t) \<Rightarrow>
          Ret \<lparr>m_server = NewManager_server cfg, m_domains = cf_Domains cfg, m_sender = cf_Relay cfg,
               m_fsw = watch (cf_TLSCerts cfg @ cf_TLSKeys cfg), m_port = cf_Port cfg, m_tlsPort = cf_TLSPort cfg,
               m_tls = t\<rparr>)"

text \<open>
  \<open>listen\<close> up to the point where the library serves the port: the error of a port that cannot be
  opened; the listener for TLS is kept. \<open>Start\<close> listens on the TLS port only with certificates.
\<close>

definition listen_open :: "string option \<Rightarrow> 'c list option \<Rightarrow> ('c tls_state, string option) action" where
  "listen_open opened tlsConfig =
     (case NewListener opened tlsConfig of
        Inl e \<Rightarrow> returnM (Some e)
      | Inr l \<Rightarrow>
          thenM (if tlsConfig \<noteq> None then modifyM (\<lambda>t. t\<lparr>t_Listener := Some l\<rparr>) else skipM) (returnM None))"

definition Start_tls :: "string option \<Rightarrow> ('c tls_state, string option) action" where
  "Start_tls opened =
     bindM (readM t_Config) (\<lambda>config.
     if config \<noteq> None then listen_open opened config else returnM None)"

section \<open>main.go\<close>

text \<open>
  \<open>initMatrix\<close>: the database, the Matrix library, the manager of the configuration and the bot, on a
  state that holds the Matrix client. \<open>sql_Open\<close> and \<open>linkpearl_New\<close> give the errors of the two
  libraries; the logger ends the process on them, and panics on an error of \<open>New\<close>.
\<close>

definition db_dialect :: "config \<Rightarrow> string" where
  "db_dialect cfg = (if Dialect (DB cfg) = ''sqlite3'' then ''sqlite'' else Dialect (DB cfg))"

definition initMatrix ::
  "(string \<Rightarrow> string \<Rightarrow> string option) \<Rightarrow> (config \<Rightarrow> string \<Rightarrow> string option) \<Rightarrow> config \<Rightarrow>
   ('a bot_state_scheme, unit) action" where
  "initMatrix sql_Open linkpearl_New cfg =
     (case sql_Open (db_dialect cfg) (DSN (DB cfg)) of
        Some e \<Rightarrow> panicM (''cannot initialize SQL database: '' @ e)
      | None \<Rightarrow>
          case linkpearl_New cfg (db_dialect cfg) of
            Some e \<Rightarrow> panicM (''cannot initialize matrix bot: '' @ e)
          | None \<Rightarrow>
              thenM (modifyM (\<lambda>w. w\<lparr>dkimPrivKey := PrivKey (DKIM cfg), dkimSignature := Signature (DKIM cfg),
                                    prefix := Prefix cfg, mbxc := Mailboxes cfg, domains := Domains cfg,
                                    proxies := Proxies cfg\<rparr>))
              (bindM (Bot_New (Admins cfg)) (\<lambda>err.
               case err of
                 None \<Rightarrow> skipM
               | Some e \<Rightarrow> panicM (''cannot start matrix bot: '' @ e))))"

text \<open>The relay \<open>initSMTP\<close> gives to the client is never a nil pointer.\<close>

definition initSMTP :: "config \<Rightarrow> smtpConfig" where
  "initSMTP cfg =
     \<lparr>cf_Domains = Domains cfg, cf_Port = Port cfg, cf_TLSCerts = TLS_Certs (TLS cfg), cf_TLSKeys = TLS_Keys (TLS cfg),
      cf_TLSPort = TLS_Port (TLS cfg), cf_TLSRequired = TLS_Required (TLS cfg),
      cf_Logger = initLog (LogLevel cfg), cf_MaxSize = MaxSize cfg,
      cf_Relay = Some (Relay cfg)\<rparr>"

text \<open>
  The client of the health checks and the interval of its goroutine \<open>Auto\<close>, when there is a check.
\<close>

definition initHealthchecks :: "config \<Rightarrow> (hc_client \<times> int) option" where
  "initHealthchecks cfg =
     (if HealthchecksUUID (Monitoring cfg) = [] then None
      else
        (let hc = hc_New (HealthchecksURL (Monitoring cfg)) (HealthchecksUUID (Monitoring cfg))
         in Some (hc_Start ''starting postmoogle'' hc, HealthchecksDuration (Monitoring cfg))))"

text \<open>\<open>initCron\<close>: the jobs of a minute. A panic of a job is logged and ends the job.\<close>

datatype cron_job = JobProcess | JobSyncRooms

definition cron_jobs :: "nat \<Rightarrow> cron_job list" where
  "cron_jobs minute = JobProcess # (if minute mod 5 = 0 then [JobSyncRooms] else [])"

definition SyncRooms :: "('a bot_state_scheme, unit) action" where
  "SyncRooms = bindM syncRooms (\<lambda>_. skipM)"

definition run_job :: "externals \<Rightarrow> cron_job \<Rightarrow> ('a bot_state_scheme, unit) action" where
  "run_job X job =
     (case job of JobProcess \<Rightarrow> queue_Process X (ext_range X) | JobSyncRooms \<Rightarrow> SyncRooms)"

section \<open>Lemmas\<close>

lemma load_loop_eq:
  "load_loop load certs keys =
     (if length keys < length certs then Panic ''index out of range''
      else Ret (List.map_filter (case_prod load) (zip certs keys)))"
  by (induction load certs keys rule: load_loop.induct)
    (auto simp: map_filter_simps split: option.split)

lemma run_loadTLSConfig:
  "loadTLSConfig load t =
     (if t_Certs t = [] \<or> t_Keys t = [] then (Ret False, t)
      else if length (t_Keys t) < length (t_Certs t) then (Panic ''index out of range'', t)
      else
        (let certs = List.map_filter (case_prod load) (zip (t_Certs t) (t_Keys t)) in
         if certs = [] then (Ret False, t) else (Ret True, t\<lparr>t_Config := Some certs\<rparr>)))"
  by (auto simp: loadTLSConfig_def load_loop_eq liftM_def Let_def run_simps)

section \<open>Properties\<close>

text \<open>
  C29: a server that starts while its certificates cannot be loaded has no TLS listener; when the
  files are repaired later, the callback that should load them panics.
\<close>

theorem repaired_certificates_panic:
  assumes "t_Certs t \<noteq> []" and "length (t_Certs t) \<le> length (t_Keys t)"
    and "t_Config t = None" and "t_Listener t = None"
    and "\<forall>c k. broken c k = None" and "\<forall>c k. repaired c k \<noteq> None"
  shows "fst (bindM (loadTLSConfig broken) (\<lambda>_. bindM (Start_tls opened) (\<lambda>_. reloadTLS repaired)) t) =
    Panic ''nil pointer dereference''"
proof -
  have keys: "t_Keys t \<noteq> []" using assms(1,2) by auto
  have none: "List.map_filter (case_prod broken) xs = []" for xs
    using assms(5) by (induction xs) (auto simp: map_filter_simps)
  obtain c k cs ks where "t_Certs t = c # cs" "t_Keys t = k # ks"
    using assms(1) keys by (metis list.exhaust)
  moreover obtain y where "repaired c k = Some y" using assms(6) by blast
  ultimately have some: "List.map_filter (case_prod repaired) (zip (t_Certs t) (t_Keys t)) \<noteq> []"
    by (simp add: map_filter_simps)
  have "loadTLSConfig broken t = (Ret False, t)"
    using assms(1,2) keys none by (simp add: run_loadTLSConfig)
  moreover have "Start_tls opened t = (Ret None, t)" using assms(3) by (simp add: Start_tls_def run_simps)
  moreover have "fst (reloadTLS repaired t) = Panic ''nil pointer dereference''"
    using assms keys some by (simp add: reloadTLS_def run_loadTLSConfig run_simps Let_def bindM_def readM_def panicM_def)
  ultimately show ?thesis by (simp add: bindM_def thenM_def)
qed

theorem repaired_certificates_panic_witness:
  "fst (bindM (loadTLSConfig (\<lambda>_ _. None)) (\<lambda>_. bindM (Start_tls None) (\<lambda>_. reloadTLS (\<lambda>c k. Some (c, k))))
      \<lparr>t_Certs = [''cert.pem''], t_Keys = [''key.pem''], t_Config = None, t_Listener = None\<rparr>) =
    Panic ''nil pointer dereference''"
  by (rule repaired_certificates_panic) simp_all

text \<open>
  The domains come from the environment only: the old variable first, then the new ones. With
  neither set the list is empty, in spite of the default in the configuration, and every function
  that needs a domain panics.
\<close>

theorem no_domains_panic:
  assumes "TrimSpace (env ''POSTMOOGLE_DOMAIN'') = []" and "TrimSpace (env ''POSTMOOGLE_DOMAINS'') = []"
  shows "Domains (config_New env) = [] \<and> Domains defaultConfig \<noteq> [] \<and>
    SanitizeDomain (Domains (config_New env)) d = Panic ''index out of range''"
proof -
  have k: "env_key ''domain'' = ''POSTMOOGLE_DOMAIN''" "env_key ''domains'' = ''POSTMOOGLE_DOMAINS''"
    by code_simp+
  have e: "migrateDomains env ''domain'' ''domains'' = []"
    using assms by (simp add: migrateDomains_def env_Slice_def env_String_def k)
  have "Domains (config_New env) = []" unfolding config_New_def Let_def config.select_convs by (rule e)
  then show ?thesis by (simp add: defaultConfig_def SanitizeDomain_def first_domain_def Let_def)
qed

theorem no_domains_panic_witness:
  "SanitizeDomain (Domains (config_New (\<lambda>_. []))) ''example.com'' = Panic ''index out of range'' \<and>
   Domains (config_New (\<lambda>_. [])) = []"
proof -
  have "TrimSpace [] = []" by code_simp
  then show ?thesis using no_domains_panic [of "\<lambda>_. []" "''example.com''"] by metis
qed

text \<open>
  C17: what the log holds of the traffic of the SMTP server. The level the server asks for is that of the
  logger, which no configuration changes, so it always copies its traffic to the log; the messages are
  written exactly when the configured level is info or lower, or cannot be read. At the default level the
  log has every line a client sends, with the credentials of AUTH and the emails.
\<close>

theorem smtp_traffic_logged:
  "sv_Debug (NewManager_server (initSMTP cfg)) \<and>
   lg_lines (snd (conn_traffic (sv_Debug (NewManager_server (initSMTP cfg))) ts (initLog (LogLevel cfg)))) =
     (if (case ParseLevel (LogLevel cfg) of None \<Rightarrow> True | Some level \<Rightarrow> level \<le> InfoLevel)
      then map (\<lambda>t. (InfoLevel, traffic_bytes t)) (filter (\<lambda>t. t \<noteq> Received []) ts) else [])"
  by (auto simp: NewManager_server_def initSMTP_def debug_level_def run_conn_traffic should_def
      initLog_global logged_def level_defs split: option.split)

theorem smtp_traffic_logged_witness:
  "(InfoLevel, ''AUTH PLAIN AGFsaWNlAHNlY3JldA=='') \<in>
     set (lg_lines (snd (conn_traffic (sv_Debug (NewManager_server (initSMTP defaultConfig)))
       [Received ''AUTH PLAIN AGFsaWNlAHNlY3JldA==''] (initLog (LogLevel defaultConfig)))))"
proof -
  have level: "ParseLevel (LogLevel defaultConfig) = Some 1" by code_simp
  show ?thesis unfolding smtp_traffic_logged [THEN conjunct2] using level by (simp add: level_defs)
qed

end
