(* ===== verification/Isolation.thy ===== *)
theory Isolation
  imports Bot_Sync
begin

text \<open>
  What an event of the Matrix sync may change. The locale \<open>room_contract\<close> states what a handler of
  a room relies on: a predicate that is kept by the calls to the homeserver, by account data of
  rooms, by deliveries and by the changes of the mailbox table a room may make. Inside it every
  handler that needs no administrator is shown to keep the predicate. It is interpreted twice: for
  the settings of the server (options of the bot, allowed users and administrators, ban- and
  greylist), and for the reserved mailboxes.
\<close>

section \<open>The contract of a room\<close>

lemmas preserves_struct =
  preserves_returnM preserves_skipM preserves_panicM preserves_readM preserves_bindM preserves_thenM
  preserves_deferM preserves_if preserves_option preserves_prod preserves_list preserves_Let
  preserves_forM preserves_sum preserves_liftM

locale room_contract =
  fixes I :: "'a bot_state_scheme \<Rightarrow> bool" and R :: "string set"
  assumes keeps_api: "preserves I api_call"
    and keeps_Send: "preserves I (lp_Send room content)"
    and keeps_Get: "preserves I (GetAccountData (RoomData room key))"
    and keeps_Set: "preserves I (SetAccountData (RoomData room key) m)"
    and keeps_alias: "preserves I (alias_write (RoomData room key) m)"
    and keeps_GetBot: "preserves I GetBot"
    and keeps_queue_Add: "preserves I (queue_Add i f t d r)"
    and keeps_sendmail: "preserves I (sendmail f t d u)"
    and keeps_seen: "preserves I (modifyM (\<lambda>w. w\<lparr>handledMembership := finsert e (handledMembership w)\<rparr>))"
    and keeps_Delete: "preserves I (rooms_Delete m')"
    and keeps_Store: "m'' \<notin> R \<Longrightarrow> preserves I (rooms_Store m'' room)"
    and reserved: "I w \<Longrightarrow> x \<in> R \<Longrightarrow> x \<in> set (Reserved (mbxc w))"
    and no_comma: "x \<in> R \<Longrightarrow> CHR '','' \<notin> set x"
begin

lemmas base =
  keeps_api keeps_Send keeps_Get keeps_Set keeps_alias keeps_GetBot keeps_queue_Add keeps_sendmail
  keeps_seen keeps_Delete

lemma keeps_SendNotice: "preserves I (SendNotice X room msg rel)"
  unfolding SendNotice_def by (intro preserves_struct base)

lemma keeps_GetEvent: "preserves I (GetEvent room eid)"
  unfolding GetEvent_def by (intro preserves_struct base)

lemma keeps_reactions:
  "preserves I (SendReaction room eid reaction)" "preserves I (ReplaceReaction room eid old reaction)"
  unfolding SendReaction_def ReplaceReaction_def RedactReaction_def getReactionAD_def updateReactionsAD_def
    reactionKey_def
  by (intro preserves_struct base)+

lemma keeps_GetRoom: "preserves I (GetRoom r)"
  unfolding GetRoom_def by (intro base)

lemma keeps_SetRoom: "preserves I (SetRoom r cfg)"
  unfolding SetRoom_def by (intro base)

lemma keeps_RoomSetOption: "preserves I (RoomSetOption r cfg key v)"
  unfolding RoomSetOption_def SetOption_def by (intro preserves_struct base)

lemmas rooms = base keeps_SendNotice keeps_GetEvent keeps_reactions keeps_GetRoom keeps_SetRoom keeps_RoomSetOption

lemma keeps_Error: "preserves I (Bot_Error X c msg)"
  unfolding Bot_Error_def by (intro preserves_struct rooms)

lemma keeps_allow:
  "preserves I (allowAdmin a r)" "preserves I (allowUsers a r)" "preserves I (allowAnyone a r)"
  "preserves I (allowOwner X a r)" "preserves I (allowSend X a r)" "preserves I (allowReply X c a r)"
  unfolding allowAdmin_def allowUsers_def allowAnyone_def allowOwner_def allowSend_def allowReply_def
  by (intro preserves_struct rooms keeps_Error)+

lemma keeps_run_allowed: "preserves I (run_allowed X al a r)"
  by (cases al) (simp_all add: keeps_allow)

lemma keeps_threads:
  "preserves I (setThreadID r m e)" "preserves I (setLastEventID r t e)" "preserves I (getLastEventID r t)"
  unfolding setThreadID_def setLastEventID_def getLastEventID_def messageKey_def lastEventKey_def
  by (intro preserves_struct rooms)+

lemma keeps_getThreadID: "preserves I (getThreadID r m refs)"
proof -
  have "preserves I (getThreadID_loop r l)" for l
    by (induction l) (auto simp: messageKey_def intro!: preserves_struct rooms)
  then show ?thesis unfolding getThreadID_def .
qed

lemma keeps_Sendmail: "preserves I (Sendmail i f t d r)"
  unfolding Sendmail_def by (intro preserves_struct rooms)

lemma keeps_saveSentMetadata: "preserves I (saveSentMetadata X c q t to eml cfg txt)"
  unfolding saveSentMetadata_def by (intro preserves_struct rooms keeps_Error keeps_threads)

lemma keeps_deliver_loop: "preserves I (deliver_loop X c i meta data eml cfg note tos)"
  by (induction tos)
    (auto intro!: preserves_struct keeps_Sendmail keeps_saveSentMetadata keeps_Error)

lemma keeps_getParentEmail: "preserves I (getParentEmail X evt m)"
  unfolding getParentEmail_def getParentEvent_def Decrypt_def
  by (intro preserves_struct rooms keeps_threads)

lemma keeps_send_reply: "preserves I (send_reply X c evt cfg meta)"
  unfolding send_reply_def by (intro preserves_struct rooms keeps_deliver_loop)

lemma keeps_locks: "preserves I (Bot_lock r e)" "preserves I (Bot_unlock r e)"
  unfolding Bot_lock_def Bot_unlock_def by (intro preserves_struct rooms)+

lemma keeps_SendEmailReply: "preserves I (SendEmailReply X c evt)"
  unfolding SendEmailReply_def canReply_def
  by (intro preserves_struct rooms keeps_allow keeps_Error keeps_locks keeps_getParentEmail
      keeps_getThreadID keeps_send_reply)

section \<open>Commands of a room\<close>

lemma keeps_help: "preserves I (sendHelp X evt)" "preserves I (sendIntroduction X r)"
proof -
  have "preserves I (help_loop X evt cfg cs)" for cfg cs
    by (induction cs) (auto intro!: preserves_struct keeps_run_allowed)
  then show "preserves I (sendHelp X evt)"
    unfolding sendHelp_def by (intro preserves_struct rooms)
  show "preserves I (sendIntroduction X r)"
    unfolding sendIntroduction_def by (intro preserves_struct rooms)
qed

lemma keeps_answer: "preserves I (answer X evt cfg msg)"
  unfolding answer_def by (intro rooms)

lemma keeps_runSend: "preserves I (runSend X c evt)"
proof -
  have "preserves I (send_loop X c evt cfg from ID subject body html tos)" for cfg "from" ID subject body html tos
    by (induction tos)
      (auto simp: Let_def intro!: preserves_struct rooms keeps_answer keeps_Sendmail keeps_saveSentMetadata keeps_Error)
  then show ?thesis
    unfolding runSend_def getSendDetails_def runSendCommand_def
    by (intro preserves_struct rooms keeps_allow keeps_Error keeps_answer keeps_locks)
qed

lemma keeps_store_answer: "preserves I (store_answer X c evt cfg failure msg)"
  unfolding store_answer_def Room_failed_def by (intro preserves_struct rooms keeps_Error keeps_answer)

lemma keeps_runStop: "preserves I (runStop X c evt)"
  unfolding runStop_def Room_failed_def by (intro preserves_struct rooms keeps_Error keeps_answer)

lemma keeps_getOption: "preserves I (getOption X c evt name)"
  unfolding getOption_def Room_failed_def by (intro preserves_struct rooms keeps_Error keeps_answer)

lemma keeps_activation: "v \<notin> R \<Longrightarrow> preserves I (activation_flow X a r v al)"
proof -
  have "preserves I (notify_loop X msg ars)" for msg ars
    by (induction ars) (auto intro!: preserves_struct rooms)
  then show "v \<notin> R \<Longrightarrow> preserves I (activation_flow X a r v al)"
    unfolding activation_flow_def activateNone_def activateNotify_def
    by (intro preserves_struct rooms keeps_Store)
qed

lemma keeps_already_taken: "preserves I (already_taken X evt v)"
  unfolding already_taken_def by (intro preserves_struct rooms)

text \<open>A reserved name is always found to be taken, so only other names reach the mailbox table.\<close>

lemma taken_reserved: "I w \<Longrightarrow> v \<in> R \<Longrightarrow> taken evt v w = (Ret True, w)"
  using reserved by (simp add: taken_def isReserved_def run_simps)

lemma keeps_taken: "preserves I (taken evt v)"
  unfolding taken_def getMapping_def isReserved_def by (intro preserves_struct)

lemma keeps_setMailbox: "preserves I (setMailbox X c evt v)"
proof (cases "v \<in> R")
  case True
  show ?thesis
  proof (rule preservesI)
    fix w
    assume "I w"
    then have "setMailbox X c evt v w = already_taken X evt v w"
      using True taken_reserved by (simp add: setMailbox_def run_simps)
    then show "I (snd (setMailbox X c evt v w))" using keeps_already_taken \<open>I w\<close> by (simp add: preservesD)
  qed
next
  case False
  then show ?thesis
    unfolding setMailbox_def ActivateMailbox_def Room_failed_def
    by (intro preserves_struct rooms keeps_taken keeps_already_taken keeps_Error keeps_activation keeps_store_answer)
qed

lemma keeps_setAliases: "preserves I (setAliases X c evt v)"
proof (cases "v \<in> R")
  case True
  show ?thesis
  proof (rule preservesI)
    fix w
    assume "I w"
    have "Split (CHR '','') v = [v]" using no_comma [OF True] by (rule Split_none)
    then have "setAliases X c evt v w = already_taken X evt v w"
      using True taken_reserved [OF \<open>I w\<close>] by (simp add: setAliases_def run_simps Let_def)
    then show "I (snd (setAliases X c evt v w))" using keeps_already_taken \<open>I w\<close> by (simp add: preservesD)
  qed
next
  case False
  have "preserves I (any_taken evt as)" for as
    by (induction as) (auto intro!: preserves_struct keeps_taken)
  moreover have "preserves I (alias_loop X evt cfg v old as)" for cfg old as
    using False by (induction as) (auto simp: ActivateAlias_def intro!: preserves_struct keeps_activation)
  ultimately show ?thesis
    unfolding setAliases_def Room_failed_def
    by (intro preserves_struct rooms keeps_already_taken keeps_Error keeps_store_answer)
qed

lemma keeps_options:
  "preserves I (setPassword X c evt)" "preserves I (setRelay X c evt)" "preserves I (setOption X c evt name v)"
  unfolding setPassword_def setRelay_def setOption_def original_arg_def original_text_def Room_failed_def
  by (intro preserves_struct rooms keeps_Error keeps_store_answer keeps_answer)+

lemma keeps_handleOption: "preserves I (handleOption X c evt command)"
  unfolding handleOption_def
  by (intro preserves_struct keeps_getOption keeps_setMailbox keeps_setAliases keeps_options)

lemma keeps_spamlist:
  "preserves I (runSpamlistAdd X c evt s)" "preserves I (runSpamlistRemove X c evt s)"
  "preserves I (runSpamlistReset X c evt)"
  unfolding runSpamlistAdd_def runSpamlistRemove_def runSpamlistReset_def Room_failed_def
  by (intro preserves_struct rooms keeps_getOption keeps_Error keeps_store_answer keeps_answer)+

lemma keeps_dispatch_room: "preserves I (dispatch_room X c evt s name)"
  unfolding dispatch_room_def
  by (auto intro!: preserves_struct keeps_help keeps_runStop keeps_runSend keeps_spamlist keeps_handleOption
      split: option.split)

section \<open>Events\<close>

lemma keeps_reaction: "preserves I (onReaction X evt key srcID)"
  unfolding onReaction_def handleReaction_def Decrypt_def
  by (intro preserves_struct rooms keeps_Error keeps_spamlist)

lemma keeps_membership: "preserves I (onMembership X evt m)"
  unfolding onMembership_def onBotJoin_def onLeave_def membership_seen_def
  by (intro preserves_struct rooms keeps_help keeps_runStop keeps_Error)

lemma keeps_handle:
  assumes "\<And>s command. commandList_get initCommands (hd s) = Some command \<Longrightarrow>
             preserves I (run_command X c evt s command)"
  shows "preserves I (handle X c evt)"
  unfolding handle_def
  by (intro preserves_struct rooms keeps_SendEmailReply assms) simp

end

section \<open>The settings of the server\<close>

text \<open>
  What belongs to the server and not to a room: the options of the bot, the ban- and the greylist, in
  the cache and at the homeserver, and the fields of the bot except the mailbox table.
\<close>

definition server_view ::
  "'a bot_state_scheme \<Rightarrow>
   (gomap option \<times> gomap option) list \<times> mxpattern list \<times> mxpattern list \<times> string list \<times>
   string list \<times> string list \<times> mbxconfig \<times> string" where
  "server_view w =
     (map (\<lambda>k. (fmlookup (acc w) (UserData k), fmlookup (hs_data w) (UserData k)))
        [acBotKey, acBanlistKey, acGreylistKey],
      allowedUsers w, allowedAdmins w, adminRooms w, domains w, proxies w, mbxc w, prefix w)"

definition server_kept :: "gomap \<Rightarrow> 'a bot_state_scheme \<Rightarrow> 'a bot_state_scheme \<Rightarrow> bool" where
  "server_kept bc w0 w \<longleftrightarrow> bot_ready w bc \<and> server_view w = server_view w0"

lemma server_keptI:
  assumes "\<And>w. server_view (snd (m w)) = server_view w"
  shows "preserves (server_kept bc w0) m"
proof (rule preservesI)
  fix w
  assume w: "server_kept bc w0 w"
  have v: "server_view (snd (m w)) = server_view w" by (rule assms)
  then have "bot_cfg (snd (m w)) = bot_cfg w" by (simp add: server_view_def)
  then show "server_kept bc w0 (snd (m w))" using w v by (simp add: server_kept_def bot_ready_def)
qed

lemma view_GetAccountData:
  "server_view (snd (GetAccountData (RoomData r k) w)) = server_view w"
  by (auto simp: GetAccountData_def cache_put_def api_call_def bindM_def thenM_def readM_def modifyM_def
      returnM_def server_view_def split: option.split)

lemma view_SetAccountData:
  "k \<notin> UserData ` {acBotKey, acBanlistKey, acGreylistKey} \<Longrightarrow>
   server_view (snd (SetAccountData k m w)) = server_view w"
  by (auto simp: run_SetAccountData server_view_def)

lemma item_key_server [simp]:
  "item_key i \<noteq> acBotKey" "item_key i \<noteq> acBanlistKey" "item_key i \<noteq> acGreylistKey"
  by (simp_all add: item_key_def)

lemma keeps_queue: "preserves (server_kept bc w0) (queue_Add i f t d r)"
proof -
  have get: "preserves (server_kept bc w0) (GetAccountData (UserData acQueueKey))"
    by (rule server_keptI)
      (auto simp: GetAccountData_def cache_put_def api_call_def bindM_def thenM_def readM_def modifyM_def
        returnM_def server_view_def split: option.split)
  have set1: "preserves (server_kept bc w0) (SetAccountData (UserData (item_key j)) m)" for j m
    by (rule server_keptI, rule view_SetAccountData) auto
  have set2: "preserves (server_kept bc w0) (SetAccountData (UserData acQueueKey) m)" for m
    by (rule server_keptI, rule view_SetAccountData) auto
  have wr: "preserves (server_kept bc w0) (alias_write (UserData acQueueKey) m)" for m
    by (rule server_keptI) (simp add: alias_write_def modifyM_def server_view_def)
  show ?thesis unfolding queue_Add_def by (intro preserves_struct get set1 set2 wr)
qed

interpretation server: room_contract "server_kept bc w0" "{}" for bc and w0 :: "'a bot_state_scheme"
proof
  show "preserves (server_kept bc w0) GetBot"
    by (rule preservesI) (metis run_GetBot_ready server_kept_def snd_conv)
qed (auto intro!: server_keptI keeps_queue view_GetAccountData view_SetAccountData
    simp: api_call_def lp_Send_def bindM_def thenM_def readM_def modifyM_def returnM_def alias_write_def
      sendmail_def Let_def rooms_Delete_def rooms_Store_def server_view_def split: option.split)

section \<open>Commands and administrators\<close>

definition admin_keys :: "string list" where
  "admin_keys =
     [''dkim'', BotAdminRoom, BotUsers, BotCatchAll, ''delete'', BotGreylist, ''banlist'', ''banlist:auth'',
      ''banlist:auto'', ''banlist:totals'', ''banlist:add'', ''banlist:remove'', ''banlist:reset'', ''mailboxes'']"

lemma dispatch_admin_None: "name \<notin> set admin_keys \<Longrightarrow> dispatch_admin X c evt s name = None"
  by (simp add: dispatch_admin_def admin_keys_def)

lemma table_admin_keys:
  "\<forall>command \<in> set initCommands. cmd_allowed command \<noteq> AllowAdmin \<longrightarrow> cmd_key command \<notin> set admin_keys"
  by code_simp

lemma commandList_get_in: "commandList_get cs name = Some command \<Longrightarrow> command \<in> set cs \<and> cmd_key command = name"
  by (induction cs) (auto split: if_splits)

lemma dispatch_non_admin:
  assumes "commandList_get initCommands name = Some command" and "cmd_allowed command \<noteq> AllowAdmin"
  shows "dispatch X c evt s name = dispatch_room X c evt s name"
proof -
  have "name \<notin> set admin_keys" using commandList_get_in [OF assms(1)] table_admin_keys assms(2) by blast
  then show ?thesis by (simp add: dispatch_def dispatch_admin_None)
qed

text \<open>The sender of an event.\<close>

fun input_sender :: "mxinput \<Rightarrow> string" where
  "input_sender (InMembership evt m) = e_sender evt"
| "input_sender (InMessage evt) = e_sender evt"
| "input_sender (InReaction evt key srcID) = e_sender evt"

lemma server_keeps_command:
  assumes "\<not> Match (e_sender evt) (allowedAdmins w0)"
    and get: "commandList_get initCommands (hd s) = Some command"
  shows "preserves (server_kept bc w0) (run_command X c evt s command)"
proof (cases "cmd_allowed command = AllowAdmin")
  case True
  have "run_allowed X (cmd_allowed command) (e_sender evt) (e_room evt) w = (Ret False, w)"
    if "server_kept bc w0 w" for w
    using that assms(1) True by (simp add: server_kept_def server_view_def run_allowAdmin)
  then have refused: "preserves (server_kept bc w0)
      (bindM (run_allowed X (cmd_allowed command) (e_sender evt) (e_room evt)) (\<lambda>ok.
        if \<not> ok then SendNotice X (e_room evt) ''not allowed to do that, kupo'' None
        else dispatch X c evt s (hd s)))"
    by (rule preserves_bind_known) (simp_all add: server.keeps_SendNotice)
  have "preserves (server_kept bc w0) typing" unfolding typing_def by (intro preserves_struct server.rooms)
  then show ?thesis unfolding run_command_def by (intro preserves_thenM preserves_deferM refused)
next
  case False
  then show ?thesis
    unfolding run_command_def typing_def dispatch_non_admin [OF get False]
    by (intro preserves_struct server.rooms server.keeps_run_allowed server.keeps_dispatch_room)
qed

text \<open>
  C10: administration is for administrators. Whatever someone who is not an administrator does in a
  room (a message, a command, a reaction, joining or leaving), the options of the bot, its ban- and
  greylist, the allowed users, administrators and admin rooms stay as they were, in the bot and at
  the homeserver.
\<close>

theorem non_admin_keeps_server:
  assumes "bot_ready w bc" and "\<not> Match (input_sender inp) (allowedAdmins w)"
  shows "server_view (snd (on_event X inp w)) = server_view w"
proof -
  have "preserves (server_kept bc w) (on_event X inp)"
  proof (cases inp)
    case (InMessage evt)
    then have "preserves (server_kept bc w) (handle X c evt)" for c
      using assms(2) by (intro server.keeps_handle server_keeps_command) simp_all
    then show ?thesis using InMessage by (auto simp: onMessage_def intro!: preserves_struct)
  qed (simp_all add: server.keeps_membership server.keeps_reaction)
  then have "server_kept bc w (snd (on_event X inp w))"
    by (rule preservesD) (simp add: server_kept_def assms(1))
  then show ?thesis by (simp add: server_kept_def)
qed

definition demo_message :: "string \<Rightarrow> string \<Rightarrow> mxinput" where
  "demo_message sender body =
     InMessage \<lparr>e_id = ''$1'', e_room = ''!r'', e_sender = sender, e_ts = 1,
       e_content = \<lparr>c_body = body, c_formatted = [], c_notice = False, c_rel = None, c_raw = fmempty\<rparr>\<rparr>"

theorem non_admin_keeps_server_witness:
  "server_view (snd (on_event demo_ext (demo_message ''@eve:example.com'' ''!pm banlist true'')
      (bot_demo fmempty [(''!r'', fmempty)] []))) = server_view (bot_demo fmempty [(''!r'', fmempty)] []) \<and>
   bot_cfg (snd (on_event demo_ext (demo_message ''@root:example.com'' ''!pm banlist true'')
      (bot_demo fmempty [(''!r'', fmempty)] []))) \<noteq> bot_cfg (bot_demo fmempty [(''!r'', fmempty)] [])"
proof
  show "server_view (snd (on_event demo_ext (demo_message ''@eve:example.com'' ''!pm banlist true'')
      (bot_demo fmempty [(''!r'', fmempty)] []))) = server_view (bot_demo fmempty [(''!r'', fmempty)] [])"
    by (rule non_admin_keeps_server [OF bot_demo_ready]) (simp add: demo_message_def, code_simp)
  have "map_option (\<lambda>m. fmlookup m BotBanlistEnabled)
      (bot_cfg (snd (on_event demo_ext (demo_message ''@root:example.com'' ''!pm banlist true'')
        (bot_demo fmempty [(''!r'', fmempty)] [])))) = Some (Some ''true'')"
    by code_simp
  then show "bot_cfg (snd (on_event demo_ext (demo_message ''@root:example.com'' ''!pm banlist true'')
      (bot_demo fmempty [(''!r'', fmempty)] []))) \<noteq> bot_cfg (bot_demo fmempty [(''!r'', fmempty)] [])"
    by auto
qed

section \<open>The contract of an administrator\<close>

text \<open>What the commands of an administrator rely on; they may change every setting of the server.\<close>

locale admin_contract =
  fixes I :: "'a bot_state_scheme \<Rightarrow> bool"
  assumes frame: "lp_frame I"
    and admin_Delete: "preserves I (rooms_Delete m)"
    and admin_users: "preserves I (modifyM (\<lambda>w. w\<lparr>allowedUsers := u\<rparr>))"
    and admin_rooms: "preserves I (modifyM (\<lambda>w. w\<lparr>adminRooms := r # adminRooms w\<rparr>))"
begin

lemma admin_notice: "preserves I (reply_notice X evt msg)"
  unfolding reply_notice_def by (intro preserves_rules frame)

lemma admin_mailboxes: "preserves I (sendMailboxes X evt)"
proof -
  have "preserves I (mailboxes_loop rs ms)" for rs ms
    by (induction ms) (auto simp: Let_def intro!: preserves_rules frame)
  then show ?thesis unfolding sendMailboxes_def by (intro preserves_rules admin_notice)
qed

lemma admin_delete: "preserves I (runDelete X c evt s)"
  unfolding runDelete_def by (intro preserves_rules admin_notice admin_Delete frame)

lemma admin_runUsers: "preserves I (runUsers X c evt s)"
  unfolding runUsers_def by (intro preserves_rules admin_notice admin_users frame)

lemma admin_bot_options:
  "preserves I (runDKIM X c evt s)" "preserves I (runCatchAll X c evt s)" "preserves I (runAdminRoom X c evt s)"
  unfolding runDKIM_def runCatchAll_def runAdminRoom_def original_arg_def
  by (intro preserves_rules admin_notice admin_rooms frame)+

lemma admin_set_option: "preserves I (set_bot_option X c evt cfg key v msg)"
  unfolding set_bot_option_def by (intro preserves_rules admin_notice frame)

lemma admin_timeline: "preserves I (addBanlistTimeline X evt b)"
  unfolding addBanlistTimeline_def by (intro preserves_rules admin_notice frame)

lemma admin_lists:
  "preserves I (runGreylist X c evt s)" "preserves I (runBanlist X c evt s)"
  "preserves I (runBanlistTotals X evt)" "preserves I (runBanlistAuth X c evt s)"
  "preserves I (runBanlistAuto X c evt s)" "preserves I (runBanlistReset X c evt)"
  unfolding runGreylist_def printGreylist_def runBanlist_def runBanlistTotals_def runBanlistAuth_def
    runBanlistAuto_def runBanlistReset_def
  by (intro preserves_rules admin_notice admin_set_option admin_timeline frame)+

lemma admin_change: "preserves I (runBanlistChange X c evt mode s)"
proof -
  have "preserves I (banlist_loop X b l ips)" for b l ips
    by (induction ips arbitrary: l)
      (auto simp: Let_def intro!: preserves_rules frame split: sum.split)
  then show ?thesis
    unfolding runBanlistChange_def by (intro preserves_rules admin_notice admin_lists frame)
qed

lemma admin_dispatch: "dispatch_admin X c evt s name = Some run \<Longrightarrow> preserves I run"
  unfolding dispatch_admin_def
  by (drule map_of_SomeD)
    (auto intro: admin_mailboxes admin_delete admin_runUsers admin_bot_options admin_lists admin_change)

end

section \<open>Reserved mailboxes\<close>

text \<open>No reserved mailbox is in the table. A name with a comma is the text of several aliases.\<close>

definition reserved_free :: "string list \<Rightarrow> 'a bot_state_scheme \<Rightarrow> bool" where
  "reserved_free rs w \<longleftrightarrow>
     Reserved (mbxc w) = rs \<and> (\<forall>m \<in> set rs. CHR '','' \<notin> set m \<longrightarrow> fmlookup (rooms w) m = None)"

lemma reserved_frame: "lp_frame (reserved_free rs)"
  unfolding reserved_free_def
  by (rule lp_frame_bot [of "\<lambda>r _ _ _ _ m. Reserved m = rs \<and> (\<forall>x \<in> set rs. CHR '','' \<notin> set x \<longrightarrow> fmlookup r x = None)"])

interpretation reserved_admin: admin_contract "reserved_free rs" for rs
  by unfold_locales
    (auto intro!: reserved_frame preserves_modifyM simp: rooms_Delete_def reserved_free_def)

lemma reserved_bot_frame: "bot_frame (reserved_free rs)"
proof -
  have "reserved_free rs w = reserved_free rs w'" if "queue_state.more w = queue_state.more w'"
    for w w' :: "'a bot_state_scheme"
    using that by (cases w; cases w') (simp add: reserved_free_def)
  then show ?thesis unfolding bot_frame_def by blast
qed

interpretation reserved_room: room_contract "reserved_free rs" "{m \<in> set rs. CHR '','' \<notin> set m}" for rs
  by unfold_locales
    (auto intro!: preserves_rules reserved_frame preserves_sendmail reserved_bot_frame preserves_modifyM
      simp: rooms_Delete_def rooms_Store_def reserved_free_def)

lemma reserved_keeps_command:
  assumes "commandList_get initCommands (hd s) = Some command"
  shows "preserves (reserved_free rs) (run_command X c evt s command)"
proof -
  have "preserves (reserved_free rs) (dispatch X c evt s (hd s))"
    unfolding dispatch_def
    by (auto intro: reserved_admin.admin_dispatch reserved_room.keeps_dispatch_room split: option.split)
  then show ?thesis
    unfolding run_command_def typing_def
    by (intro preserves_struct reserved_room.rooms reserved_room.keeps_run_allowed)
qed

text \<open>
  C6: no event of the sync, whoever sends it, puts a reserved mailbox into the mailbox table, neither
  as a mailbox nor as an alias.
\<close>

theorem reserved_stays_free:
  assumes "reserved_free rs w"
  shows "reserved_free rs (snd (on_event X inp w))"
proof -
  have "preserves (reserved_free rs) (on_event X inp)"
  proof (cases inp)
    case (InMessage evt)
    have "preserves (reserved_free rs) (handle X c evt)" for c
      by (rule reserved_room.keeps_handle) (rule reserved_keeps_command)
    then show ?thesis using InMessage by (auto simp: onMessage_def intro!: preserves_struct)
  qed (simp_all add: reserved_room.keeps_membership reserved_room.keeps_reaction)
  then show ?thesis by (rule preservesD) (rule assms)
qed

theorem reserved_stays_free_witness:
  "reserved_free [''admin''] (snd (on_event demo_ext (demo_message ''@eve:example.com'' ''!pm mailbox admin'')
      (bot_demo fmempty [(''!r'', fmempty)] []))) \<and>
   fmlookup (rooms (snd (on_event demo_ext (demo_message ''@eve:example.com'' ''!pm mailbox eve'')
      (bot_demo fmempty [(''!r'', fmempty)] [])))) ''eve'' = Some ''!r''"
proof
  have "reserved_free [''admin''] (bot_demo fmempty [(''!r'', fmempty)] [])" by (simp add: reserved_free_def)
  then show "reserved_free [''admin''] (snd (on_event demo_ext (demo_message ''@eve:example.com'' ''!pm mailbox admin'')
      (bot_demo fmempty [(''!r'', fmempty)] [])))" by (rule reserved_stays_free)
qed code_simp

end
