(* ===== verification/Delivery.thy ===== *)
theory Delivery
  imports Isolation
begin

text \<open>
  Where emails go: the room an incoming email is shown in, the thread it joins, and the way of an
  outgoing email through the mail client and the queue.
\<close>

section \<open>Incoming emails stay in their room\<close>

text \<open>
  What the bot sent since the messages \<open>old\<close> went to the room \<open>r\<close>; and the homeserver files an
  event under the room it is in.
\<close>

definition events_wf :: "'a lp_state_scheme \<Rightarrow> bool" where
  "events_wf w \<longleftrightarrow> (\<forall>k e. fmlookup (hs_events w) k = Some e \<longrightarrow> e_room e = fst k)"

definition room_only :: "string \<Rightarrow> mxevent list \<Rightarrow> 'a lp_state_scheme \<Rightarrow> bool" where
  "room_only r old w \<longleftrightarrow> (\<exists>new. hs_sent w = old @ new \<and> (\<forall>e \<in> set new. e_room e = r)) \<and> events_wf w"

definition ctx_in :: "string \<Rightarrow> ctx \<Rightarrow> bool" where
  "ctx_in r c \<longleftrightarrow> (\<forall>e. ctxEvent c = Some e \<longrightarrow> e_room e = r)"

lemma only_frame:
  assumes "\<And>w. hs_sent (snd (m w)) = hs_sent w \<and> hs_events (snd (m w)) = hs_events w"
  shows "preserves (room_only r old) m"
  using assms by (simp add: preserves_def room_only_def events_wf_def)

lemma only_base:
  "preserves (room_only r old) api_call" "preserves (room_only r old) (cache_put k m)"
  "preserves (room_only r old) (alias_write k m)" "preserves (room_only r old) (sendmail f t d u)"
  "preserves (room_only r old) (modifyM (\<lambda>w. w\<lparr>hs_data := h w\<rparr>))"
  by (rule only_frame;
      simp add: api_call_def cache_put_def alias_write_def sendmail_def modifyM_def Let_def split: option.split)+

lemma only_Send: "preserves (room_only r old) (lp_Send r content)"
proof (rule preservesI)
  fix w :: "'a lp_state_scheme"
  assume "room_only r old w"
  then show "room_only r old (snd (lp_Send r content w))"
    by (cases "hs_fault w (hs_calls w)")
      (auto simp: lp_Send_def api_call_def bindM_def thenM_def readM_def modifyM_def returnM_def mk_event_def
        room_only_def events_wf_def)
qed

lemma only_account_data:
  "preserves (room_only r old) (GetAccountData k)" "preserves (room_only r old) (SetAccountData k m)"
  unfolding GetAccountData_def SetAccountData_def by (intro preserves_struct only_base)+

lemmas only_lp = only_base only_Send only_account_data

lemma only_GetEvent: "preserves (room_only r old) (GetEvent room eid)"
  unfolding GetEvent_def by (intro preserves_struct only_lp)

lemma only_bind_GetEvent:
  assumes "\<And>e. preserves (room_only r old) (f (Inl e))"
    and "\<And>evt. e_room evt = room \<Longrightarrow> preserves (room_only r old) (f (Inr evt))"
  shows "preserves (room_only r old) (bindM (GetEvent room eid) f)"
proof (rule preservesI)
  fix w :: "'a lp_state_scheme"
  assume w: "room_only r old w"
  obtain res w1 where run: "GetEvent room eid w = (Ret res, w1)"
    using returns_GetEvent [of room eid] unfolding returns_def by (metis prod.collapse)
  have w1: "room_only r old w1" using preservesD [OF only_GetEvent w] run by (metis snd_conv)
  have "e_room evt = room" if "res = Inr evt" for evt
    using run that w
    by (auto simp: GetEvent_def api_call_def bindM_def readM_def returnM_def room_only_def events_wf_def
        split: option.splits)
  then have "preserves (room_only r old) (f res)" using assms by (cases res) auto
  then show "room_only r old (snd (bindM (GetEvent room eid) f w))"
    using run w1 preservesD by (fastforce simp: bindM_def)
qed

lemma only_notices:
  "preserves (room_only r old) (SendNotice X r msg rel)" "preserves (room_only r old) (SendFile r file rel2)"
  unfolding SendNotice_def SendFile_def by (intro preserves_struct only_lp)+

lemma only_config:
  "preserves (room_only r old) (GetRoom room)" "preserves (room_only r old) GetBot"
  unfolding GetRoom_def GetBot_def SetOption_def BotSetOption_def by (intro preserves_struct only_lp)+

lemma only_Error: "ctx_in r c \<Longrightarrow> preserves (room_only r old) (Bot_Error X c msg)"
  unfolding Bot_Error_def
  by (cases "ctxEvent c") (auto simp: ctx_in_def intro!: preserves_struct only_notices only_config)

lemma only_threads:
  "preserves (room_only r old) (setThreadID room m e)" "preserves (room_only r old) (setLastEventID room t e)"
  "preserves (room_only r old) (getLastEventID room t)"
  unfolding setThreadID_def setLastEventID_def getLastEventID_def by (intro preserves_struct only_lp)+

lemma only_getThreadID: "preserves (room_only r old) (getThreadID room m refs)"
proof -
  have "preserves (room_only r old) (getThreadID_loop room l)" for l
    by (induction l) (auto intro!: preserves_struct only_lp only_GetEvent)
  then show ?thesis unfolding getThreadID_def .
qed

lemma only_Sendmail: "preserves (room_only r old) (Sendmail i f t d u)"
  unfolding Sendmail_def queue_Add_def by (intro preserves_struct only_lp)

lemma only_saveSentMetadata:
  "ctx_in r c \<Longrightarrow> preserves (room_only r old) (saveSentMetadata X c q t to eml cfg txt)"
  unfolding saveSentMetadata_def
  by (cases "ctxEvent c")
    (auto simp: ctx_in_def intro!: preserves_struct only_lp only_threads only_Error)

lemma only_deliver_loop:
  "ctx_in r c \<Longrightarrow> preserves (room_only r old) (deliver_loop X c i meta data eml cfg note tos)"
  by (induction tos) (auto intro!: preserves_struct only_Sendmail only_saveSentMetadata only_Error)

lemma only_getParentEmail: "preserves (room_only r old) (getParentEmail X evt m)"
  unfolding getParentEmail_def getParentEvent_def Decrypt_def
  by (intro preserves_struct only_lp only_threads only_GetEvent)

lemma ctx_in_simps [simp]:
  "ctx_in r background" "ctx_in r (threadIDToContext c t) = ctx_in r c" "ctx_in r (newContext c e) \<longleftrightarrow> e_room e = r"
  by (simp_all add: ctx_in_def background_def threadIDToContext_def newContext_def)

lemma only_sendAutoreply: "preserves (room_only r old) (sendAutoreply X c r t)"
  unfolding sendAutoreply_def
  by (intro preserves_bindM [OF only_config(1)] preserves_prod preserves_if preserves_skipM preserves_Let
      only_bind_GetEvent)
    (auto intro!: preserves_struct only_config only_getParentEmail only_deliver_loop)

lemma only_sendFiles: "ctx_in r c \<Longrightarrow> preserves (room_only r old) (sendFiles X c r fs n p)"
  unfolding sendFiles_def by (intro preserves_struct only_notices only_Error)

lemma only_incoming_rest:
  "ctx_in r c \<Longrightarrow> preserves (room_only r old) (incoming_rest X c r cfg eml n t)"
  unfolding incoming_rest_def by (intro preserves_struct only_lp only_sendFiles only_sendAutoreply)

lemma only_incoming_send:
  "ctx_in r c \<Longrightarrow> preserves (room_only r old) (incoming_send X c r cfg eml t)"
  unfolding incoming_send_def by (intro preserves_struct only_lp only_threads only_incoming_rest) simp_all


lemma only_GetMapping: "preserves (room_only r old) (GetMapping m)"
  unfolding GetMapping_def getMapping_def by (intro preserves_struct only_config)

lemma IncomingEmail_unmapped:
  "GetMapping (email_Mailbox X eml True) w = (Ret None, w1) \<Longrightarrow>
   IncomingEmail X c eml w = (Ret (Some ErrNoRoom, eml), w1)"
  by (simp add: IncomingEmail_def run_simps)

lemma only_IncomingEmail:
  assumes "GetMapping (email_Mailbox X eml True) w = (Ret (Some r), w1)" and "room_only r old w1" and "ctx_in r c"
  shows "room_only r old (snd (IncomingEmail X c eml w))"
proof -
  let ?rest = "bindM (GetRoom r) (\<lambda>(cfg, err).
         thenM (case err of None \<Rightarrow> skipM | Some e \<Rightarrow> Bot_Error X c (''cannot get settings: '' @ e))
         (bindM (incoming_thread r eml) (\<lambda>threadID.
          (let opts = ContentOptions cfg;
               eml = (if Room_Stripify cfg \<and> \<not> Room_Threadify cfg
                      then eml\<lparr>em_Files := em_Files eml @
                             [original_file X (Content X eml threadID (opts\<lparr>co_Stripify := False\<rparr>))]\<rparr>
                      else eml) in
           incoming_send X c r cfg eml threadID))))"
  have keeps: "preserves (room_only r old) ?rest"
    unfolding incoming_thread_def
    by (intro preserves_struct only_config only_Error only_getThreadID only_threads only_incoming_send assms(3))
  have run: "IncomingEmail X c eml w = ?rest w1"
    using assms(1) by (simp add: IncomingEmail_def run_simps)
  show ?thesis unfolding run by (rule preservesD [OF keeps assms(2)])
qed



definition demo_incoming :: email where
  "demo_incoming =
     \<lparr>em_Date = [], em_MessageID = ''<1@example.org>'', em_InReplyTo = [], em_References = [],
      em_From = ''eve@example.org'', em_To = ''bob@example.com'', em_RcptTo = ''bob@example.com'', em_CC = [],
      em_Subject = ''hi'', em_Text = ''hello'', em_HTML = [], em_Files = [], em_InlineFiles = []\<rparr>"

abbreviation demo_inbox :: bot_state where
  "demo_inbox \<equiv> bot_demo fmempty [(''!r'', fmempty)] [(''bob'', ''!r'')]"

lemma bot_demo_events [simp]: "hs_events (bot_demo cfg rcfgs boxes) = fmempty"
  by (simp add: bot_demo_def queue_state.defs bot_state.defs queue_demo_def)


section \<open>Threads\<close>

text \<open>A message the bot has looked up and found no thread for.\<close>

definition threadless :: "'a lp_state_scheme \<Rightarrow> string \<Rightarrow> mailid \<Rightarrow> bool" where
  "threadless w r m \<longleftrightarrow> (\<exists>d. fmlookup (acc w) (messageKey r m) = Some d \<and> goget d ''eventID'' = [])"

lemma threadless_skip: "threadless w r m \<Longrightarrow> getThreadID_loop r (m # ms) w = getThreadID_loop r ms w"
  by (auto simp: threadless_def run_simps)

lemma threadless_skips: "\<forall>m \<in> set ms. threadless w r m \<Longrightarrow> getThreadID_loop r (ms @ ms') w = getThreadID_loop r ms' w"
  by (induction ms) (simp_all add: threadless_skip del: getThreadID_loop.simps)

lemma getThreadID_found:
  assumes "fmlookup (acc w) (messageKey r m) = Some (eventID_data eid)" and "eid \<noteq> []"
    and "hs_fault w (hs_calls w) = None" and "fmlookup (hs_events w) (r, eid) = Some evt"
  shows "fst (getThreadID_loop r (m # ms) w) = Ret (e_id evt)"
  using assms by (simp add: eventID_data_def goget_def GetEvent_def api_call_def run_simps bindM_def)

text \<open>
  C35: an email joins the thread of the email it answers: after the thread of a message is stored, an
  email that answers the message, or that names it in its references behind messages
  without a thread, is put into that thread. It does not matter whether the homeserver stored the
  thread; the event the thread starts with must still be there.
\<close>

theorem thread_roundtrip:
  assumes "eid \<noteq> []" and "hs_fault w (Suc (hs_calls w)) = None"
    and "fmlookup (hs_events w) (r, eid) = Some evt" and "e_id evt = eid"
    and "inReplyTo # (if references = [] then [] else Split (CHR '' '') references) = before @ m # after"
    and "\<forall>x \<in> set before. x \<noteq> m \<and> threadless w r x"
  shows "fst (bindM (setThreadID r m eid) (\<lambda>_. getThreadID r inReplyTo references) w) = Ret eid"
proof -
  obtain w1 where set: "setThreadID r m eid w = (Ret (), w1)" "hs_fault w1 = hs_fault w"
      "acc w1 = fmupd (messageKey r m) (eventID_data eid) (acc w)" "hs_events w1 = hs_events w"
      "hs_calls w1 = Suc (hs_calls w)"
    by (cases "hs_fault w (hs_calls w)") (auto simp: setThreadID_def run_simps)
  have "\<forall>x \<in> set before. threadless w1 r x"
    using assms(6) set(3) by (auto simp: threadless_def messageKey_def)
  moreover have "getThreadID r inReplyTo references = getThreadID_loop r (before @ m # after)"
    unfolding getThreadID_def assms(5) [symmetric] by (cases "references = []") simp_all
  ultimately have "getThreadID r inReplyTo references w1 = getThreadID_loop r (m # after) w1"
    by (metis threadless_skips)
  moreover have "fst (getThreadID_loop r (m # after) w1) = Ret (e_id evt)"
    by (rule getThreadID_found [of _ _ _ eid]) (use assms set in simp_all)
  ultimately show ?thesis using set(1) assms(4) by (simp add: bindM_def)
qed


definition demo_thread_event :: mxevent where
  "demo_thread_event =
     \<lparr>e_id = ''$1'', e_room = ''!r'', e_sender = ''@bot:example.com'', e_ts = 1,
      e_content = \<lparr>c_body = [], c_formatted = [], c_notice = False, c_rel = None, c_raw = fmempty\<rparr>\<rparr>"

theorem thread_roundtrip_witness:
  "fst (bindM (setThreadID ''!r'' ''<1@x>'' ''$1'') (\<lambda>_. getThreadID ''!r'' ''<1@x>'' [])
     (demo_inbox\<lparr>hs_events := fmupd (''!r'', ''$1'') demo_thread_event fmempty\<rparr>)) = Ret ''$1''"
  by (rule thread_roundtrip [of _ _ _ demo_thread_event _ _ "[]" _ "[]"]) (simp_all add: demo_thread_event_def)

section \<open>Outgoing emails\<close>


text \<open>
  C37: without a relay for the room the same refusal ends in a panic: the queue is given a nil pointer,
  and the email is neither sent nor queued.
\<close>

theorem greylisted_without_relay_panics:
  assumes "mail_fault w (mail_calls w) = Some e" and "shouldQueue e"
  shows "fst (Sendmail i sender to data None w) = Panic ''nil pointer dereference'' \<and>
    mail_sent (snd (Sendmail i sender to data None w)) = mail_sent w \<and>
    pending (snd (Sendmail i sender to data None w)) = pending w"
  using assms by (simp add: Sendmail_def sendmail_def bindM_def queue_Add_nil pending_def fun_eq_iff split: option.split)


definition demo_relay :: url where
  "demo_relay =
     \<lparr>url_text = ''smtp://relay.example.com'', url_hostname = ''smtp://relay.example.com'', url_port = [],
      url_username = [], url_password = []\<rparr>"

abbreviation demo_refused :: bot_state where
  "demo_refused \<equiv> demo_inbox\<lparr>mail_fault := (\<lambda>n. if n = 0 then Some ''451 try again later'' else None)\<rparr>"

lemma demo_refused_simps [simp]:
  "mail_calls (bot_demo cfg rcfgs boxes) = 0" "shouldQueue ''451 try again later''"
  by (simp add: bot_demo_def queue_state.defs bot_state.defs queue_demo_def) code_simp


theorem greylisted_without_relay_panics_witness:
  "fst (Sendmail ''$1'' ''bob@example.com'' ''eve@example.org'' ''hello'' None demo_refused) = Panic ''nil pointer dereference''"
  using greylisted_without_relay_panics [of demo_refused "''451 try again later''"] by simp

end
