(* ===== verification/Smtp_Conn.thy ===== *)
theory Smtp_Conn
  imports Smtp_Session
begin

text \<open>
  A connection of the vendored SMTP server (go-smtp, conn.go), as far as it decides which
  methods of the session run: greeting, authentication, MAIL, RCPT, DATA and RSET, with
  arguments that are already parsed. A panic in a handler is answered with 421 and closes the
  connection. Not modelled: the syntax of commands and their parameters, BDAT, STARTTLS (a new
  session starts behind it), LMTP, the limit on errors, and the network.
\<close>

section \<open>Connections\<close>

record conn =
  k_addr :: netaddr
  k_secure :: bool
  k_session :: "session option"
  k_fromReceived :: bool
  k_recipients :: "string list"
  k_didAuth :: bool
  k_closed :: bool

datatype smtp_cmd =
    EHLO
  | AUTH string "string option" "string list"
  | MAIL string
  | RCPT string
  | DATA string
  | RSET

definition newConn :: "netaddr \<Rightarrow> bool \<Rightarrow> conn" where
  "newConn addr secure =
     \<lparr>k_addr = addr, k_secure = secure, k_session = None, k_fromReceived = False, k_recipients = [],
      k_didAuth = False, k_closed = False\<rparr>"

definition writeError :: "nat \<Rightarrow> smtp_error \<Rightarrow> nat" where
  "writeError code err = (case err of SMTPError c _ _ \<Rightarrow> c | OtherError _ \<Rightarrow> code)"

definition conn_reset :: "conn \<Rightarrow> conn" where
  "conn_reset k =
     k\<lparr>k_session := map_option session_Reset (k_session k), k_fromReceived := False, k_recipients := []\<rparr>"

definition handleGreet ::
  "'w matrixbot \<Rightarrow> string list \<Rightarrow> conn \<Rightarrow> ('w, conn \<times> nat) action" where
  "handleGreet B ds k =
     (if k_session k \<noteq> None then returnM (conn_reset k, 250)
      else
        bindM (NewSession B ds (k_addr k)) (\<lambda>s. returnM (k\<lparr>k_session := Some s\<rparr>, 250)))"

text \<open>The exchange of challenges; the client's answers end when it breaks off.\<close>

fun auth_exchange ::
  "externals \<Rightarrow> 'w matrixbot \<Rightarrow> session \<Rightarrow> authServer \<Rightarrow> string option \<Rightarrow> string list \<Rightarrow>
   ('w, session \<times> nat) action" where
  "auth_exchange X B s a response answers =
     bindM (auth_Next X B s a response) (\<lambda>(a, s, challenge, finished, err).
     case err of
       Some e \<Rightarrow> returnM (s, writeError 454 e)
     | None \<Rightarrow>
         if finished then returnM (s, 235)
         else (case answers of
                 [] \<Rightarrow> returnM (s, 501)
               | r # rs \<Rightarrow> auth_exchange X B s a (Some r) rs))"

declare auth_exchange.simps [simp del]

definition handleAuth ::
  "externals \<Rightarrow> 'w matrixbot \<Rightarrow> conn \<Rightarrow> string \<Rightarrow> string option \<Rightarrow> string list \<Rightarrow> ('w, conn \<times> nat) action" where
  "handleAuth X B k mech ir answers =
     (case k_session k of
        None \<Rightarrow> returnM (k, 502)
      | Some s \<Rightarrow>
          if k_didAuth k then returnM (k, 503)
          else if \<not> k_secure k then returnM (k, 523)
          else
            bindM (session_Auth B s mech) (\<lambda>server.
            case server of
              Inl e \<Rightarrow> returnM (k, writeError 454 e)
            | Inr a \<Rightarrow>
                bindM (auth_exchange X B s a ir answers) (\<lambda>(s, code).
                returnM (k\<lparr>k_session := Some s, k_didAuth := (code = 235)\<rparr>, code))))"

definition handleMail ::
  "externals \<Rightarrow> 'w matrixbot \<Rightarrow> conn \<Rightarrow> string \<Rightarrow> ('w, conn \<times> nat) action" where
  "handleMail X B k from =
     (case k_session k of
        None \<Rightarrow> returnM (k, 502)
      | Some s \<Rightarrow>
          bindM (session_Mail X B s from) (\<lambda>(s, err).
          case err of
            Some e \<Rightarrow> returnM (k\<lparr>k_session := Some s\<rparr>, writeError 451 e)
          | None \<Rightarrow> returnM (k\<lparr>k_session := Some s, k_fromReceived := True\<rparr>, 250)))"

definition handleRcpt ::
  "externals \<Rightarrow> smtp_ext \<Rightarrow> 'w matrixbot \<Rightarrow> conn \<Rightarrow> string \<Rightarrow> ('w, conn \<times> nat) action" where
  "handleRcpt X S B k to =
     (case k_session k of
        None \<Rightarrow> returnM (k, 502)
      | Some s \<Rightarrow>
          if \<not> k_fromReceived k then returnM (k, 502)
          else
            bindM (session_Rcpt X S B s to) (\<lambda>(s, err).
            case err of
              Some e \<Rightarrow> returnM (k\<lparr>k_session := Some s\<rparr>, writeError 451 e)
            | None \<Rightarrow> returnM (k\<lparr>k_session := Some s, k_recipients := k_recipients k @ [to]\<rparr>, 250)))"

definition handleData ::
  "externals \<Rightarrow> smtp_ext \<Rightarrow> 'w matrixbot \<Rightarrow> 'w sender \<Rightarrow> conn \<Rightarrow> string \<Rightarrow> ('w, conn \<times> nat) action" where
  "handleData X S B send k data =
     (case k_session k of
        None \<Rightarrow> returnM (k, 502)
      | Some s \<Rightarrow>
          if \<not> k_fromReceived k \<or> k_recipients k = [] then returnM (k, 502)
          else
            bindM (session_Data X S B send s data) (\<lambda>err.
            returnM (conn_reset k, case err of None \<Rightarrow> 250 | Some e \<Rightarrow> writeError 554 e)))"

text \<open>A handler that panics closes the connection.\<close>

definition recover421 :: "conn \<Rightarrow> ('w, conn \<times> nat) action \<Rightarrow> ('w, conn \<times> nat) action" where
  "recover421 k m w =
     (case m w of
        (Ret r, w') \<Rightarrow> (Ret r, w')
      | (Panic _, w') \<Rightarrow> (Ret (k\<lparr>k_session := None, k_closed := True\<rparr>, 421), w'))"

fun handle_cmd ::
  "externals \<Rightarrow> smtp_ext \<Rightarrow> 'w matrixbot \<Rightarrow> 'w sender \<Rightarrow> string list \<Rightarrow> conn \<Rightarrow> smtp_cmd \<Rightarrow>
   ('w, conn \<times> nat) action" where
  "handle_cmd X S B send ds k EHLO = handleGreet B ds k"
| "handle_cmd X S B send ds k (AUTH mech ir answers) = handleAuth X B k mech ir answers"
| "handle_cmd X S B send ds k (MAIL from) = handleMail X B k from"
| "handle_cmd X S B send ds k (RCPT to) = handleRcpt X S B k to"
| "handle_cmd X S B send ds k (DATA data) = handleData X S B send k data"
| "handle_cmd X S B send ds k RSET = returnM (conn_reset k, 250)"

definition conn_handle ::
  "externals \<Rightarrow> smtp_ext \<Rightarrow> 'w matrixbot \<Rightarrow> 'w sender \<Rightarrow> string list \<Rightarrow> conn \<Rightarrow> smtp_cmd \<Rightarrow>
   ('w, conn \<times> nat) action" where
  "conn_handle X S B send ds k c =
     (if k_closed k then returnM (k, 421) else recover421 k (handle_cmd X S B send ds k c))"

text \<open>A dialogue: the replies to a sequence of commands.\<close>

fun dialogue ::
  "externals \<Rightarrow> smtp_ext \<Rightarrow> 'w matrixbot \<Rightarrow> 'w sender \<Rightarrow> string list \<Rightarrow> conn \<Rightarrow> smtp_cmd list \<Rightarrow>
   ('w, conn \<times> nat list) action" where
  "dialogue X S B send ds k [] = returnM (k, [])"
| "dialogue X S B send ds k (c # cs) =
     bindM (conn_handle X S B send ds k c) (\<lambda>(k, code).
     bindM (dialogue X S B send ds k cs) (\<lambda>(k, codes). returnM (k, code # codes)))"

section \<open>The contract of the bot\<close>

text \<open>
  What a connection relies on: the operations of the bot behind the interface keep \<open>I\<close>. The mail
  client is not part of the contract.
\<close>

locale bot_contract =
  fixes B :: "'w matrixbot" and I :: "'w \<Rightarrow> bool"
  assumes keeps_AllowAuth: "preserves I (mb_AllowAuth B u p)"
    and keeps_IsGreylisted: "preserves I (mb_IsGreylisted B a)"
    and keeps_IsBanned: "preserves I (mb_IsBanned B a)"
    and keeps_IsTrusted: "preserves I (mb_IsTrusted B a)"
    and keeps_BanAuto: "preserves I (mb_BanAuto B a)"
    and keeps_BanAuth: "preserves I (mb_BanAuth B a)"
    and keeps_GetMapping: "preserves I (mb_GetMapping B m)"
    and keeps_GetIFOptions: "preserves I (mb_GetIFOptions B r)"
    and keeps_IncomingEmail: "preserves I (mb_IncomingEmail B e)"
    and keeps_GetDKIMprivkey: "preserves I (mb_GetDKIMprivkey B)"
    and keeps_GetRelayConfig: "preserves I (mb_GetRelayConfig B r)"
    and keeps_now: "preserves I (mb_now B)"
begin

lemmas keeps =
  keeps_AllowAuth keeps_IsGreylisted keeps_IsBanned keeps_IsTrusted keeps_BanAuto keeps_BanAuth
  keeps_GetMapping keeps_GetIFOptions keeps_IncomingEmail keeps_GetDKIMprivkey keeps_GetRelayConfig
  keeps_now

lemma keeps_authPlain: "preserves I (authPlain X B s u p)"
  unfolding authPlain_def by (intro preserves_rules keeps)

lemma keeps_auth_Next: "preserves I (auth_Next X B s a r)"
proof (cases a)
  case (LoginServer l)
  then show ?thesis
    by (cases "ls_state l") (auto simp: auth_Next_def Login_Next_def intro!: preserves_rules keeps_authPlain)
next
  case (PlainServer f)
  have "preserves I (Plain_Next X B s f r)"
    unfolding Plain_Next_def by (intro preserves_rules keeps keeps_authPlain)
  then show ?thesis using PlainServer by (auto simp: auth_Next_def intro!: preserves_rules)
qed

lemma keeps_auth_exchange: "preserves I (auth_exchange X B s a r rs)"
proof (induction rs arbitrary: s a r)
  case Nil
  show ?case by (subst auth_exchange.simps) (intro preserves_rules keeps_auth_Next, auto)
next
  case (Cons r' rs)
  show ?case
    by (subst auth_exchange.simps) (intro preserves_rules keeps_auth_Next Cons.IH; simp add: Cons.IH)
qed

lemma keeps_Mail: "preserves I (session_Mail X B s from)"
  unfolding session_Mail_def validateOutgoingMail_def by (intro preserves_rules keeps)

lemma keeps_Rcpt: "preserves I (session_Rcpt X S B s to)"
  unfolding session_Rcpt_def validateIncomingRcpt_def by (intro preserves_rules keeps)

lemma keeps_incoming_loop: "preserves I (incoming_loop B eml tos)"
  by (induction tos arbitrary: eml) (auto intro!: preserves_rules keeps)

lemma keeps_incomingData: "preserves I (incomingData X S B s data)"
  unfolding incomingData_def getAddr_def deliver_incoming_def
  by (intro preserves_rules preserves_sum keeps keeps_incoming_loop)

lemma keeps_Data: "s_dir s \<noteq> Outgoing \<Longrightarrow> preserves I (session_Data X S B send s data)"
  by (simp add: session_Data_def keeps_incomingData)

lemma keeps_cmd:
  assumes "\<And>s. k_session k = Some s \<Longrightarrow> s_dir s \<noteq> Outgoing"
  shows "preserves I (handle_cmd X S B send ds k c)"
proof (cases c)
  case EHLO
  then show ?thesis
    by (auto simp: handleGreet_def NewSession_def intro!: preserves_rules keeps)
next
  case (AUTH mech ir answers)
  then show ?thesis
    by (auto simp: handleAuth_def session_Auth_def
        intro!: preserves_rules preserves_sum keeps keeps_auth_exchange split: option.split)
next
  case (MAIL a)
  then show ?thesis
    by (auto simp: handleMail_def intro!: preserves_rules keeps_Mail split: option.split)
next
  case (RCPT to)
  then show ?thesis
    by (auto simp: handleRcpt_def intro!: preserves_rules keeps_Rcpt split: option.split)
next
  case (DATA data)
  then show ?thesis
    using assms by (auto simp: handleData_def intro!: preserves_rules keeps_Data split: option.split)
next
  case RSET
  then show ?thesis by (auto intro!: preserves_rules)
qed

lemma keeps_recover: "preserves I m \<Longrightarrow> preserves I (recover421 k m)"
  by (auto simp: preserves_def recover421_def split: prod.split res.split)

lemma keeps_handle:
  "(\<And>s. k_session k = Some s \<Longrightarrow> s_dir s \<noteq> Outgoing) \<Longrightarrow> preserves I (conn_handle X S B send ds k c)"
  unfolding conn_handle_def by (intro preserves_rules keeps_recover keeps_cmd)

end

section \<open>Once authenticated, always authenticated\<close>

text \<open>A connection that is closed, or whose session sends for an authenticated user.\<close>

definition conn_past :: "conn \<Rightarrow> bool" where
  "conn_past k \<longleftrightarrow> k_closed k \<or> (\<exists>s. k_session k = Some s \<and> s_dir s = Outgoing)"

lemma yields_authPlain: "s_dir s = Outgoing \<Longrightarrow> yields (\<lambda>(s', _). s_dir s' = Outgoing) (authPlain X B s u p)"
  unfolding authPlain_def by (intro yields_rules) simp_all

lemma yields_auth_Next:
  assumes "s_dir s = Outgoing"
  shows "yields (\<lambda>(_, s', _). s_dir s' = Outgoing) (auth_Next X B s a r)"
proof (cases a)
  case (LoginServer l)
  have step: "yields (\<lambda>(_, s', _). s_dir s' = Outgoing) (Login_Next X B s l r')" for r'
    unfolding Login_Next_def
    by (cases "ls_state l")
      (auto intro!: yields_rules yields_bind_inv [OF yields_authPlain [OF assms]] simp: assms)
  show ?thesis
    unfolding auth_Next_def LoginServer authServer.case
    by (rule yields_bind_inv [OF step]) (auto intro!: yields_rules)
next
  case (PlainServer f)
  have step: "yields (\<lambda>(_, s', _). s_dir s' = Outgoing) (Plain_Next X B s f r)"
    unfolding Plain_Next_def
    by (intro yields_rules yields_bind_inv [OF yields_authPlain [OF assms]]) (auto simp: assms)
  show ?thesis
    unfolding auth_Next_def PlainServer authServer.case
    by (rule yields_bind_inv [OF step]) (auto intro!: yields_rules)
qed

lemma yields_auth_exchange:
  "s_dir s = Outgoing \<Longrightarrow> yields (\<lambda>(s', _). s_dir s' = Outgoing) (auth_exchange X B s a r rs)"
proof (induction rs arbitrary: s a r)
  case Nil
  show ?case
    unfolding auth_exchange.simps [of X B s a r]
    by (rule yields_bind_inv [OF yields_auth_Next [OF Nil]]) (auto intro!: yields_rules split: option.split)
next
  case (Cons r' rs)
  show ?case
    unfolding auth_exchange.simps [of X B s a r]
    by (rule yields_bind_inv [OF yields_auth_Next [OF Cons.prems]])
      (auto intro!: yields_rules Cons.IH split: option.split)
qed

lemma yields_Mail:
  "s_dir s = Outgoing \<Longrightarrow> yields (\<lambda>(s', _). s_dir s' = Outgoing) (session_Mail X B s from)"
  unfolding session_Mail_def by (intro yields_rules) simp_all

lemma yields_Rcpt:
  "s_dir s = Outgoing \<Longrightarrow> yields (\<lambda>(s', _). s_dir s' = Outgoing) (session_Rcpt X S B s to)"
  by (auto simp: session_Rcpt_def Let_def intro!: yields_rules)

lemma conn_past_reset [simp]: "conn_past (conn_reset k) \<longleftrightarrow> conn_past k"
  by (auto simp: conn_past_def conn_reset_def session_Reset_def)

lemma yields_cmd_past:
  assumes "conn_past k" and open': "\<not> k_closed k"
  shows "yields (\<lambda>(k', _). conn_past k') (handle_cmd X S B send ds k c)"
proof -
  obtain s where s: "k_session k = Some s" "s_dir s = Outgoing" using assms by (auto simp: conn_past_def)
  show ?thesis
  proof (cases c)
    case (AUTH mech ir answers)
    then show ?thesis
      using s assms
      by (auto simp: handleAuth_def conn_past_def
          intro!: yields_rules yields_bind_inv [OF yields_auth_exchange [OF s(2)]] yields_bindM
          split: sum.split)
  next
    case (MAIL a)
    then show ?thesis
      using s by (auto simp: handleMail_def conn_past_def intro!: yields_rules
          yields_bind_inv [OF yields_Mail [OF s(2)]] split: option.split)
  next
    case (RCPT a)
    then show ?thesis
      using s assms by (auto simp: handleRcpt_def conn_past_def intro!: yields_rules
          yields_bind_inv [OF yields_Rcpt [OF s(2)]] split: option.split)
  qed (use s assms in \<open>auto simp: handleGreet_def handleData_def intro!: yields_rules\<close>)
qed

lemma yields_recover:
  "yields Q m \<Longrightarrow> Q (k\<lparr>k_session := None, k_closed := True\<rparr>, 421) \<Longrightarrow> yields Q (recover421 k m)"
  by (auto simp: yields_def recover421_def split: prod.splits res.splits)

lemma yields_handle_past:
  "conn_past k \<Longrightarrow> yields (\<lambda>(k', _). conn_past k') (conn_handle X S B send ds k c)"
  unfolding conn_handle_def
  by (intro yields_rules yields_recover yields_cmd_past) (auto simp: conn_past_def)

lemma yields_dialogue_past:
  "conn_past k \<Longrightarrow> yields (\<lambda>(k', _). conn_past k') (dialogue X S B send ds k cs)"
proof (induction cs arbitrary: k)
  case (Cons c cs)
  show ?case
    by (simp, rule yields_bind_inv [OF yields_handle_past [OF Cons.prems]], clarsimp)
      (rule yields_bind_inv [OF Cons.IH], auto intro: yields_rules)
qed (auto intro: yields_rules)

section \<open>Without authentication nothing is sent\<close>

context bot_contract
begin

lemma dialogue_unauthenticated:
  assumes "dialogue X S B send ds k cs w = (Ret (k', codes), w')" and "\<not> conn_past k'" and "I w"
  shows "I w'"
  using assms
proof (induction cs arbitrary: k codes w)
  case Nil
  then show ?case by (simp add: run_simps)
next
  case (Cons c cs)
  obtain r w1 where h: "conn_handle X S B send ds k c w = (r, w1)" by fastforce
  with Cons.prems(1) obtain k1 code where r: "r = Ret (k1, code)"
    by (cases r) (auto simp: run_simps)
  obtain r2 w2 where d: "dialogue X S B send ds k1 cs w1 = (r2, w2)" by fastforce
  with Cons.prems(1) h r obtain codes2 where r2: "r2 = Ret (k', codes2)" "w2 = w'"
    by (cases r2) (auto simp: run_simps)
  have "\<not> conn_past k1"
    using yieldsD [OF yields_dialogue_past d [unfolded r2]] Cons.prems(2) by auto
  then have "\<not> conn_past k"
    using yieldsD [OF yields_handle_past h [unfolded r]] by auto
  then have "preserves I (conn_handle X S B send ds k c)"
    by (intro keeps_handle) (auto simp: conn_past_def)
  then have "I w1" using preservesD_run h Cons.prems(3) by metis
  then show ?case using Cons.IH [of k1 w1 codes2] d r2 Cons.prems(2) by simp
qed

end

section \<open>Lemmas about dialogues\<close>

lemma handle_cmd_send:
  "\<not> conn_past k \<Longrightarrow> handle_cmd X S B send ds k c = handle_cmd X S B send' ds k c"
  by (cases c) (auto simp: handleData_def session_Data_def conn_past_def split: option.split)

lemma conn_handle_send:
  "\<not> conn_past k \<Longrightarrow> conn_handle X S B send ds k c = conn_handle X S B send' ds k c"
  using handle_cmd_send [of k X S B send ds c send'] by (simp add: conn_handle_def)

lemma dialogue_Cons_Ret:
  assumes "dialogue X S B send ds k (c # cs) w = (Ret (k', codes), w')"
  obtains k1 code w1 codes' where "conn_handle X S B send ds k c w = (Ret (k1, code), w1)"
    and "dialogue X S B send ds k1 cs w1 = (Ret (k', codes'), w')" and "codes = code # codes'"
proof -
  obtain r w1 where h: "conn_handle X S B send ds k c w = (r, w1)" by fastforce
  with assms obtain k1 code where r: "r = Ret (k1, code)" by (cases r) (auto simp: run_simps)
  obtain r2 w2 where d: "dialogue X S B send ds k1 cs w1 = (r2, w2)" by fastforce
  with assms h r that show ?thesis by (cases r2) (auto simp: run_simps)
qed

lemma dialogue_send:
  "dialogue X S B send ds k cs w = (Ret (k', codes), w') \<Longrightarrow> \<not> conn_past k' \<Longrightarrow>
   dialogue X S B send' ds k cs w = (Ret (k', codes), w')"
proof (induction cs arbitrary: k codes w)
  case (Cons c cs)
  from Cons.prems(1) obtain k1 code w1 codes' where
    h: "conn_handle X S B send ds k c w = (Ret (k1, code), w1)"
    and d: "dialogue X S B send ds k1 cs w1 = (Ret (k', codes'), w')" and codes: "codes = code # codes'"
    by (rule dialogue_Cons_Ret)
  have "\<not> conn_past k1" using yieldsD [OF yields_dialogue_past d] Cons.prems(2) by auto
  then have "\<not> conn_past k" using yieldsD [OF yields_handle_past h] by auto
  then have "conn_handle X S B send' ds k c w = (Ret (k1, code), w1)"
    using h conn_handle_send [of k X S B send ds c send'] by simp
  then show ?case using Cons.IH [OF d Cons.prems(2)] codes by (simp add: run_simps)
qed simp

lemma incomingData_None:
  assumes run: "incomingData X S B s data w = (Ret None, w')"
  obtains env addr opts w1 w2 w3 where "sx_envelope S data = Inr env"
    and "getAddr S B s env w = (Ret addr, w1)" and "mb_GetIFOptions B (s_roomID s) w1 = (Ret opts, w2)"
    and "validateIncoming S (s_from s) (env_header env ''Return-Path'') addr opts"
    and "mb_IsGreylisted B addr w2 = (Ret False, w3)"
    and "Room_SpamcheckDKIM opts \<Longrightarrow> \<exists>rs. sx_dkimverify S data = Inr rs \<and> dkim_failure rs = None"
    and "deliver_incoming X B s env w3 = (Ret None, w')"
proof -
  obtain env where env: "sx_envelope S data = Inr env"
    using run by (cases "sx_envelope S data") (auto simp: incomingData_def run_simps)
  obtain ra w1 where a: "getAddr S B s env w = (ra, w1)" by fastforce
  obtain addr where ra: "ra = Ret addr" using run env a by (cases ra) (auto simp: incomingData_def bindM_def)
  obtain ro w2 where o: "mb_GetIFOptions B (s_roomID s) w1 = (ro, w2)" by fastforce
  obtain opts where ro: "ro = Ret opts"
    using run env a ra o by (cases ro) (auto simp: incomingData_def bindM_def)
  have v: "validateIncoming S (s_from s) (env_header env ''Return-Path'') addr opts"
    using run env a ra o ro
    by (auto simp: incomingData_def bindM_def thenM_def returnM_def split: if_splits prod.splits res.splits)
  obtain rg w3 where g: "mb_IsGreylisted B addr w2 = (rg, w3)" by fastforce
  note facts = env a ra o ro v g
  have rg: "rg = Ret False"
    using run facts by (cases rg) (auto simp: incomingData_def bindM_def returnM_def split: if_splits)
  have fin: "(if \<not> Room_SpamcheckDKIM opts then deliver_incoming X B s env
     else (case sx_dkimverify S data of
             Inl e \<Rightarrow> returnM (Some (OtherError e))
           | Inr results \<Rightarrow>
               (case dkim_failure results of
                  Some e \<Rightarrow> returnM (Some (OtherError e))
                | None \<Rightarrow> deliver_incoming X B s env))) w3 = (Ret None, w')"
    using run facts rg by (simp add: incomingData_def bindM_def)
  show ?thesis
    by (rule that [OF env a [unfolded ra] o [unfolded ro] v g [unfolded rg]])
      (use fin in \<open>auto simp: returnM_def split: if_splits sum.splits option.splits\<close>)
qed

lemma incoming_loop_None:
  "incoming_loop B eml tos w = (Ret None, w') \<Longrightarrow> to \<in> set tos \<Longrightarrow>
   \<exists>eml1 w1 eml2 w2. em_RcptTo eml1 = to \<and> mb_IncomingEmail B eml1 w1 = (Ret (None, eml2), w2)"
proof (induction tos arbitrary: eml w)
  case (Cons t tos)
  obtain r w1 where r: "mb_IncomingEmail B (eml\<lparr>em_RcptTo := t\<rparr>) w = (r, w1)" by fastforce
  obtain eml2 where ok: "r = Ret (None, eml2)"
    using Cons.prems(1) r by (cases r) (auto simp: bindM_def returnM_def split: option.splits)
  show ?case
  proof (cases "to = t")
    case True
    then show ?thesis using r ok by (intro exI [of _ "eml\<lparr>em_RcptTo := t\<rparr>"]) auto
  next
    case False
    then show ?thesis using Cons.IH [of eml2 w1] Cons.prems r ok by (auto simp: bindM_def)
  qed
qed simp

section \<open>The contract with the mail client\<close>

text \<open>The contract of the bot together with that of the mail client, which a session may use.\<close>

locale mail_contract = bot_contract B I for B :: "'w matrixbot" and I +
  fixes send :: "'w sender"
  assumes keeps_send: "preserves I (send f t d rel)"
begin

lemma keeps_outgoing_loop: "preserves I (outgoing_loop X B send s eml tos)"
proof (induction tos arbitrary: eml)
  case (Cons to tos)
  show ?case
    by (simp add: Let_def, intro conjI impI; intro preserves_rules keeps keeps_send Cons.IH preserves_liftM)
qed (simp add: preserves_rules)

lemma keeps_Data_any: "preserves I (session_Data X S B send s data)"
  unfolding session_Data_def outgoingData_def
  by (intro preserves_rules preserves_sum keeps keeps_incomingData keeps_outgoing_loop)

lemma keeps_handle_any: "preserves I (conn_handle X S B send ds k c)"
proof (cases "k_closed k")
  case False
  have "preserves I (handle_cmd X S B send ds k c)"
  proof (cases c)
    case (DATA d)
    then show ?thesis
      by (auto simp: handleData_def intro!: preserves_rules keeps_Data_any split: option.split)
  next
    case EHLO
    then show ?thesis by (auto simp: handleGreet_def NewSession_def intro!: preserves_rules keeps)
  next
    case (AUTH mech ir answers)
    then show ?thesis
      by (auto simp: handleAuth_def session_Auth_def
          intro!: preserves_rules preserves_sum keeps keeps_auth_exchange split: option.split)
  next
    case (MAIL a)
    then show ?thesis by (auto simp: handleMail_def intro!: preserves_rules keeps_Mail split: option.split)
  next
    case (RCPT to)
    then show ?thesis by (auto simp: handleRcpt_def intro!: preserves_rules keeps_Rcpt split: option.split)
  qed (auto intro!: preserves_rules)
  then show ?thesis using False by (simp add: conn_handle_def keeps_recover)
qed (simp add: conn_handle_def preserves_rules)

lemma keeps_dialogue: "preserves I (dialogue X S B send ds k cs)"
  by (induction cs arbitrary: k) (auto intro!: preserves_rules keeps_handle_any)

end

interpretation pm: mail_contract "postmoogle X" "\<lambda>w. queue_state.more w = m" sendmail
  for X :: externals and m :: "'a bot_state_ext"
proof
  have frame: "bot_frame (\<lambda>w. queue_state.more w = m)" "lp_frame (\<lambda>w. queue_state.more w = m)"
    by (auto intro: bot_frame_lp)
  note [simp] = postmoogle_def
  fix u p a mm r e f t d and rel :: "url option"
  show "preserves (\<lambda>w. queue_state.more w = m) (mb_AllowAuth (postmoogle X) u p)"
    by (simp, intro preserves_rules frame)
  show "preserves (\<lambda>w. queue_state.more w = m) (mb_IsGreylisted (postmoogle X) a)"
    by (simp, intro preserves_rules frame)
  show "preserves (\<lambda>w. queue_state.more w = m) (mb_IsBanned (postmoogle X) a)"
    by (simp, intro preserves_rules frame)
  show "preserves (\<lambda>w. queue_state.more w = m) (mb_IsTrusted (postmoogle X) a)"
    by (simp add: IsTrusted_def preserves_rules)
  show "preserves (\<lambda>w. queue_state.more w = m) (mb_BanAuto (postmoogle X) a)"
    by (simp, intro preserves_rules frame)
  show "preserves (\<lambda>w. queue_state.more w = m) (mb_BanAuth (postmoogle X) a)"
    by (simp, intro preserves_rules frame)
  show "preserves (\<lambda>w. queue_state.more w = m) (mb_GetMapping (postmoogle X) mm)"
    by (simp, intro preserves_rules frame)
  show "preserves (\<lambda>w. queue_state.more w = m) (mb_GetIFOptions (postmoogle X) r)"
    by (simp, intro preserves_rules frame)
  show "preserves (\<lambda>w. queue_state.more w = m) (mb_IncomingEmail (postmoogle X) e)"
    by (simp, intro preserves_rules frame)
  show "preserves (\<lambda>w. queue_state.more w = m) (mb_GetDKIMprivkey (postmoogle X))"
    by (simp, intro preserves_rules frame)
  show "preserves (\<lambda>w. queue_state.more w = m) (mb_GetRelayConfig (postmoogle X) r)"
    by (simp, intro preserves_rules frame)
  show "preserves (\<lambda>w. queue_state.more w = m) (mb_now (postmoogle X))"
    by (simp, intro preserves_rules)
  show "preserves (\<lambda>w. queue_state.more w = m) (sendmail f t d rel)"
    by (rule preserves_sendmail [OF frame(1)])
qed

lemma postmoogle_sel [simp]:
  "mb_AllowAuth (postmoogle X) = AllowAuth X" "mb_IsGreylisted (postmoogle X) = IsGreylisted X"
  "mb_IsBanned (postmoogle X) = IsBanned" "mb_IsTrusted (postmoogle X) = IsTrusted"
  "mb_BanAuto (postmoogle X) = BanAuto X" "mb_BanAuth (postmoogle X) = BanAuth X"
  "mb_GetMapping (postmoogle X) = GetMapping" "mb_GetIFOptions (postmoogle X) = GetIFOptions"
  "mb_IncomingEmail (postmoogle X) = IncomingEmail X background"
  "mb_GetDKIMprivkey (postmoogle X) = GetDKIMprivkey"
  "mb_GetRelayConfig (postmoogle X) = GetRelayConfig X" "mb_now (postmoogle X) = readM now_sec"
  by (simp_all add: postmoogle_def)

lemma run_recover421: "m w = (Ret r, w') \<Longrightarrow> recover421 k m w = (Ret r, w')"
  by (simp add: recover421_def)

text \<open>An open connection whose session has not authenticated.\<close>

definition incoming_conn :: "string list \<Rightarrow> conn \<Rightarrow> session \<Rightarrow> bool" where
  "incoming_conn ds k s \<longleftrightarrow>
     \<not> k_closed k \<and> k_session k = Some s \<and> s_dir s \<noteq> Outgoing \<and> s_domains s = ds"

lemma step_MAIL:
  assumes "incoming_conn ds k s" and "AddressValid X a" and "Hostname X a \<notin> set ds"
  shows "conn_handle X S B send ds k (MAIL a) w =
    (Ret (k\<lparr>k_session := Some (s\<lparr>s_from := Address X a\<rparr>), k_fromReceived := True\<rparr>, 250), w)"
  using assms by (simp add: conn_handle_def incoming_conn_def handleMail_def session_Mail_def
      run_simps recover421_def)

lemma step_RCPT_unknown:
  assumes "incoming_conn ds k s" and "k_fromReceived k" and "Hostname X bad \<in> set ds"
    and "bot_ready w bc" and "CatchAll bc = []" and "fmlookup (rooms w) (Mailbox X bad) = None"
  shows "conn_handle X S (postmoogle X) send ds k (RCPT bad) w =
    (Ret (k\<lparr>k_session := Some (s\<lparr>s_tos := s_tos s @ [bad], s_roomID := []\<rparr>)\<rparr>, 550), w)"
  using assms by (simp add: conn_handle_def incoming_conn_def handleRcpt_def session_Rcpt_def
      validateIncomingRcpt_def run_simps recover421_def Let_def ErrNoUser_def writeError_def NoUserCode_def)

lemma step_RCPT_known:
  assumes "incoming_conn ds k s" and "k_fromReceived k" and "Hostname X good \<in> set ds"
    and "bot_ready w bc" and "fmlookup (rooms w) (Mailbox X good) = Some r"
    and "room_cfg w r = Some cfg" and "\<not> Room_SpamcheckRBL cfg"
  shows "conn_handle X S (postmoogle X) send ds k (RCPT good) w =
    (Ret (k\<lparr>k_session := Some (s\<lparr>s_tos := s_tos s @ [good], s_roomID := r\<rparr>),
           k_recipients := k_recipients k @ [good]\<rparr>, 250), w)"
  using assms by (simp add: conn_handle_def incoming_conn_def handleRcpt_def session_Rcpt_def
      validateIncomingRcpt_def GetIFOptions_def run_simps recover421_def Let_def)

lemma step_DATA_unknown:
  assumes k: "incoming_conn ds k s" "k_fromReceived k" "k_recipients k \<noteq> []"
    and s: "s_tos s = bad # rest"
    and w: "bot_ready w bc" "CatchAll bc = []" "Greylist bc = 0" "fmlookup (rooms w) (Mailbox X bad) = None"
    and room: "room_cfg w (s_roomID s) = Some cfg" "\<not> Room_SpamcheckDKIM cfg"
    and env: "sx_envelope S d = Inr env" "AddrIP (s_addr s) \<notin> set (proxies w)"
    and valid: "validateIncoming S (s_from s) (env_header env ''Return-Path'') (s_addr s) cfg"
  shows "conn_handle X S (postmoogle X) send ds k (DATA d) w = (Ret (conn_reset k, 554), w)"
proof -
  have loop: "deliver_incoming X (postmoogle X) s env w = (Ret (Some (OtherError ErrNoRoom)), w)"
    using s w by (simp add: deliver_incoming_def run_simps IncomingEmail_def email_Mailbox_def)
  have "incomingData X S (postmoogle X) s d w = (Ret (Some (OtherError ErrNoRoom)), w)"
    using w room env valid loop
    by (simp add: incomingData_def getAddr_def IsTrusted_def GetIFOptions_def greylist_off run_simps)
  then show ?thesis
    using k by (simp add: conn_handle_def incoming_conn_def handleData_def session_Data_def run_simps
        recover421_def writeError_def)
qed

section \<open>Properties\<close>

text \<open>
  What the server takes from elsewhere, for the witnesses: every message parses to one header
  field From, no signatures, every sender valid, no blocklist has an entry.
\<close>

definition demo_env :: envelope where
  "demo_env =
     \<lparr>env_header = (\<lambda>h. if h = ''From'' then ''eve@example.org'' else if h = ''Subject'' then ''hi'' else []),
      env_date = None, env_Text = ''hello'', env_HTML = [], env_Attachments = [], env_Inlines = []\<rparr>"

definition demo_smtp :: smtp_ext where
  "demo_smtp =
     \<lparr>sx_envelope = (\<lambda>_. Inr demo_env), sx_dkimverify = (\<lambda>_. Inr []), sx_validate = (\<lambda>_ _ _ _. True),
      sx_ParseIP = (\<lambda>_. None), sx_IPString = (\<lambda>_. []), sx_LookupHost = (\<lambda>_. HostNotFound),
      sx_LookupTXT = (\<lambda>_. []), sx_order = id\<rparr>"

abbreviation demo_server :: bot_state where
  "demo_server \<equiv> bot_demo fmempty [(''!r'', fmempty)] [(''bob'', ''!r'')]"

abbreviation demo_conn :: conn where
  "demo_conn \<equiv> newConn ''192.0.2.7:25'' True"

lemma step_EHLO:
  assumes "\<not> k_closed k" and "k_session k = None" and "bot_ready w bc"
  shows "conn_handle X S (postmoogle X) send ds k EHLO w =
    (Ret (k\<lparr>k_session := Some \<lparr>s_addr = k_addr k, s_domains = ds, s_dir = [], s_tos = [], s_from = [],
       s_roomID = [], s_privkey = DKIMPrivateKey bc, s_fromRoom = []\<rparr>\<rparr>, 250), w)"
  using assms by (simp add: conn_handle_def handleGreet_def NewSession_def GetDKIMprivkey_def run_simps
      recover421_def)



text \<open>
  C21: whatever a client sends, also authenticated, an SMTP connection does not change the fields
  of the bot: mailboxes, allowed users and administrators, domains and admin rooms stay.
\<close>

theorem dialogue_keeps_bot:
  fixes w :: "'a bot_state_scheme"
  shows "rooms (snd (dialogue X S (postmoogle X) sendmail ds k cs w)) = rooms w \<and>
   allowedUsers (snd (dialogue X S (postmoogle X) sendmail ds k cs w)) = allowedUsers w \<and>
   allowedAdmins (snd (dialogue X S (postmoogle X) sendmail ds k cs w)) = allowedAdmins w \<and>
   adminRooms (snd (dialogue X S (postmoogle X) sendmail ds k cs w)) = adminRooms w \<and>
   domains (snd (dialogue X S (postmoogle X) sendmail ds k cs w)) = domains w"
proof -
  let ?w' = "snd (dialogue X S (postmoogle X) sendmail ds k cs w)"
  have "queue_state.more ?w' = queue_state.more w"
    by (rule preservesD [OF pm.keeps_dialogue]) simp
  then show ?thesis by (cases w; cases ?w') simp
qed



definition demo_session :: session where
  "demo_session =
     \<lparr>s_addr = ''192.0.2.7:25'', s_domains = [''example.com''], s_dir = [], s_tos = [''bob@example.com''],
      s_from = ''eve@example.org'', s_roomID = ''!r'', s_privkey = [], s_fromRoom = []\<rparr>"


text \<open>
  C27: one refused recipient spoils a message. An incoming session keeps a recipient it has
  answered with 550; when a later recipient is accepted, the client's DATA is refused with 554
  and nothing is delivered, to no recipient.
\<close>

theorem refused_recipient_fails_data:
  assumes w: "bot_ready w bc" "CatchAll bc = []" "Greylist bc = 0"
    and addr: "AddrIP addr \<notin> set (proxies w)"
    and sender: "AddressValid X sender" "Hostname X sender \<notin> set ds"
    and bad: "Hostname X bad \<in> set ds" "fmlookup (rooms w) (Mailbox X bad) = None"
    and good: "Hostname X good \<in> set ds" "fmlookup (rooms w) (Mailbox X good) = Some r"
    and room: "room_cfg w r = Some cfg" "\<not> Room_SpamcheckRBL cfg" "\<not> Room_SpamcheckDKIM cfg"
    and data: "sx_envelope S d = Inr env"
      "validateIncoming S (Address X sender) (env_header env ''Return-Path'') addr cfg"
  shows "\<exists>k. dialogue X S (postmoogle X) send ds (newConn addr secure)
      [EHLO, MAIL sender, RCPT bad, RCPT good, DATA d] w = (Ret (k, [250, 250, 550, 250, 554]), w)"
proof -
  let ?s = "\<lparr>s_addr = addr, s_domains = ds, s_dir = [], s_tos = [], s_from = [],
       s_roomID = [], s_privkey = DKIMPrivateKey bc, s_fromRoom = []\<rparr>"
  let ?s1 = "?s\<lparr>s_from := Address X sender\<rparr>"
  let ?s2 = "?s1\<lparr>s_tos := [bad], s_roomID := []\<rparr>"
  let ?s3 = "?s2\<lparr>s_tos := [bad, good], s_roomID := r\<rparr>"
  let ?k0 = "(newConn addr secure)\<lparr>k_session := Some ?s\<rparr>"
  let ?k1 = "?k0\<lparr>k_session := Some ?s1, k_fromReceived := True\<rparr>"
  let ?k2 = "?k1\<lparr>k_session := Some ?s2\<rparr>"
  let ?k3 = "?k2\<lparr>k_session := Some ?s3, k_recipients := [good]\<rparr>"
  note [simp] = newConn_def incoming_conn_def
  have 0: "conn_handle X S (postmoogle X) send ds (newConn addr secure) EHLO w = (Ret (?k0, 250), w)"
    using step_EHLO [of "newConn addr secure" w bc X S send ds] w by simp
  have 1: "conn_handle X S (postmoogle X) send ds ?k0 (MAIL sender) w = (Ret (?k1, 250), w)"
    using step_MAIL [of ds ?k0 ?s X sender S "postmoogle X" send w] sender by simp
  have 2: "conn_handle X S (postmoogle X) send ds ?k1 (RCPT bad) w = (Ret (?k2, 550), w)"
    using step_RCPT_unknown [of ds ?k1 ?s1 X bad w bc S send] w bad by simp
  have 3: "conn_handle X S (postmoogle X) send ds ?k2 (RCPT good) w = (Ret (?k3, 250), w)"
    using step_RCPT_known [of ds ?k2 ?s2 X good w bc r cfg S send] w good room by simp
  have 4: "conn_handle X S (postmoogle X) send ds ?k3 (DATA d) w = (Ret (conn_reset ?k3, 554), w)"
    using step_DATA_unknown [of ds ?k3 ?s3 bad "[good]" w bc X cfg S d env send] w bad room data addr by simp
  show ?thesis by (simp only: dialogue.simps) (simp only: run_simps 0 1 2 3 4 prod.case, blast)
qed

theorem refused_recipient_fails_data_witness:
  "\<exists>k. dialogue demo_ext demo_smtp (postmoogle demo_ext) sendmail [''example.com''] demo_conn
      [EHLO, MAIL ''eve@example.org'', RCPT ''no@example.com'', RCPT ''bob@example.com'', DATA ''d''] demo_server =
      (Ret (k, [250, 250, 550, 250, 554]), demo_server)"
proof -
  have addr: "AddrIP ''192.0.2.7:25'' \<notin> set (proxies demo_server)"
    "AddressValid demo_ext ''eve@example.org''" "Hostname demo_ext ''eve@example.org'' \<notin> set [''example.com'']"
    "Hostname demo_ext ''no@example.com'' \<in> set [''example.com'']"
    "fmlookup (rooms demo_server) (Mailbox demo_ext ''no@example.com'') = None"
    "Hostname demo_ext ''bob@example.com'' \<in> set [''example.com'']"
    "fmlookup (rooms demo_server) (Mailbox demo_ext ''bob@example.com'') = Some ''!r''"
    by code_simp+
  have cfg: "room_cfg demo_server ''!r'' = Some fmempty" "\<not> Room_SpamcheckRBL fmempty"
    "\<not> Room_SpamcheckDKIM fmempty" "CatchAll (fmupd BotDKIMPrivateKey ''pem'' fmempty) = []"
    "Greylist (fmupd BotDKIMPrivateKey ''pem'' fmempty) = 0"
    by (simp, code_simp+)
  have data: "sx_envelope demo_smtp d = Inr demo_env" "validateIncoming demo_smtp f rp a opts" for d f rp a opts
    by (simp_all add: demo_smtp_def validateIncoming_def Let_def)
  show ?thesis
    by (rule refused_recipient_fails_data [OF bot_demo_ready cfg(4,5) addr cfg(1-3) data])
qed

end
