(* ===== verification/System.thy ===== *)
theory System
  imports Setup Delivery Smtp_Conn
begin

text \<open>
  The whole program: Matrix events, SMTP connections and the cron jobs act on one state, in any
  order. A handler of a Matrix event that panics ends the program, a panic in an SMTP handler or in a
  cron job does not. The theory extends the contract of a room by what SMTP connections and cron
  jobs need, and interprets it for the settings that belong to the server.
\<close>

section \<open>Steps of the program\<close>

datatype sys_input =
    Matrix mxinput
  | Smtp netaddr bool "smtp_cmd list"
  | Cron cron_job

inductive sys_step :: "externals \<Rightarrow> smtp_ext \<Rightarrow> sys_input \<Rightarrow> 'a bot_state_scheme \<Rightarrow> 'a bot_state_scheme \<Rightarrow> bool"
  for X S where
  matrix: "on_event X inp w = (Ret (), w') \<Longrightarrow> sys_step X S (Matrix inp) w w'"
| smtp: "dialogue X S (postmoogle X) sendmail (domains w) (newConn addr secure) cmds w = (r, w') \<Longrightarrow>
    sys_step X S (Smtp addr secure cmds) w w'"
| cron: "run_job X job w = (r, w') \<Longrightarrow> sys_step X S (Cron job) w w'"

inductive sys_run :: "externals \<Rightarrow> smtp_ext \<Rightarrow> sys_input list \<Rightarrow> 'a bot_state_scheme \<Rightarrow> 'a bot_state_scheme \<Rightarrow> bool"
  for X S where
  nothing: "sys_run X S [] w w"
| more: "sys_step X S inp w w1 \<Longrightarrow> sys_run X S inps w1 w2 \<Longrightarrow> sys_run X S (inp # inps) w w2"

section \<open>The contract of SMTP and cron\<close>

locale system_contract = room_contract I R for I :: "'a bot_state_scheme \<Rightarrow> bool" and R +
  assumes keeps_user_Get: "k \<in> {acBanlistKey, acGreylistKey} \<Longrightarrow> preserves I (GetAccountData (UserData k))"
    and keeps_user_Set: "k \<in> {acBanlistKey, acGreylistKey} \<Longrightarrow> preserves I (SetAccountData (UserData k) m)"
    and keeps_user_alias: "k \<in> {acBanlistKey, acGreylistKey} \<Longrightarrow> preserves I (alias_write (UserData k) m)"
    and keeps_Process: "preserves I (queue_Process X order)"
    and keeps_adminRooms: "preserves I (modifyM (\<lambda>w. w\<lparr>adminRooms := ars\<rparr>))"
    and none_reserved: "R = {}"
begin

lemma keeps_SendFile: "preserves I (SendFile room f rel)"
  unfolding SendFile_def by (intro preserves_struct rooms)

lemma keeps_sendFiles: "preserves I (sendFiles X c r fs n p)"
  unfolding sendFiles_def by (intro preserves_struct rooms keeps_SendFile keeps_Error)

lemma keeps_sendAutoreply: "preserves I (sendAutoreply X c r t)"
  unfolding sendAutoreply_def by (intro preserves_struct rooms keeps_getParentEmail keeps_deliver_loop)

lemma keeps_incoming_rest: "preserves I (incoming_rest X c r cfg eml n t)"
  unfolding incoming_rest_def by (intro preserves_struct rooms keeps_sendFiles keeps_sendAutoreply)

lemma keeps_GetMapping: "preserves I (GetMapping m)"
  unfolding GetMapping_def getMapping_def by (intro preserves_struct rooms)

lemma keeps_IncomingEmail: "preserves I (IncomingEmail X c eml)"
  unfolding IncomingEmail_def incoming_thread_def incoming_send_def
  by (intro preserves_struct rooms keeps_GetMapping keeps_Error keeps_getThreadID keeps_threads keeps_incoming_rest)

lemma keeps_AllowAuth: "preserves I (AllowAuth X u p)"
  unfolding AllowAuth_def getMapping_def by (intro preserves_struct rooms)

lemma keeps_lists:
  "preserves I (IsGreylisted X a)" "preserves I (IsBanned a)" "preserves I (BanAuto X a)" "preserves I (BanAuth X a)"
  unfolding IsGreylisted_def IsBanned_def BanAuto_def BanAuth_def ban_now_def IsTrusted_def GetBanlist_def
    SetBanlist_def GetGreylist_def SetGreylist_def
  by (intro preserves_struct rooms keeps_user_Get keeps_user_Set keeps_user_alias; simp)+

lemma keeps_getters:
  "preserves I GetDKIMprivkey" "preserves I (GetRelayConfig X r)" "preserves I (GetIFOptions r)"
  unfolding GetDKIMprivkey_def GetRelayConfig_def GetIFOptions_def by (intro preserves_struct rooms)+

sublocale conn: mail_contract "postmoogle X" I sendmail for X
  by unfold_locales
    (simp_all add: keeps_lists keeps_getters keeps_AllowAuth keeps_GetMapping keeps_IncomingEmail
      keeps_sendmail IsTrusted_def preserves_readM)

lemma keeps_addRoom: "preserves I (addRoom r cfg)"
  unfolding addRoom_def by (intro preserves_struct keeps_Store) (simp_all add: none_reserved)

lemma keeps_migrate: "preserves I (migrateRoomSettings r)"
  unfolding migrateRoomSettings_def by (intro preserves_struct rooms)

lemma keeps_syncRooms_loop: "preserves I (syncRooms_loop ars ids)"
  by (induction ids arbitrary: ars)
    (auto intro!: preserves_struct rooms keeps_migrate keeps_addRoom keeps_allow)

lemma keeps_job: "preserves I (run_job X job)"
  unfolding run_job_def SyncRooms_def syncRooms_def
  by (cases job) (auto intro!: preserves_struct rooms keeps_Process keeps_syncRooms_loop keeps_adminRooms)

lemma keeps_step:
  assumes "sys_step X S inp w w'" and "I w"
    and "\<And>e. inp = Matrix e \<Longrightarrow> preserves I (on_event X e)"
  shows "I w'"
  using assms
  by (cases rule: sys_step.cases)
    (auto dest: preservesD_run [OF conn.keeps_dialogue] preservesD_run [OF keeps_job] preservesD_run)

end


section \<open>The options of the server\<close>

text \<open>
  The options of the bot as they are read, a queue whose index names its items, and the fields that
  say who may do what.
\<close>

definition core :: "gomap \<Rightarrow> 'a bot_state_scheme \<Rightarrow> bool" where
  "core bc w \<longleftrightarrow> bot_ready w bc \<and> queue_wf w"

definition policy :: "'a bot_state_scheme \<Rightarrow> mxpattern list \<times> mxpattern list \<times> string list \<times> string list \<times> mbxconfig" where
  "policy w = (allowedUsers w, allowedAdmins w, proxies w, domains w, mbxc w)"

definition options_kept :: "gomap \<Rightarrow> 'a bot_state_scheme \<Rightarrow> 'a bot_state_scheme \<Rightarrow> bool" where
  "options_kept bc w0 w \<longleftrightarrow> core bc w \<and> policy w = policy w0"

lemma options_keptI: "preserves (core bc) m \<Longrightarrow> preserves (\<lambda>w. policy w = policy w0) m \<Longrightarrow> preserves (options_kept bc w0) m"
  by (simp add: preserves_def options_kept_def)

lemma policy_frame: "lp_frame (\<lambda>w. policy w = p)"
  unfolding policy_def by (rule lp_frame_bot [of "\<lambda>_ u a x d m. (u, a, x, d, m) = p"])

lemma policy_bot_frame: "bot_frame (\<lambda>w. policy w = p)"
proof -
  have "policy w = policy w'" if "queue_state.more w = queue_state.more w'" for w w' :: "'a bot_state_scheme"
    using that by (cases w; cases w') (simp add: policy_def)
  then show ?thesis unfolding bot_frame_def by metis
qed

lemma core_same: "core bc w \<Longrightarrow> acc w' = acc w \<Longrightarrow> core bc w'"
  by (simp add: core_def bot_ready_def queue_wf_def)

lemma core_upd:
  "core bc w \<Longrightarrow> acc w' = fmupd k m (acc w) \<Longrightarrow> k \<notin> UserData ` {acBotKey, acQueueKey} \<Longrightarrow> core bc w'"
  by (auto simp: core_def bot_ready_def queue_wf_def)

lemma core_frame: "(\<And>w. acc (snd (m w)) = acc w) \<Longrightarrow> preserves (core bc) m"
  by (rule preservesI) (rule core_same)

lemma core_account_data:
  assumes "k \<notin> UserData ` {acBotKey, acQueueKey}"
  shows "preserves (core bc) (GetAccountData k)" "preserves (core bc) (SetAccountData k m)"
    "preserves (core bc) (alias_write k m)"
proof -
  show "preserves (core bc) (GetAccountData k)"
    by (rule preservesI)
      (auto simp: GetAccountData_def cache_put_def api_call_def bindM_def thenM_def readM_def modifyM_def
        returnM_def split: option.split intro: core_same core_upd [OF _ _ assms])
  show "preserves (core bc) (SetAccountData k m)"
    by (rule preservesI) (auto simp: run_SetAccountData intro: core_upd [OF _ _ assms])
  show "preserves (core bc) (alias_write k m)"
    by (rule preservesI) (auto simp: alias_write_def modifyM_def intro: core_upd [OF _ _ assms])
qed

lemma core_GetBot: "preserves (core bc) GetBot"
  by (rule preservesI) (metis core_def run_GetBot_ready snd_conv)

lemma core_sendmail: "preserves (core bc) (sendmail f t d r)"
  by (rule core_frame) (simp add: sendmail_def Let_def split: option.split)

lemma core_queue_Add: "preserves (core bc) (queue_Add i f t d r)"
proof (rule preservesI)
  fix w :: "'a bot_state_scheme"
  assume w: "core bc w"
  then have wf: "queue_wf w" "queue_wf (snd (queue_Add i f t d r w))"
    by (simp_all add: core_def postqueue.add_wf)
  have "bot_cfg (snd (queue_Add i f t d r w)) = bot_cfg w"
    using wf(1) by (rule acc_queue_Add [of w i f t d r]) simp_all
  then show "core bc (snd (queue_Add i f t d r w))" using w wf(2) by (simp add: core_def bot_ready_def)
qed

lemma core_queue_Remove: "preserves (core bc) (queue_Remove i)"
proof (rule preservesI)
  fix w :: "'a bot_state_scheme"
  assume w: "core bc w"
  then have wf: "queue_wf w" "queue_wf (snd (queue_Remove i w))"
    by (simp_all add: core_def postqueue.remove_wf)
  have "bot_cfg (snd (queue_Remove i w)) = bot_cfg w"
    using wf(1) by (rule acc_queue_Remove [of w i]) auto
  then show "core bc (snd (queue_Remove i w))" using w wf(2) by (simp add: core_def bot_ready_def)
qed

lemma core_try: "k \<notin> {acBotKey, acQueueKey} \<Longrightarrow> preserves (core bc) (queue_try X k m)"
  unfolding queue_try_def by (intro preserves_struct core_account_data core_sendmail) auto

lemma core_loop:
  "\<forall>i \<in> set ids. goget index i \<notin> {acBotKey, acQueueKey} \<Longrightarrow> preserves (core bc) (process_loop X b m index n ids)"
  by (induction ids arbitrary: n) (auto intro!: preserves_struct core_try core_queue_Remove)

lemma core_Process: "preserves (core bc) (queue_Process X order)"
proof (rule preservesI)
  fix w :: "'a bot_state_scheme"
  assume w: "core bc w"
  then obtain index where index: "queue_index w = Some index"
    and keys: "\<And>i k. fmlookup index i = Some k \<Longrightarrow> k = item_key i"
    by (auto simp: core_def queue_wf_def)
  have "\<forall>i. goget index i \<notin> {acBotKey, acQueueKey}"
    by (auto simp: goget_def split: option.split dest: keys)
  then have "preserves (core bc) (process_loop X (batch_of bc) (retries_of bc) index 0 (order (sorted_list_of_fset (fmdom index))))"
    by (intro core_loop) blast
  then have "core bc (snd (process_loop X (batch_of bc) (retries_of bc) index 0
      (order (sorted_list_of_fset (fmdom index))) w))" using w by (rule preservesD)
  moreover have "queue_Process X order w =
      process_loop X (batch_of bc) (retries_of bc) index 0 (order (sorted_list_of_fset (fmdom index))) w"
    using w index by (intro queue_Process_run) (auto simp: core_def run_simps)
  ultimately show "core bc (snd (queue_Process X order w))" by (simp only:)
qed

lemma policy_Process: "preserves (\<lambda>w. policy w = p) (queue_Process X order)"
proof -
  have "preserves (\<lambda>w. policy w = p) (process_loop X b m index n ids)" for b m index n ids
    by (induction ids arbitrary: n)
      (auto simp: queue_try_def queue_Remove_def
        intro!: preserves_rules policy_frame preserves_sendmail policy_bot_frame)
  then show ?thesis unfolding queue_Process_def by (intro preserves_rules policy_frame)
qed

lemma options_account_data:
  assumes "k \<notin> UserData ` {acBotKey, acQueueKey}"
  shows "preserves (options_kept bc w0) (GetAccountData k)" "preserves (options_kept bc w0) (SetAccountData k m)"
    "preserves (options_kept bc w0) (alias_write k m)"
  by (rule options_keptI, rule core_account_data [OF assms], intro preserves_rules policy_frame)+

lemma options_frame:
  "(\<And>w. acc (snd (m w)) = acc w \<and> policy (snd (m w)) = policy w) \<Longrightarrow> preserves (options_kept bc w0) m"
  by (rule preservesI) (metis core_same options_kept_def)

interpretation options: system_contract "options_kept bc w0" "{}" for bc and w0 :: "'a bot_state_scheme"
proof
  fix k key room :: string and m :: gomap and X order i f t d r u and ars :: "string list"
  show "preserves (options_kept bc w0) (queue_Process X order)"
    by (intro options_keptI core_Process policy_Process)
  show "preserves (options_kept bc w0) GetBot" "preserves (options_kept bc w0) (queue_Add i f t d r)"
    by (rule options_keptI, intro core_GetBot core_queue_Add, intro preserves_rules policy_frame)+
  show "preserves (options_kept bc w0) (sendmail f t d u)"
    by (intro options_keptI core_sendmail preserves_sendmail policy_bot_frame)
  show "preserves (options_kept bc w0) (GetAccountData (RoomData room key))"
    "preserves (options_kept bc w0) (SetAccountData (RoomData room key) m)"
    "preserves (options_kept bc w0) (alias_write (RoomData room key) m)"
    by (rule options_account_data, force)+
  assume "k \<in> {acBanlistKey, acGreylistKey}"
  then have "UserData k \<notin> UserData ` {acBotKey, acQueueKey}" by auto
  then show "preserves (options_kept bc w0) (GetAccountData (UserData k))"
    "preserves (options_kept bc w0) (SetAccountData (UserData k) m)"
    "preserves (options_kept bc w0) (alias_write (UserData k) m)"
    by (rule options_account_data)+
qed (auto intro!: options_frame
    simp: api_call_def rooms_Delete_def rooms_Store_def modifyM_def policy_def lp_Send_def bindM_def thenM_def
      readM_def returnM_def split: option.split)

section \<open>Properties\<close>

lemma options_event:
  assumes "core bc w0" and "\<not> Match (input_sender inp) (allowedAdmins w0)"
  shows "preserves (options_kept bc w0) (on_event X inp)"
proof (cases inp)
  case (InMessage evt)
  have "preserves (options_kept bc w0) (run_command X c evt s command)"
    if get: "commandList_get initCommands (hd s) = Some command" for c s command
  proof (cases "cmd_allowed command = AllowAdmin")
    case True
    have "run_allowed X (cmd_allowed command) (e_sender evt) (e_room evt) w = (Ret False, w)"
      if "options_kept bc w0 w" for w
      using that assms(2) True InMessage by (simp add: options_kept_def policy_def run_allowAdmin)
    then have refused: "preserves (options_kept bc w0)
        (bindM (run_allowed X (cmd_allowed command) (e_sender evt) (e_room evt)) (\<lambda>ok.
          if \<not> ok then SendNotice X (e_room evt) ''not allowed to do that, kupo'' None
          else dispatch X c evt s (hd s)))"
      by (rule preserves_bind_known) (simp_all add: options.keeps_SendNotice)
    have "preserves (options_kept bc w0) typing" unfolding typing_def by (intro preserves_struct options.rooms)
    then show ?thesis unfolding run_command_def by (intro preserves_thenM preserves_deferM refused)
  next
    case False
    then show ?thesis
      unfolding run_command_def typing_def dispatch_non_admin [OF get False]
      by (intro preserves_struct options.rooms options.keeps_run_allowed options.keeps_dispatch_room)
  qed
  then have "preserves (options_kept bc w0) (handle X c evt)" for c by (rule options.keeps_handle)
  then show ?thesis using InMessage by (auto simp: onMessage_def intro!: preserves_struct)
qed (simp_all add: options.keeps_membership options.keeps_reaction)

text \<open>
  C2: the whole program protects its settings. Whatever sequence of Matrix events, SMTP connections
  and cron jobs runs, as long as no event comes from an administrator: the options of the bot stay as
  they were, and so do the allowed users, the administrators, the trusted proxies, the domains and
  the reserved mailboxes; and the queue stays well-formed.
\<close>

theorem system_keeps_options:
  assumes "sys_run X S inputs w w'" and "bot_ready w bc" and "queue_wf w"
    and "\<forall>inp. Matrix inp \<in> set inputs \<longrightarrow> \<not> Match (input_sender inp) (allowedAdmins w)"
  shows "bot_ready w' bc \<and> policy w' = policy w \<and> queue_wf w'"
proof -
  have "options_kept bc w w'" if "sys_run X S inputs w1 w'" "options_kept bc w w1" for w1
    using that assms(4)
  proof (induction rule: sys_run.induct)
    case (more inp w1 w2 inps w3)
    have "options_kept bc w w2"
      by (rule options.keeps_step [OF more(1,4)], rule options_event)
        (use assms(2,3) more.prems in \<open>auto simp: core_def\<close>)
    then show ?case using more by simp
  qed
  then have "options_kept bc w w'" using assms(1-3) by (simp add: options_kept_def core_def)
  then show ?thesis by (simp add: options_kept_def core_def)
qed


theorem system_keeps_options_witness:
  "\<exists>w'. sys_run demo_ext demo_smtp [Matrix (demo_message ''@eve:example.com'' ''!pm banlist true''),
       Smtp ''192.0.2.7:25'' True [EHLO, MAIL ''nobody''], Cron JobSyncRooms] demo_server w' \<and>
     policy w' = policy demo_server"
proof -
  let ?inp = "demo_message ''@eve:example.com'' ''!pm banlist true''"
  obtain r1 w1 where e: "on_event demo_ext ?inp demo_server = (r1, w1)" by fastforce
  have "fst (on_event demo_ext ?inp demo_server) = Ret ()" by code_simp
  then have w1: "sys_step demo_ext demo_smtp (Matrix ?inp) demo_server w1" using e by (auto intro: sys_step.matrix)
  obtain r2 w2 where "dialogue demo_ext demo_smtp (postmoogle demo_ext) sendmail (domains w1) (newConn ''192.0.2.7:25'' True)
      [EHLO, MAIL ''nobody''] w1 = (r2, w2)" by fastforce
  then have w2: "sys_step demo_ext demo_smtp (Smtp ''192.0.2.7:25'' True [EHLO, MAIL ''nobody'']) w1 w2" by (rule sys_step.smtp)
  obtain r3 w3 where "run_job demo_ext JobSyncRooms w2 = (r3, w3)" by fastforce
  then have w3: "sys_step demo_ext demo_smtp (Cron JobSyncRooms) w2 w3" by (rule sys_step.cron)
  have run: "sys_run demo_ext demo_smtp [Matrix ?inp, Smtp ''192.0.2.7:25'' True [EHLO, MAIL ''nobody''], Cron JobSyncRooms]
      demo_server w3"
    by (intro sys_run.more [OF w1] sys_run.more [OF w2] sys_run.more [OF w3] sys_run.nothing)
  have "\<not> Match ''@eve:example.com'' [''@root:example.com'']" by code_simp
  then show ?thesis
    using run system_keeps_options [OF run bot_demo_ready] by (auto simp: queue_wf_def demo_message_def)
qed

end
