(* ===== verification/Lifecycle.thy ===== *)
theory Lifecycle
  imports Setup
begin

text \<open>
  The life of the process (cmd/postmoogle/main.go) and of the SMTP manager's goroutines
  (internal/smtp/manager.go): one goroutine per port, the main goroutine that waits for the first
  error of a port, the goroutine that waits for a signal and shuts the program down, the bot. They
  share the channel of errors, which holds one value, and the closed flag of the server; with a health
  check there is its goroutine, too. A step is what
  one goroutine does between two points where another can run; a panic that nobody recovers from, in
  any goroutine, ends the process.

  Of the library the model takes what its code does: \<open>Serve\<close> returns when \<open>Accept\<close> fails, with no
  error after the server was closed; closing the server closes its listeners. The main goroutine
  never panics once its deferred \<open>recovery\<close> is set, as it only waits.
\<close>

section \<open>State\<close>

datatype status = Running | Exited nat | Crashed string

text \<open>
  A goroutine in \<open>listen\<close>: the port is not open yet; it is served, with the done flag of the
  listener; an error has to be sent, after which the channel is closed or not; it has returned.
\<close>

datatype listen_pc = Opening | Serving bool | Failing string bool | Ended

text \<open>
  The calls of \<open>shutdown\<close>, in its order; \<open>hc\<close> says whether health checks are configured. \<open>recovery\<close>
  reports a panic and then shuts down as well; the main goroutine, which defers it, has none to recover.
\<close>

datatype stop_op =
    CronShutdown
  | WatcherStop
  | ServerClose
  | BotStop
  | HcShutdown
  | HcExitStatus nat string
  | SentryRecover string
  | SentryFlush
  | OsExit nat

definition shutdown_ops :: "bool \<Rightarrow> stop_op list" where
  "shutdown_ops hc =
     [CronShutdown, WatcherStop, ServerClose, BotStop] @ 
     (if hc then [HcShutdown, HcExitStatus 0 ''shutting down postmoogle''] else []) @
     [SentryFlush, OsExit 0]"

definition recovery_ops :: "bool \<Rightarrow> string option \<Rightarrow> stop_op list" where
  "recovery_ops hc panic =
     (case panic of
        None \<Rightarrow> []
      | Some e \<Rightarrow> (if hc then [HcExitStatus 1 (''panic: '' @ e)] else []) @ [SentryRecover e]) @
     shutdown_ops hc"

record process =
  p_status :: status
  p_listens :: "listen_pc list"
  p_errs :: "string list"
  p_errsClosed :: bool
  p_serverClosed :: bool
  p_watcher :: bool
  p_hc :: "hc_client option"
  p_ticker :: "int option"
  p_signal :: "stop_op list option"
  p_stopped :: "stop_op list"

text \<open>
  The state after the initialisation: \<open>Start\<close> has begun to listen, on the TLS port too when there are
  certificates, and with a health check its goroutine is about to begin. \<open>main_init\<close> is the way there from the environment, as far as the SMTP side goes.
\<close>

definition started :: "'c manager \<Rightarrow> (hc_client \<times> int) option \<Rightarrow> process" where
  "started m hc =
     \<lparr>p_status = Running, p_listens = Opening # (if t_Config (m_tls m) \<noteq> None then [Opening] else []), p_errs = [],
      p_errsClosed = False, p_serverClosed = False, p_watcher = m_fsw m, p_hc = map_option fst hc,
      p_ticker = map_option snd hc, p_signal = None, p_stopped = []\<rparr>"

definition main_init :: "'c loader \<Rightarrow> (string list \<Rightarrow> bool) \<Rightarrow> env \<Rightarrow> process res" where
  "main_init load watch env =
     (let cfg = config_New env in
      case NewManager load watch (initSMTP cfg) of
        Panic e \<Rightarrow> Panic e
      | Ret m \<Rightarrow> Ret (started m (initHealthchecks cfg)))"

section \<open>Steps\<close>

text \<open>Closing the server: a second time nothing happens; the listeners it serves are closed.\<close>

definition close_listener :: "listen_pc \<Rightarrow> listen_pc" where
  "close_listener pc = (case pc of Serving _ \<Rightarrow> Serving True | _ \<Rightarrow> pc)"

fun stop_step :: "stop_op \<Rightarrow> process \<Rightarrow> process res" where
  "stop_step WatcherStop p = (if p_watcher p then Ret p else Panic ''nil pointer dereference'')"
| "stop_step ServerClose p =
     Ret (if p_serverClosed p then p
          else p\<lparr>p_serverClosed := True, p_listens := map close_listener (p_listens p)\<rparr>)"
| "stop_step HcShutdown p = Ret (p\<lparr>p_hc := map_option hc_Shutdown (p_hc p)\<rparr>)"
| "stop_step (HcExitStatus n body) p = Ret (p\<lparr>p_hc := map_option (hc_ExitStatus (show_nat n) body) (p_hc p)\<rparr>)"
| "stop_step (OsExit n) p = Ret (p\<lparr>p_status := Exited n\<rparr>)"
| "stop_step _ p = Ret p"

fun run_stops :: "stop_op list \<Rightarrow> process \<Rightarrow> process res" where
  "run_stops [] p = Ret p"
| "run_stops (a # ops) p = (case stop_step a p of Ret q \<Rightarrow> run_stops ops q | Panic e \<Rightarrow> Panic e)"

text \<open>\<open>listen\<close>, for one of the ports. The channel of errors holds one value; a send on it waits for room.\<close>

inductive listen_step :: "process \<Rightarrow> process \<Rightarrow> bool" where
  opens: "i < length (p_listens p) \<Longrightarrow> p_listens p ! i = Opening \<Longrightarrow>
    listen_step p (p\<lparr>p_listens := (p_listens p)[i := Serving False]\<rparr>)"
| port_fails: "i < length (p_listens p) \<Longrightarrow> p_listens p ! i = Opening \<Longrightarrow>
    listen_step p (p\<lparr>p_listens := (p_listens p)[i := Failing e False]\<rparr>)"
| serve_ends: "i < length (p_listens p) \<Longrightarrow> p_listens p ! i = Serving True \<Longrightarrow>
    listen_step p (p\<lparr>p_listens := (p_listens p)[i := if p_serverClosed p then Ended else Failing e True]\<rparr>)"
| sends: "i < length (p_listens p) \<Longrightarrow> p_listens p ! i = Failing e c \<Longrightarrow> \<not> p_errsClosed p \<Longrightarrow> p_errs p = [] \<Longrightarrow>
    listen_step p (p\<lparr>p_listens := (p_listens p)[i := Ended], p_errs := [e], p_errsClosed := c\<rparr>)"
| sends_closed: "i < length (p_listens p) \<Longrightarrow> p_listens p ! i = Failing e c \<Longrightarrow> p_errsClosed p \<Longrightarrow>
    listen_step p (p\<lparr>p_status := Crashed ''send on closed channel''\<rparr>)"

text \<open>The main goroutine: \<open>Start\<close> returns the first error, and the logger exits the process.\<close>

inductive main_step :: "process \<Rightarrow> process \<Rightarrow> bool" where
  fatal: "p_errs p = e # es \<Longrightarrow> main_step p (p\<lparr>p_errs := es, p_status := Exited 1\<rparr>)"

text \<open>The goroutine of \<open>initShutdown\<close>, which waits for one signal.\<close>

inductive shutdown_step :: "process \<Rightarrow> process \<Rightarrow> bool" where
  signalled: "p_signal p = None \<Longrightarrow> shutdown_step p (p\<lparr>p_signal := Some (shutdown_ops (p_hc p \<noteq> None))\<rparr>)"
| stops: "p_signal p = Some (a # ops) \<Longrightarrow> stop_step a p = Ret q \<Longrightarrow>
    shutdown_step p (q\<lparr>p_signal := Some ops, p_stopped := p_stopped q @ [a]\<rparr>)"
| stop_panics: "p_signal p = Some (a # ops) \<Longrightarrow> stop_step a p = Panic e \<Longrightarrow> shutdown_step p (p\<lparr>p_status := Crashed e\<rparr>)"

text \<open>\<open>faults\<close> are the panics of the bot's goroutine: an error of its start, or a handler that panics.\<close>

inductive bot_step :: "string set \<Rightarrow> process \<Rightarrow> process \<Rightarrow> bool" for faults where
  bot_panics: "e \<in> faults \<Longrightarrow> bot_step faults p (p\<lparr>p_status := Crashed e\<rparr>)"

text \<open>
  The goroutine of the health check, up to its ticker. That it sends a ping at every tick is left out:
  no other goroutine waits for it.
\<close>

inductive ticker_step :: "process \<Rightarrow> process \<Rightarrow> bool" where
  ticks: "p_ticker p = Some every \<Longrightarrow> hc_Auto every () = (Ret (), ()) \<Longrightarrow> ticker_step p (p\<lparr>p_ticker := None\<rparr>)"
| ticker_panics: "p_ticker p = Some every \<Longrightarrow> hc_Auto every () = (Panic e, ()) \<Longrightarrow>
    ticker_step p (p\<lparr>p_status := Crashed e\<rparr>)"

definition life_step :: "string set \<Rightarrow> process \<Rightarrow> process \<Rightarrow> bool" where
  "life_step faults p q \<longleftrightarrow> p_status p = Running \<and>
     (listen_step p q \<or> main_step p q \<or> shutdown_step p q \<or> bot_step faults p q \<or> ticker_step p q)"

lemma life_step_induct [consumes 1, case_names listen fatal signalled stops stop_panics bot_panics ticks ticker_panics]:
  assumes "life_step F p q"
    and "p_status p = Running \<Longrightarrow> listen_step p q \<Longrightarrow> P p q"
    and "\<And>e es. p_status p = Running \<Longrightarrow> p_errs p = e # es \<Longrightarrow> P p (p\<lparr>p_errs := es, p_status := Exited 1\<rparr>)"
    and "p_status p = Running \<Longrightarrow> p_signal p = None \<Longrightarrow> P p (p\<lparr>p_signal := Some (shutdown_ops (p_hc p \<noteq> None))\<rparr>)"
    and "\<And>a ops r. p_status p = Running \<Longrightarrow> p_signal p = Some (a # ops) \<Longrightarrow> stop_step a p = Ret r \<Longrightarrow>
      P p (r\<lparr>p_signal := Some ops, p_stopped := p_stopped r @ [a]\<rparr>)"
    and "\<And>a ops e. p_status p = Running \<Longrightarrow> p_signal p = Some (a # ops) \<Longrightarrow> stop_step a p = Panic e \<Longrightarrow>
      P p (p\<lparr>p_status := Crashed e\<rparr>)"
    and "\<And>e. p_status p = Running \<Longrightarrow> e \<in> F \<Longrightarrow> P p (p\<lparr>p_status := Crashed e\<rparr>)"
    and "\<And>every. p_status p = Running \<Longrightarrow> p_ticker p = Some every \<Longrightarrow> 0 < every \<Longrightarrow> P p (p\<lparr>p_ticker := None\<rparr>)"
    and "\<And>every e. p_status p = Running \<Longrightarrow> p_ticker p = Some every \<Longrightarrow> every \<le> 0 \<Longrightarrow> P p (p\<lparr>p_status := Crashed e\<rparr>)"
  shows "P p q"
  using assms unfolding life_step_def
  by (elim conjE disjE main_step.cases shutdown_step.cases bot_step.cases ticker_step.cases)
    (auto simp: hc_Auto_def run_simps split: if_splits)

lemma life_shutdownI: "p_status p = Running \<Longrightarrow> shutdown_step p q \<Longrightarrow> life_step F p q"
  by (simp add: life_step_def)

section \<open>Lemmas\<close>

text \<open>Every run ends: a step uses up a goroutine's work, or the process.\<close>

definition pc_work :: "listen_pc \<Rightarrow> nat" where
  "pc_work pc = (case pc of Opening \<Rightarrow> 4 | Serving _ \<Rightarrow> 3 | Failing _ _ \<Rightarrow> 2 | Ended \<Rightarrow> 0)"

definition work :: "process \<Rightarrow> nat" where
  "work p =
     (if p_status p = Running then 1 else 0) + sum_list (map pc_work (p_listens p)) +
     (case p_signal p of None \<Rightarrow> Suc (length (shutdown_ops (p_hc p \<noteq> None))) | Some ops \<Rightarrow> length ops) +
     (if p_ticker p = None then 0 else 1)"

lemma pc_work_simps [simp]:
  "pc_work Opening = 4" "pc_work (Serving b) = 3" "pc_work (Failing e c) = 2" "pc_work Ended = 0"
  by (simp_all add: pc_work_def)

lemma work_update:
  "i < length ls \<Longrightarrow> pc_work pc < pc_work (ls ! i) \<Longrightarrow> sum_list (map pc_work (ls[i := pc])) < sum_list (map pc_work ls)"
proof (induction ls arbitrary: i)
  case (Cons l ls)
  then show ?case by (cases i) auto
qed simp

lemma work_close: "pc_work (close_listener pc) = pc_work pc"
  by (simp add: close_listener_def split: listen_pc.split)

lemma stop_step_frame:
  assumes "stop_step a p = Ret q"
  shows "p_signal q = p_signal p \<and> p_stopped q = p_stopped p \<and> p_errs q = p_errs p \<and> p_errsClosed q = p_errsClosed p \<and>
    p_watcher q = p_watcher p \<and> p_ticker q = p_ticker p \<and> (p_hc q = None) = (p_hc p = None) \<and> map pc_work (p_listens q) = map pc_work (p_listens p) \<and>
    p_status q = (case a of OsExit n \<Rightarrow> Exited n | _ \<Rightarrow> p_status p)"
  using assms by (cases a) (auto simp: work_close split: if_splits)

lemma listen_works:
  "listen_step p q \<Longrightarrow> p_status p = Running \<Longrightarrow>
   p_signal q = p_signal p \<and> p_stopped q = p_stopped p \<and> p_hc q = p_hc p \<and> p_ticker q = p_ticker p \<and>
   (sum_list (map pc_work (p_listens q)) < sum_list (map pc_work (p_listens p)) \<or>
    p_listens q = p_listens p \<and> p_status q \<noteq> Running)"
  by (induction rule: listen_step.induct) (auto simp: work_update)

lemma step_works: "life_step F p q \<Longrightarrow> work q < work p"
proof (induction rule: life_step_induct)
  case listen
  then show ?case using listen_works [of p q] by (auto simp: work_def split: option.split)
next
  case (stops a ops r)
  then show ?case by (auto simp: work_def dest!: stop_step_frame)
qed (simp_all add: work_def split: option.split)

lemma runs_end: "(life_step F ^^ n) p q \<Longrightarrow> n + work q \<le> work p"
proof (induction n arbitrary: q)
  case (Suc n)
  then obtain r where "(life_step F ^^ n) p r" "life_step F r q" by auto
  with Suc.IH [of r] step_works [of F r q] show ?case by simp
qed simp

text \<open>
  The listeners are closed only by the server, so no error of \<open>Serve\<close> ever reaches the channel and
  it is never closed; and what was stopped is the beginning of the shutdown.
\<close>

definition listens_ok :: "process \<Rightarrow> bool" where
  "listens_ok p \<longleftrightarrow> \<not> p_errsClosed p \<and>
     (Serving True \<in> set (p_listens p) \<longrightarrow> p_serverClosed p) \<and> (\<forall>e. Failing e True \<notin> set (p_listens p)) \<and>
     (p_errs p \<noteq> [] \<or> p_status p = Exited 1 \<longrightarrow> Ended \<in> set (p_listens p))"

definition shutdown_ok :: "process \<Rightarrow> bool" where
  "shutdown_ok p \<longleftrightarrow>
     (case p_signal p of None \<Rightarrow> p_stopped p = [] | Some ops \<Rightarrow> p_stopped p @ ops = shutdown_ops (p_hc p \<noteq> None)) \<and>
     (p_serverClosed p \<longleftrightarrow> ServerClose \<in> set (p_stopped p)) \<and>
     (WatcherStop \<in> set (p_stopped p) \<longrightarrow> p_watcher p) \<and>
     (p_status p = Running \<longrightarrow> p_signal p \<noteq> Some []) \<and>
     (\<forall>n. p_status p = Exited n \<longrightarrow> n = 0 \<and> p_signal p = Some [] \<or> n = 1)"

lemma close_listener_mem [simp]:
  "Failing e c \<in> close_listener ` S \<longleftrightarrow> Failing e c \<in> S" "Ended \<in> close_listener ` S \<longleftrightarrow> Ended \<in> S"
proof -
  have "close_listener x = Failing e c \<longleftrightarrow> x = Failing e c" "close_listener x = Ended \<longleftrightarrow> x = Ended" for x e c
    by (cases x; simp add: close_listener_def)+
  then show "Failing e c \<in> close_listener ` S \<longleftrightarrow> Failing e c \<in> S" "Ended \<in> close_listener ` S \<longleftrightarrow> Ended \<in> S"
    by (metis image_iff)+
qed

lemma listens_ok_update:
  assumes "listens_ok p" and "pc = Serving True \<longrightarrow> p_serverClosed p" and "\<forall>e. pc \<noteq> Failing e True"
    and "i < length (p_listens p)" and "p_listens p ! i \<noteq> Ended"
  shows "listens_ok (p\<lparr>p_listens := (p_listens p)[i := pc]\<rparr>)"
proof -
  have "x \<in> set (p_listens p) \<or> x = pc" if "x \<in> set ((p_listens p)[i := pc])" for x
    using that set_update_subset_insert [of "p_listens p" i pc] by auto
  moreover have "Ended \<in> set ((p_listens p)[i := pc])" if "Ended \<in> set (p_listens p)"
    using that assms(4,5) by (metis in_set_conv_nth length_list_update nth_list_update_neq)
  ultimately show ?thesis using assms(1-3) unfolding listens_ok_def by simp blast
qed

lemma listens_ok_at:
  assumes "listens_ok p" and "i < length (p_listens p)"
  shows "p_listens p ! i = Serving True \<Longrightarrow> p_serverClosed p" and "p_listens p ! i = Failing e c \<Longrightarrow> \<not> c"
  using assms nth_mem [OF assms(2)] unfolding listens_ok_def by (cases c; metis)+

lemma shutdown_split:
  assumes "xs @ a # ops = shutdown_ops hc"
  shows "ops = [] \<longleftrightarrow> (\<exists>n. a = OsExit n)" and "a = OsExit n \<Longrightarrow> n = 0"
  using assms by (cases hc; auto simp: shutdown_ops_def append_eq_Cons_conv)+

lemma listens_ok_listen: "listen_step p q \<Longrightarrow> listens_ok p \<Longrightarrow> p_status p = Running \<Longrightarrow> listens_ok q"
proof (induction rule: listen_step.induct)
  case (sends i p e c)
  have "listens_ok (p\<lparr>p_listens := (p_listens p)[i := Ended]\<rparr>)"
    by (rule listens_ok_update) (use sends in simp_all)
  moreover have "\<not> c" using sends by (auto dest: listens_ok_at)
  moreover have "Ended \<in> set ((p_listens p)[i := Ended])" using sends by (simp add: set_update_memI)
  ultimately show ?case by (simp add: listens_ok_def)
next
  case (serve_ends i p e)
  then have "p_serverClosed p" by (auto dest: listens_ok_at)
  with serve_ends show ?case by (auto intro!: listens_ok_update)
next
  case (opens i p)
  then show ?case by (intro listens_ok_update) auto
next
  case (port_fails i p e)
  then show ?case by (intro listens_ok_update) auto
qed (auto simp: listens_ok_def)

lemma listens_ok_step: "life_step F p q \<Longrightarrow> listens_ok p \<Longrightarrow> shutdown_ok p \<Longrightarrow> listens_ok q"
proof (induction rule: life_step_induct)
  case listen
  then show ?case by (simp add: listens_ok_listen)
next
  case (stops a ops r)
  then have "p_stopped p @ a # ops = shutdown_ops (p_hc p \<noteq> None)" by (simp add: shutdown_ok_def)
  from shutdown_split(2) [OF this] stops show ?case
    by (cases a) (auto simp: listens_ok_def split: if_splits)
qed (auto simp: listens_ok_def)

lemma shutdown_ok_listen: "listen_step p q \<Longrightarrow> shutdown_ok p \<Longrightarrow> shutdown_ok q"
  by (induction rule: listen_step.induct) (simp_all add: shutdown_ok_def split: option.splits)

lemma shutdown_ok_step: "life_step F p q \<Longrightarrow> shutdown_ok p \<Longrightarrow> shutdown_ok q"
proof (induction rule: life_step_induct)
  case listen
  then show ?case by (simp add: shutdown_ok_listen)
next
  case (stops a ops r)
  then have split: "p_stopped p @ a # ops = shutdown_ops (p_hc p \<noteq> None)" by (simp add: shutdown_ok_def)
  from stops shutdown_split [OF split] show ?case
    by (cases a) (auto simp: shutdown_ok_def split: if_splits)
qed (auto simp: shutdown_ok_def shutdown_ops_def split: option.splits)

lemma step_keeps: "life_step F p q \<Longrightarrow> p_watcher q = p_watcher p \<and> (p_hc q = None) = (p_hc p = None)"
proof (induction rule: life_step_induct)
  case listen
  then show ?case by (auto elim: listen_step.cases)
qed (auto dest: stop_step_frame)

lemma main_init_started:
  fixes load :: "'c loader"
  assumes "main_init load watch env = Ret p"
  obtains m :: "'c manager" where "p = started m (initHealthchecks (config_New env))"
    and "m_fsw m = watch (TLS_Certs (TLS (config_New env)) @ TLS_Keys (TLS (config_New env)))"
proof -
  obtain m where m: "NewManager load watch (initSMTP (config_New env)) = Ret m"
      "p = started m (initHealthchecks (config_New env))"
    using assms by (auto simp: main_init_def Let_def split: res.splits)
  moreover have "m_fsw m = watch (TLS_Certs (TLS (config_New env)) @ TLS_Keys (TLS (config_New env)))"
    using m(1) by (simp add: NewManager_def initSMTP_def split: res.splits prod.splits) auto
  ultimately show thesis using that by blast
qed

lemma reachable_ok:
  assumes "main_init load watch env = Ret p0" and "(life_step F)\<^sup>*\<^sup>* p0 p"
  shows "listens_ok p \<and> shutdown_ok p \<and> (p_hc p = None) = (initHealthchecks (config_New env) = None) \<and>
    p_watcher p = watch (TLS_Certs (TLS (config_New env)) @ TLS_Keys (TLS (config_New env)))"
  using assms(2)
proof (induction rule: rtranclp_induct)
  case base
  show ?case by (rule main_init_started [OF assms(1)]) (simp add: started_def listens_ok_def shutdown_ok_def)
next
  case (step q r)
  with step_keeps [OF step.hyps(2)] show ?case by (auto intro: listens_ok_step shutdown_ok_step)
qed

text \<open>
  What the client of the health checks has sent; once \<open>shutdown\<close> has reached it, it is closed.
\<close>

definition hc_ok :: "process \<Rightarrow> bool" where
  "hc_ok p \<longleftrightarrow>
     (case p_hc p of None \<Rightarrow> True
      | Some c \<Rightarrow> hc_sent c = [(''/start'', Some ''starting postmoogle'')] \<and>
          (HcShutdown \<in> set (p_stopped p) \<longrightarrow> hc_closed c))"

lemma shutdown_before_status:
  "xs @ HcExitStatus n b # ops = shutdown_ops hc \<Longrightarrow> HcShutdown \<in> set xs"
  by (cases hc) (auto simp: shutdown_ops_def append_eq_Cons_conv)

lemma hc_ok_step: "life_step F p q \<Longrightarrow> hc_ok p \<Longrightarrow> shutdown_ok p \<Longrightarrow> hc_ok q"
proof (induction rule: life_step_induct)
  case listen
  then show ?case using listen_works [of p q] by (simp add: hc_ok_def split: option.splits)
next
  case (stops a ops r)
  then have split: "p_stopped p @ a # ops = shutdown_ops (p_hc p \<noteq> None)" by (simp add: shutdown_ok_def)
  with stops show ?case
    by (cases a) (auto simp: hc_ok_def split: option.splits if_splits dest!: shutdown_before_status)
qed (auto simp: hc_ok_def split: option.splits)

lemma reachable_hc:
  assumes init: "main_init load watch env = Ret p0" and "(life_step F)\<^sup>*\<^sup>* p0 p"
  shows "hc_ok p"
  using assms(2)
proof (induction rule: rtranclp_induct)
  case base
  show ?case
    by (rule main_init_started [OF init])
      (auto simp: started_def hc_ok_def initHealthchecks_def hc_Start_def hc_Call_def hc_New_def Let_def)
next
  case (step q r)
  with reachable_ok [OF init step.hyps(1)] show ?case by (blast intro: hc_ok_step)
qed

text \<open>What the shutdown goroutine does next.\<close>

lemma shutdown_goes_on:
  assumes "p_status p = Running" and "p_signal p = Some (a # ops)"
  shows "\<exists>q. life_step F p q"
  using assms by (cases "stop_step a p") (auto intro: life_shutdownI shutdown_step.intros)

lemma signal_stays: "life_step F p q \<Longrightarrow> p_signal p \<noteq> None \<Longrightarrow> p_signal q \<noteq> None"
proof (induction rule: life_step_induct)
  case listen
  then show ?case by (auto elim: listen_step.cases)
qed auto

text \<open>A configuration whose health check, if it has one, has an interval a ticker accepts.\<close>

definition valid_check :: "config \<Rightarrow> bool" where
  "valid_check cfg \<longleftrightarrow> HealthchecksUUID (Monitoring cfg) = [] \<or> 0 < HealthchecksDuration (Monitoring cfg)"

lemma ticker_reach:
  assumes init: "main_init load watch env = Ret p0" and "(life_step F)\<^sup>*\<^sup>* p0 p"
  shows "p_ticker p = None \<or>
    (HealthchecksUUID (Monitoring (config_New env)) \<noteq> [] \<and>
     p_ticker p = Some (HealthchecksDuration (Monitoring (config_New env))))"
  using assms(2)
proof (induction rule: rtranclp_induct)
  case base
  show ?case
    by (rule main_init_started [OF init]) (simp add: started_def initHealthchecks_def Let_def)
next
  case (step q r)
  from step.hyps(2) step.IH show ?case
  proof (induction rule: life_step_induct)
    case listen
    then show ?case by (auto elim: listen_step.cases)
  qed (auto dest: stop_step_frame)
qed

lemma no_crash:
  assumes init: "main_init load watch env = Ret p0" and "(life_step {})\<^sup>*\<^sup>* p0 p"
    and watcher: "watch (TLS_Certs (TLS (config_New env)) @ TLS_Keys (TLS (config_New env)))"
    and check: "valid_check (config_New env)"
  shows "p_status p \<noteq> Crashed e"
  using assms(2)
proof (induction rule: rtranclp_induct)
  case (step q r)
  have ok: "listens_ok q" "p_watcher q" "\<And>every. p_ticker q = Some every \<Longrightarrow> 0 < every"
    using reachable_ok [OF init step.hyps(1)] watcher ticker_reach [OF init step.hyps(1)] check
    by (auto simp: valid_check_def)
  from step.hyps(2) step.IH ok show ?case
  proof (induction rule: life_step_induct)
    case listen
    then show ?case by (auto simp: listens_ok_def elim: listen_step.cases)
  next
    case (stops a ops r)
    then show ?case by (cases a) (auto split: if_splits)
  next
    case (stop_panics a ops e)
    then show ?case by (cases a) auto
  qed auto
next
  case base
  show ?case by (rule main_init_started [OF init]) (simp add: started_def)
qed

lemma shutdown_ops_no_watcher:
  assumes "xs @ ops = shutdown_ops hc" and "WatcherStop \<notin> set xs"
  shows "set xs \<subseteq> {CronShutdown}" and "ops \<noteq> []"
proof -
  show "set xs \<subseteq> {CronShutdown}"
    using assms by (cases xs; cases "tl xs") (auto simp: shutdown_ops_def)
  show "ops \<noteq> []" using assms by (auto simp: shutdown_ops_def)
qed

text \<open>
  \<open>recovery\<close>, if a panic reached it: the process would end with status 0 all the same; the request that
  tells the health check of the panic would be made.
\<close>

lemma recovery_exits:
  assumes "p_watcher p"
  obtains q where "run_stops (recovery_ops hc panic) p = Ret q" and "p_status q = Exited 0" and "p_serverClosed q"
  using assms that by (cases panic; cases hc) (auto simp: recovery_ops_def shutdown_ops_def)

lemma recovery_reports:
  assumes "p_watcher p" and "p_hc p = Some c" and "hc_enabled c" and "\<not> hc_closed c"
    and "run_stops (recovery_ops True (Some e)) p = Ret q"
  shows "map_option hc_sent (p_hc q) = Some (hc_sent c @ [(''/1'', Some (''panic: '' @ e))])"
proof -
  have "show_nat 1 = ''1''" by code_simp
  with assms show ?thesis
    by (auto simp: recovery_ops_def shutdown_ops_def hc_ExitStatus_def hc_Call_def hc_Shutdown_def split: if_splits)
qed

text \<open>An interval that is not positive, such as 0, ends the process at the start.\<close>

lemma bad_interval_crashes:
  assumes "main_init load watch env = Ret p" and "\<not> valid_check (config_New env)"
  shows "life_step F p (p\<lparr>p_status := Crashed ''non-positive interval for NewTicker''\<rparr>)"
proof (rule main_init_started [OF assms(1)])
  fix m :: "'a manager"
  assume "p = started m (initHealthchecks (config_New env))"
  with assms(2) have "p_status p = Running" "p_ticker p = Some (HealthchecksDuration (Monitoring (config_New env)))"
    "HealthchecksDuration (Monitoring (config_New env)) \<le> 0"
    by (auto simp: valid_check_def started_def initHealthchecks_def Let_def)
  then show ?thesis
    using ticker_panics [of p _ "''non-positive interval for NewTicker''"] by (simp add: life_step_def hc_Auto_def run_simps)
qed

section \<open>Properties\<close>



text \<open>
  C40: a process whose file watcher could not be created, as when the directory of a certificate does not
  exist, cannot be stopped properly: it never exits with 0, neither the SMTP server nor the bot is ever
  stopped, and the step after the cron was shut down is a crash.
\<close>

theorem missing_watcher_crashes:
  assumes "main_init load watch env = Ret p0"
    and "\<not> watch (TLS_Certs (TLS (config_New env)) @ TLS_Keys (TLS (config_New env)))" and "(life_step F)\<^sup>*\<^sup>* p0 p"
  shows "p_status p \<noteq> Exited 0 \<and> set (p_stopped p) \<subseteq> {CronShutdown} \<and>
    (p_status p = Running \<and> p_stopped p = [CronShutdown] \<longrightarrow>
       life_step F p (p\<lparr>p_status := Crashed ''nil pointer dereference''\<rparr>))"
proof -
  have ok: "shutdown_ok p" "\<not> p_watcher p" using reachable_ok [OF assms(1,3)] assms(2) by auto
  show ?thesis
  proof (cases "p_signal p")
    case None
    with ok show ?thesis by (auto simp: shutdown_ok_def)
  next
    case (Some ops)
    then have split: "p_stopped p @ ops = shutdown_ops (p_hc p \<noteq> None)" "WatcherStop \<notin> set (p_stopped p)"
      using ok by (auto simp: shutdown_ok_def)
    have "life_step F p (p\<lparr>p_status := Crashed ''nil pointer dereference''\<rparr>)"
      if running: "p_status p = Running" and "p_stopped p = [CronShutdown]"
    proof -
      obtain ops' where "ops = WatcherStop # ops'" using split(1) \<open>p_stopped p = [CronShutdown]\<close> by (auto simp: shutdown_ops_def)
      then show ?thesis using Some running ok(2) by (intro life_shutdownI stop_panics) auto
    qed
    with shutdown_ops_no_watcher [OF split] ok Some show ?thesis by (auto simp: shutdown_ok_def)
  qed
qed

text \<open>
  C39: nobody hears how the process ended. \<open>shutdown\<close> shuts the client of the health checks down before it
  reports the exit status, and a client that is shut down sends nothing: in every state of every run, the
  start of the process is all that was reported, apart from the pings.
\<close>

theorem exit_status_never_sent:
  assumes "main_init load watch env = Ret p0" and "(life_step F)\<^sup>*\<^sup>* p0 p"
    and "HealthchecksUUID (Monitoring (config_New env)) \<noteq> []"
  shows "map_option hc_sent (p_hc p) = Some [(''/start'', Some ''starting postmoogle'')] \<and>
    (p_status p = Exited 0 \<longrightarrow> HcExitStatus 0 ''shutting down postmoogle'' \<in> set (p_stopped p))"
proof -
  have "p_hc p \<noteq> None" "shutdown_ok p"
    using reachable_ok [OF assms(1,2)] assms(3) by (auto simp: initHealthchecks_def Let_def)
  moreover have "hc_ok p" by (rule reachable_hc [OF assms(1,2)])
  ultimately show ?thesis by (auto simp: hc_ok_def shutdown_ok_def shutdown_ops_def)
qed

text \<open>
  A process without configuration, or with a health check only, that is told to stop at once, and its run
  up to the exit.
\<close>

definition demo_hc_env :: "bool \<Rightarrow> env" where
  "demo_hc_env hc name = (if hc \<and> name = ''POSTMOOGLE_MONITORING_HEALTHCHECKS_UUID'' then ''5f8a'' else [])"

definition demo_process :: "bool \<Rightarrow> bool \<Rightarrow> process" where
  "demo_process hc watcher =
     \<lparr>p_status = Running, p_listens = [Opening], p_errs = [], p_errsClosed = False, p_serverClosed = False,
      p_watcher = watcher,
      p_hc = (if hc then Some (hc_Start ''starting postmoogle'' (hc_New ''https://hc-ping.com'' ''5f8a'')) else None),
      p_ticker = (if hc then Some 60000000000 else None), p_signal = None, p_stopped = []\<rparr>"

lemma demo_keys:
  "env_key ''tls.cert'' = ''POSTMOOGLE_TLS_CERT''"
  "env_key ''tls.key'' = ''POSTMOOGLE_TLS_KEY''"
  "env_key ''monitoring.healthchecks.url'' = ''POSTMOOGLE_MONITORING_HEALTHCHECKS_URL''"
  "env_key ''monitoring.healthchecks.uuid'' = ''POSTMOOGLE_MONITORING_HEALTHCHECKS_UUID''"
  "env_key ''monitoring.healthchecks.duration'' = ''POSTMOOGLE_MONITORING_HEALTHCHECKS_DURATION''"
  by code_simp+

lemma demo_config:
  "TLS_Certs (TLS (config_New (demo_hc_env hc))) = []"
  "HealthchecksURL (Monitoring (config_New (demo_hc_env hc))) = ''https://hc-ping.com''"
  "HealthchecksUUID (Monitoring (config_New (demo_hc_env hc))) = (if hc then ''5f8a'' else [])"
  "HealthchecksDuration (Monitoring (config_New (demo_hc_env hc))) = 60000000000"
proof -
  have trim: "TrimSpace [] = []" "TrimSpace ''5f8a'' = ''5f8a''" by code_simp+
  have wrap: "wrap64 60000000000 = 60000000000" by code_simp
  show "TLS_Certs (TLS (config_New (demo_hc_env hc))) = []"
    "HealthchecksURL (Monitoring (config_New (demo_hc_env hc))) = ''https://hc-ping.com''"
    "HealthchecksUUID (Monitoring (config_New (demo_hc_env hc))) = (if hc then ''5f8a'' else [])"
    "HealthchecksDuration (Monitoring (config_New (demo_hc_env hc))) = 60000000000"
    by (simp_all add: config_New_def defaultConfig_def env_Slice_def env_Int_def env_String_def demo_keys demo_hc_env_def
        trim wrap Let_def)
qed

lemma demo_init:
  "main_init (\<lambda>_ _. None :: string option) (\<lambda>_. b) (demo_hc_env hc) = Ret (demo_process hc b)"
  by (simp add: main_init_def NewManager_def initSMTP_def run_loadTLSConfig demo_config initHealthchecks_def started_def
      demo_process_def Let_def)

abbreviation demo_signal :: "bool \<Rightarrow> bool \<Rightarrow> process" where
  "demo_signal hc b \<equiv> demo_process hc b\<lparr>p_signal := Some (shutdown_ops hc)\<rparr>"

lemma demo_signalled: "life_step F (demo_process hc b) (demo_signal hc b)"
  using signalled [of "demo_process hc b"] by (cases hc) (auto simp: demo_process_def life_shutdownI)

lemma demo_stops:
  assumes "p_status p = Running" and "p_watcher p" and "p_signal p = Some (shutdown_ops hc)"
  shows "\<exists>q. (life_step F)\<^sup>*\<^sup>* p q \<and> p_status q = Exited 0"
proof -
  have "\<exists>q. (life_step F)\<^sup>*\<^sup>* r q \<and> p_status q = Exited 0"
    if "p_status r = Running" "p_signal r = Some (ops @ [OsExit 0])" "\<forall>n. OsExit n \<notin> set ops" "p_watcher r" for r ops
    using that
  proof (induction ops arbitrary: r)
    case Nil
    then have "life_step F r (r\<lparr>p_status := Exited 0, p_signal := Some [], p_stopped := p_stopped r @ [OsExit 0]\<rparr>)"
      using stops [of r "OsExit 0" "[]" "r\<lparr>p_status := Exited 0\<rparr>"] by (simp add: life_shutdownI)
    then show ?case by (intro exI conjI, rule r_into_rtranclp) simp_all
  next
    case (Cons a ops)
    obtain s where s: "stop_step a r = Ret s" using Cons.prems(4) by (cases a) auto
    let ?r = "s\<lparr>p_signal := Some (ops @ [OsExit 0]), p_stopped := p_stopped s @ [a]\<rparr>"
    have step: "life_step F r ?r" using Cons.prems s by (intro life_shutdownI stops) auto
    have "p_status ?r = Running" "p_watcher ?r"
      using stop_step_frame [OF s] Cons.prems by (auto split: stop_op.splits)
    then obtain q where "(life_step F)\<^sup>*\<^sup>* ?r q" "p_status q = Exited 0"
      using Cons.IH [of ?r] Cons.prems(3) by auto
    with step show ?case by (blast intro: converse_rtranclp_into_rtranclp)
  qed
  from this [of p "butlast (shutdown_ops hc)"] show ?thesis using assms by (simp add: shutdown_ops_def)
qed

lemma demo_exits:
  obtains q where "(life_step F)\<^sup>*\<^sup>* (demo_process hc True) q" and "p_status q = Exited 0"
proof -
  obtain q where "(life_step F)\<^sup>*\<^sup>* (demo_signal hc True) q" "p_status q = Exited 0"
    using demo_stops [of "demo_signal hc True" hc F] by (auto simp: demo_process_def)
  then show thesis using that demo_signalled by (meson converse_rtranclp_into_rtranclp)
qed



theorem missing_watcher_crashes_witness: "p_status (demo_signal False False) \<noteq> Exited 0"
proof -
  have "(life_step {})\<^sup>*\<^sup>* (demo_process False False) (demo_signal False False)" using demo_signalled by blast
  from missing_watcher_crashes [OF demo_init _ this] show ?thesis by simp
qed

theorem exit_status_never_sent_witness:
  "\<exists>p. (life_step {})\<^sup>*\<^sup>* (demo_process True True) p \<and> p_status p = Exited 0 \<and>
     map_option hc_sent (p_hc p) = Some [(''/start'', Some ''starting postmoogle'')]"
proof -
  obtain q where q: "(life_step {})\<^sup>*\<^sup>* (demo_process True True) q" "p_status q = Exited 0" by (rule demo_exits)
  then show ?thesis using exit_status_never_sent [OF demo_init q(1)] by (auto simp: demo_config)
qed

end
