(* ===== verification/Queue_Refinement.thy ===== *)
theory Queue_Refinement
  imports Queue
begin

text \<open>
  The queue as the rest of the program may think of it: a map from identifiers to pending emails. An
  attempt at an email delivers it, counts a failure or gives up; a run is a sequence of attempts at
  different emails. The section shows that \<open>queue_Process\<close> on account data, with its index, its items,
  the cache and the writes behind it, does exactly this on the pending emails, for every pattern of
  refused deliveries, as long as the homeserver takes the writes.
\<close>

section \<open>The specification\<close>

text \<open>
  An attempt at an item: what is pending afterwards, what is delivered, and how often the mail client
  was called. \<open>m\<close> is the number of retries, \<open>refused\<close> says whether the client refuses the email.
\<close>

definition spec_attempt ::
  "externals \<Rightarrow> int \<Rightarrow> bool \<Rightarrow> gomap \<Rightarrow> gomap option \<times> (string \<times> string \<times> string \<times> url option) list \<times> nat" where
  "spec_attempt X m refused item =
     (case Atoi (goget item ''attempts'') of
        None \<Rightarrow> (Some item, [], 0)
      | Some a \<Rightarrow>
          if a > m then (None, [], 0)
          else if refused then (Some (fmupd ''attempts'' (Itoa (wrap64 (a + 1))) item), [], 1)
          else (None, [item_mail X item], 1))"

text \<open>A run over identifiers; \<open>refused n\<close> is the answer to the \<open>n\<close>-th call of the mail client.\<close>

fun spec_run ::
  "externals \<Rightarrow> int \<Rightarrow> (nat \<Rightarrow> bool) \<Rightarrow> nat \<Rightarrow> (string \<Rightarrow> gomap option) \<Rightarrow> string list \<Rightarrow>
   (string \<Rightarrow> gomap option) \<times> (string \<times> string \<times> string \<times> url option) list \<times> nat" where
  "spec_run X m refused n P [] = (P, [], n)"
| "spec_run X m refused n P (i # ids) =
     (let (r, sent, k) = spec_attempt X m (refused n) (the (P i));
          (P', sent', n') = spec_run X m refused (n + k) (P(i := r)) ids
      in (P', sent @ sent', n'))"

section \<open>One email\<close>

text \<open>The homeserver takes every write from here on.\<close>

definition calm :: "'a queue_state_scheme \<Rightarrow> bool" where
  "calm w \<longleftrightarrow> queue_wf w \<and> (\<forall>n. hs_fault w n = None)"

lemma pending_item: "pending w i = Some item \<Longrightarrow> queue_item w (item_key i) = Some item"
  by (auto simp: pending_def split: option.splits if_splits)

lemma calm_same:
  assumes "calm w" and "acc w' = acc w" and "hs_fault w' = hs_fault w"
  shows "calm w'" and "pending w' = pending w"
proof -
  show "calm w'" using assms by (auto simp: calm_def intro: queue_wf_same)
  show "pending w' = pending w" unfolding pending_def assms(2) ..
qed

lemma calm_item:
  assumes "calm w" and "pending w i \<noteq> None" and "acc w' = fmupd (UserData (item_key i)) item (acc w)"
    and "hs_fault w' = hs_fault w"
  shows "calm w'" and "pending w' = (pending w)(i := Some item)"
  using assms by (auto simp: calm_def pending_def fun_eq_iff intro: queue_wf_upd split: option.splits)

lemma calm_Remove:
  assumes "calm w" and "pending w i \<noteq> None"
  obtains w' where "queue_Remove i w = (Ret None, w')" and "calm w'" and "pending w' = (pending w)(i := None)"
    and "mail_calls w' = mail_calls w" and "mail_fault w' = mail_fault w" and "mail_sent w' = mail_sent w"
proof -
  obtain now where now: "queue_index w = Some now" "fmlookup now i = Some (item_key i)"
    using assms by (auto simp: calm_def queue_wf_def pending_def split: option.splits if_splits)
  then obtain w' where w': "queue_Remove i w = (Ret None, w')"
      "acc w' = fmupd (UserData (item_key i)) fmempty (fmupd (UserData acQueueKey) (fmdrop i now) (acc w))"
      "mail_calls w' = mail_calls w" "mail_fault w' = mail_fault w" "mail_sent w' = mail_sent w" "hs_fault w' = hs_fault w"
    by (rule Remove_ok [of w now i "item_key i"]) (use assms in \<open>simp_all add: calm_def\<close>)
  have "queue_wf w'" using postqueue.remove_wf [of w i] assms(1) w'(1) by (simp add: calm_def)
  moreover have "pending w' = (pending w)(i := None)"
  proof
    fix j show "pending w' j = ((pending w)(i := None)) j"
      using postqueue.remove_gone [of w i] postqueue.remove_frame [of w j i] assms(1) w'(1)
      by (cases "j = i") (simp_all add: calm_def)
  qed
  ultimately show thesis using w' assms(1) that by (auto simp: calm_def)
qed

text \<open>One turn of the loop.\<close>

lemma turn:
  assumes w: "calm w" and item: "pending w i = Some item"
    and spec: "spec_attempt X m (mail_fault w (mail_calls w) \<noteq> None) item = (r, sent, k)"
  obtains w' where "bindM (queue_try X (item_key i) m) (\<lambda>dequeue.
      if dequeue then bindM (queue_Remove i) (\<lambda>_. skipM) else skipM) w = (Ret (), w')"
    and "calm w'" and "pending w' = (pending w)(i := r)" and "mail_sent w' = mail_sent w @ sent"
    and "mail_calls w' = mail_calls w + k" and "mail_fault w' = mail_fault w"
proof -
  let ?P = "\<lambda>w'. calm w' \<and> pending w' = (pending w)(i := r) \<and> mail_sent w' = mail_sent w @ sent \<and>
    mail_calls w' = mail_calls w + k \<and> mail_fault w' = mail_fault w"
  have here: "queue_item w (item_key i) = Some item" "pending w i \<noteq> None" using item pending_item by auto
  have removed: "\<exists>w''. queue_Remove i w' = (Ret None, w'') \<and> ?P w''"
    if "calm w'" "pending w' = pending w" "r = None" "mail_sent w' = mail_sent w @ sent"
      "mail_calls w' = mail_calls w + k" "mail_fault w' = mail_fault w" for w'
    by (rule calm_Remove [of w' i]) (use that here in auto)
  consider (unreadable) "Atoi (goget item ''attempts'') = None"
    | (exhausted) a where "Atoi (goget item ''attempts'') = Some a" "m < a"
    | (delivers) a where "Atoi (goget item ''attempts'') = Some a" "a \<le> m" "mail_fault w (mail_calls w) = None"
    | (fails) a e where "Atoi (goget item ''attempts'') = Some a" "a \<le> m" "mail_fault w (mail_calls w) = Some e"
    by (metis not_le option.exhaust)
  then show thesis
  proof cases
    case unreadable
    have s: "(pending w)(i := r) = pending w" "sent = []" "k = 0"
      using spec unreadable item by (auto simp: spec_attempt_def)
    have "bindM (queue_try X (item_key i) m) (\<lambda>dequeue.
        if dequeue then bindM (queue_Remove i) (\<lambda>_. skipM) else skipM) w = (Ret (), w)"
      using try_unreadable [OF here(1) unreadable, of X m] by (simp add: bindM_def skipM_def returnM_def)
    then show ?thesis using w by (rule that) (simp_all add: s)
  next
    case (exhausted a)
    have s: "r = None" "sent = []" "k = 0" using spec exhausted by (auto simp: spec_attempt_def)
    from removed [of w] s w obtain w'' where "queue_Remove i w = (Ret None, w'')" "?P w''" by auto
    then show ?thesis using that by (simp add: try_exhausted [OF here(1) exhausted] run_simps)
  next
    case (delivers a)
    let ?w = "w\<lparr>mail_calls := Suc (mail_calls w), mail_sent := mail_sent w @ [item_mail X item]\<rparr>"
    have s: "r = None" "sent = [item_mail X item]" "k = 1" using spec delivers by (auto simp: spec_attempt_def)
    have "queue_try X (item_key i) m w = (Ret True, ?w)"
      using try_delivers [OF here(1) delivers] by (simp add: item_mail_def)
    moreover obtain w'' where "queue_Remove i ?w = (Ret None, w'')" "?P w''"
      using removed [of ?w] s calm_same [OF w, of ?w] by auto
    ultimately show ?thesis using that by (simp add: run_simps)
  next
    case (fails a e)
    have s: "r = Some (fmupd ''attempts'' (Itoa (wrap64 (a + 1))) item)" "sent = []" "k = 1"
      using spec fails by (auto simp: spec_attempt_def)
    obtain w' where w': "queue_try X (item_key i) m w = (Ret False, w')"
        "acc w' = fmupd (UserData (item_key i)) (fmupd ''attempts'' (Itoa (wrap64 (a + 1))) item) (acc w)"
        "mail_calls w' = Suc (mail_calls w)" "mail_fault w' = mail_fault w" "mail_sent w' = mail_sent w" "hs_fault w' = hs_fault w"
      using try_fails [OF here(1) fails] by metis
    have "bindM (queue_try X (item_key i) m) (\<lambda>dequeue.
        if dequeue then bindM (queue_Remove i) (\<lambda>_. skipM) else skipM) w = (Ret (), w')"
      using w'(1) by (simp add: bindM_def skipM_def returnM_def)
    then show ?thesis
      by (rule that) (use calm_item [OF w here(2) w'(2)] s w' in simp_all)
  qed
qed

section \<open>A run\<close>

lemma loop_refines:
  assumes "calm w" and "distinct ids" and "\<forall>i \<in> set ids. pending w i \<noteq> None \<and> goget index i = item_key i"
  shows "\<exists>w' sent. process_loop X b m index n ids w = (Ret (), w') \<and> calm w' \<and> mail_sent w' = mail_sent w @ sent \<and>
    spec_run X m (\<lambda>c. mail_fault w c \<noteq> None) (mail_calls w) (pending w) (take (nat (b - n + 1)) ids) =
      (pending w', sent, mail_calls w')"
  using assms
proof (induction ids arbitrary: w n)
  case Nil
  then show ?case by (auto simp: run_simps)
next
  case (Cons i ids)
  show ?case
  proof (cases "n > b")
    case True
    then show ?thesis using Cons.prems(1) by (auto simp: run_simps)
  next
    case False
    obtain item where item: "pending w i = Some item" using Cons.prems(3) by auto
    obtain r sent k where spec: "spec_attempt X m (mail_fault w (mail_calls w) \<noteq> None) item = (r, sent, k)"
      by (metis prod.collapse)
    obtain w1 where w1: "bindM (queue_try X (item_key i) m) (\<lambda>dequeue.
        if dequeue then bindM (queue_Remove i) (\<lambda>_. skipM) else skipM) w = (Ret (), w1)"
      "calm w1" "pending w1 = (pending w)(i := r)" "mail_sent w1 = mail_sent w @ sent"
      "mail_calls w1 = mail_calls w + k" "mail_fault w1 = mail_fault w"
      using turn [OF Cons.prems(1) item spec] by metis
    have run: "process_loop X b m index n (i # ids) w = process_loop X b m index (n + 1) ids w1"
      using False w1(1) Cons.prems(3) by (simp add: thenM_def bindM_assoc [symmetric] del: bindM_assoc) (simp add: bindM_def)
    have "\<forall>j \<in> set ids. pending w1 j \<noteq> None \<and> goget index j = item_key j"
      using Cons.prems(2,3) w1(3) by auto
    from Cons.IH [OF w1(2) _ this, of "n + 1"] Cons.prems(2)
    obtain w' sent' where rest: "process_loop X b m index (n + 1) ids w1 = (Ret (), w')" "calm w'"
        "mail_sent w' = mail_sent w1 @ sent'"
        "spec_run X m (\<lambda>c. mail_fault w1 c \<noteq> None) (mail_calls w1) (pending w1) (take (nat (b - (n + 1) + 1)) ids) =
          (pending w', sent', mail_calls w')"
      by auto
    have "nat (b - n + 1) = Suc (nat (b - (n + 1) + 1))" using False by arith
    then have "spec_run X m (\<lambda>c. mail_fault w c \<noteq> None) (mail_calls w) (pending w) (take (nat (b - n + 1)) (i # ids)) =
        (pending w', sent @ sent', mail_calls w')"
      using spec item rest(4) w1 by (simp add: Let_def)
    then show ?thesis using run rest w1(4) by auto
  qed
qed

section \<open>Property\<close>

text \<open>
  C3: a run of the queue refines its specification. Whatever deliveries are refused, a run returns, and
  what it does to the pending emails, the deliveries and the calls of the mail client is a sequence
  of attempts at the first batch size + 1 emails of the index, in the order it takes them: a refused
  email stays with one more attempt counted, a delivered or exhausted one is gone, one whose attempts
  cannot be read stays as it is, and all others are not touched.
\<close>

theorem Process_refines:
  assumes "queue_wf w" and "bot_cfg w = Some cfg" and "DKIMPrivateKey cfg \<noteq> []" and "queue_index w = Some index"
    and order: "mset (order (sorted_list_of_fset (fmdom index))) = mset (sorted_list_of_fset (fmdom index))"
    and "\<forall>n. hs_fault w n = None"
  shows "\<exists>w' sent. queue_Process X order w = (Ret (), w') \<and> queue_wf w' \<and> mail_sent w' = mail_sent w @ sent \<and>
    spec_run X (retries_of cfg) (\<lambda>n. mail_fault w n \<noteq> None) (mail_calls w) (pending w)
      (take (nat (batch_of cfg + 1)) (order (sorted_list_of_fset (fmdom index)))) = (pending w', sent, mail_calls w')"
proof -
  let ?ids = "order (sorted_list_of_fset (fmdom index))"
  have ids: "set ?ids = fset (fmdom index)" "distinct ?ids"
    using mset_eq_setD [OF order] mset_eq_imp_distinct_iff [OF order] by (simp_all add: sorted_list_of_fset.rep_eq)
  have "calm w" using assms by (simp add: calm_def)
  moreover have "\<forall>i \<in> set ?ids. pending w i \<noteq> None \<and> goget index i = item_key i"
  proof
    fix i assume "i \<in> set ?ids"
    then obtain k where k: "fmlookup index i = Some k" using ids(1) by (auto simp: fmlookup_dom_iff)
    then have "k = item_key i" "queue_item w k \<noteq> None" using assms(1,4) by (auto simp: queue_wf_def)
    then show "pending w i \<noteq> None \<and> goget index i = item_key i" using k assms(4) by (simp add: pending_def goget_def)
  qed
  ultimately obtain w' sent where
    "process_loop X (batch_of cfg) (retries_of cfg) index 0 ?ids w = (Ret (), w')" "calm w'" "mail_sent w' = mail_sent w @ sent"
    "spec_run X (retries_of cfg) (\<lambda>n. mail_fault w n \<noteq> None) (mail_calls w) (pending w) (take (nat (batch_of cfg + 1)) ?ids) =
      (pending w', sent, mail_calls w')"
    using loop_refines [of w ?ids index X "batch_of cfg" "retries_of cfg" 0] ids(2) by auto
  moreover have "queue_Process X order w = process_loop X (batch_of cfg) (retries_of cfg) index 0 ?ids w"
    using assms by (intro queue_Process_run) (auto simp: run_simps)
  ultimately show ?thesis by (auto simp: calm_def)
qed

text \<open>Two emails, the first of which is refused.\<close>

abbreviation demo_two :: queue_state where
  "demo_two \<equiv> queue_demo fmempty (fmupd ''b'' (item_key ''b'') (fmupd ''a'' (item_key ''a'') fmempty))
     [(''a'', new_item ''a'' ''f@x'' ''t@y'' ''hello'' []), (''b'', new_item ''b'' ''f@x'' ''t@z'' ''hi'' [])]
     (\<lambda>n. if n = 0 then Some ''451'' else None)"

theorem Process_refines_witness:
  "\<exists>w'. queue_Process demo_ext id demo_two = (Ret (), w') \<and> mail_sent w' = [(''f@x'', ''t@z'', ''hi'', None)] \<and>
     mail_calls w' = 2 \<and> pending w' ''b'' = None \<and>
     pending w' ''a'' = Some (fmupd ''attempts'' ''1'' (new_item ''a'' ''f@x'' ''t@y'' ''hello'' []))"
proof -
  let ?c = "fmupd BotDKIMPrivateKey ''pem'' fmempty" and ?x = "fmupd ''b'' (item_key ''b'') (fmupd ''a'' (item_key ''a'') fmempty)"
  have ids: "sorted_list_of_fset (fmdom ?x) = [''a'', ''b'']" by code_simp
  have one: "Itoa (wrap64 1) = ''1''" by code_simp
  have wf: "queue_wf demo_two" by (simp add: queue_wf_def)
  have pend: "pending demo_two ''a'' = Some (new_item ''a'' ''f@x'' ''t@y'' ''hello'' [])"
    "pending demo_two ''b'' = Some (new_item ''b'' ''f@x'' ''t@z'' ''hi'' [])"
    by (simp_all add: pending_def)
  obtain w' sent where run: "queue_Process demo_ext id demo_two = (Ret (), w')" "mail_sent w' = mail_sent demo_two @ sent"
      "spec_run demo_ext 100 (\<lambda>n. mail_fault demo_two n \<noteq> None) 0 (pending demo_two) [''a'', ''b''] = (pending w', sent, mail_calls w')"
    using Process_refines [OF wf, of ?c ?x id demo_ext] ids by auto
  have "pending w' = (pending demo_two)(''a'' \<mapsto> fmupd ''attempts'' ''1'' (new_item ''a'' ''f@x'' ''t@y'' ''hello'' []), ''b'' := None) \<and>
      sent = [(''f@x'', ''t@z'', ''hi'', None)] \<and> mail_calls w' = 2"
    using run(3) pend by (simp add: spec_attempt_def item_mail_def one)
  with run show ?thesis by (intro exI [of _ w']) simp
qed

end
