(* ===== verification/Submission.thy ===== *)
theory Submission
  imports Delivery Smtp_Conn
begin

text \<open>
  What is sent. A message reaches the mail client by two ways: a client that has authenticated submits
  it by SMTP (internal/smtp/session.go), or a user of a room sends it with the command of the bot
  (internal/bot/command.go). The ways differ when a receiving server refuses a recipient: the
  submission ends there, the command goes on with the next recipient and queues what can be queued.
\<close>

lemma Compose_RcptTo: "Compose X (eml\<lparr>em_RcptTo := to\<rparr>) key = Compose X eml key"
  by (simp add: Compose_def compose_mail_def cong: option.case_cong)

lemma Compose_now:
  "Compose X (email_New X now i r f s sender to rc cc t h fs il) key =
   Compose X (email_New X now' i r f s sender to rc cc t h fs il) key"
  by (simp add: Compose_def compose_mail_def email_New_def cong: option.case_cong)

section \<open>Submission by SMTP\<close>

lemma outgoing_loop_run:
  assumes "\<forall>to \<in> set tos. Hostname X to \<notin> set (s_domains s)" and "room_cfg w (s_fromRoom s) = Some cfg"
    and "Compose X eml (s_privkey s) = Ret data"
    and "k \<le> length tos" and "\<forall>j < k. mail_fault w (mail_calls w + j) = None"
    and "k < length tos \<Longrightarrow> mail_fault w (mail_calls w + k) = Some e"
  shows "outgoing_loop X (postmoogle X) sendmail s eml tos w =
    (Ret (if k = length tos then None else Some (OtherError e)),
     w\<lparr>mail_calls := mail_calls w + min (Suc k) (length tos),
       mail_sent := mail_sent w @ map (\<lambda>to. (em_From eml, to, data, Room_Relay X cfg)) (take k tos)\<rparr>)"
  using assms
proof (induction tos arbitrary: w eml k)
  case Nil
  then show ?case by (simp add: run_simps)
next
  case (Cons to tos)
  have relay: "mb_GetRelayConfig (postmoogle X) (s_fromRoom s) w' = (Ret (Room_Relay X cfg), w')"
    if "room_cfg w' (s_fromRoom s) = Some cfg" for w' :: "'a bot_state_scheme"
    using that by (simp add: postmoogle_def GetRelayConfig_def run_simps)
  let ?eml = "eml\<lparr>em_RcptTo := to\<rparr>"
  have foreign: "Hostname X to \<notin> set (s_domains s)" using Cons.prems(1) by simp
  have data: "Compose X ?eml (s_privkey s) = Ret data" using Cons.prems(3) by (simp add: Compose_RcptTo)
  show ?case
  proof (cases k)
    case 0
    have "mail_fault w (mail_calls w) = Some e" using Cons.prems(6) 0 by simp
    then show ?thesis
      using 0 foreign data relay [OF Cons.prems(2)] by (simp add: run_bindM_Ret run_returnM liftM_def Let_def sendmail_def)
  next
    case (Suc k')
    let ?w = "w\<lparr>mail_calls := Suc (mail_calls w), mail_sent := mail_sent w @ [(em_From eml, to, data, Room_Relay X cfg)]\<rparr>"
    have fault: "mail_fault w (mail_calls w) = None" using Cons.prems(5) Suc by force
    have "outgoing_loop X (postmoogle X) sendmail s eml (to # tos) w = outgoing_loop X (postmoogle X) sendmail s ?eml tos ?w"
      unfolding outgoing_loop.simps(2) Let_def
      using foreign data fault relay [OF Cons.prems(2)]
      by (simp add: run_bindM_Ret liftM_def sendmail_def del: outgoing_loop.simps)
    also have "\<dots> = (Ret (if k' = length tos then None else Some (OtherError e)),
        ?w\<lparr>mail_calls := mail_calls ?w + min (Suc k') (length tos),
          mail_sent := mail_sent ?w @ map (\<lambda>to. (em_From ?eml, to, data, Room_Relay X cfg)) (take k' tos)\<rparr>)"
      using Cons.prems Suc data by (intro Cons.IH) auto
    finally show ?thesis using Suc by simp
  qed
qed


section \<open>The command of the bot\<close>

text \<open>
  What stays while the command runs, whatever the homeserver does: the settings of the server, and what
  the mail client did and will answer.
\<close>

definition mailing ::
  "gomap \<Rightarrow> 'a bot_state_scheme \<Rightarrow> nat \<Rightarrow> (mailaddr \<times> mailaddr \<times> string \<times> url option) list \<Rightarrow> 'a bot_state_scheme \<Rightarrow> bool" where
  "mailing bc w0 n sent w \<longleftrightarrow>
     server_kept bc w0 w \<and> mail_calls w = n \<and> mail_fault w = mail_fault w0 \<and> mail_sent w = sent"

lemma mailing_keeps:
  assumes "preserves (server_kept bc w0) m" and "\<And>P. preserves (\<lambda>w. P (mail_calls w) (mail_fault w) (mail_sent w)) m"
  shows "preserves (mailing bc w0 n sent) m"
  using assms(1) assms(2) [of "\<lambda>c f s. c = n \<and> f = mail_fault w0 \<and> s = sent"]
  by (auto simp: preserves_def mailing_def)

lemma mailing_kept:
  "preserves (mailing bc w0 n sent) (lp_Send r content)" "preserves (mailing bc w0 n sent) (setThreadID r m t)"
  "preserves (mailing bc w0 n sent) (Bot_Error X c msg)" "preserves (mailing bc w0 n sent) (queue_Add i f t d u)"
  "preserves (mailing bc w0 n sent) (saveSentMetadata X c q t to eml cfg txt)"
  by (intro mailing_keeps server.rooms server.keeps_threads server.keeps_Error server.keeps_saveSentMetadata
      preserves_rules lp_frame_queue)+

lemma mailing_notices:
  "preserves (mailing bc w0 n sent) (answer X evt cfg msg)"
  "preserves (mailing bc w0 n sent) (Bot_lock r i)" "preserves (mailing bc w0 n sent) (Bot_unlock r i)"
  unfolding answer_def Bot_lock_def Bot_unlock_def
  by (intro mailing_keeps server.rooms preserves_rules lp_frame_queue)+

lemma mailing_domains: "mailing bc w0 n sent w \<Longrightarrow> domains w = domains w0 \<and> bot_ready w bc"
  by (simp add: mailing_def server_kept_def server_view_def)

text \<open>An operation that returns and keeps \<open>mailing\<close> is a step of the run.\<close>

lemma mailing_step:
  assumes "returns m" and "preserves (mailing bc w0 n sent) m" and "mailing bc w0 n sent w"
  obtains x w' where "m w = (Ret x, w')" and "mailing bc w0 n sent w'"
  using assms by (metis preservesD_run returnsD)

lemma mailing_bind:
  assumes "returns m" and "preserves (mailing bc w0 n sent) m" and "mailing bc w0 n sent w"
    and "\<And>x w1. mailing bc w0 n sent w1 \<Longrightarrow> \<exists>w'. f x w1 = (Ret (), w')"
  shows "\<exists>w'. bindM m f w = (Ret (), w')"
  by (rule mailing_step [OF assms(1-3)]) (use assms(4) in \<open>simp add: run_bindM_Ret\<close>)

lemma returnsD_unit: "returns (m :: ('w, unit) action) \<Longrightarrow> \<exists>w'. m w = (Ret (), w')"
  using returnsD [of m w] by auto

lemma returns_threads:
  "returns (setThreadID r m t)" "returns (setLastEventID r t e)" "returns (Bot_lock r i)" "returns (Bot_unlock r i)"
  "returns (answer X evt cfg msg)"
  unfolding setThreadID_def setLastEventID_def Bot_lock_def Bot_unlock_def answer_def
  by (intro returns_rules)+

lemma saved:
  assumes w: "mailing bc w0 n sent w" and c: "ctxEvent c = Some evt"
    and host: "SanitizeDomain (domains w0) (Room_Domain cfg) = Ret host"
  obtains w' where "saveSentMetadata X c q t to eml cfg txt w = (Ret (), w')" and "mailing bc w0 n sent w'"
proof -
  have "\<exists>w'. saveSentMetadata X c q t to eml cfg txt w = (Ret (), w')"
    unfolding saveSentMetadata_def Let_def c option.case
  proof (rule mailing_bind [OF returns_lp_Send mailing_kept(1) w])
    fix res w1
    assume "mailing bc w0 n sent w1"
    then have "SanitizeDomain (domains w1) (Room_Domain cfg) = Ret host" using mailing_domains host by metis
    moreover have "returns (Bot_Error X c msg)" for msg using c by (intro returns_Bot_Error) simp
    ultimately show "\<exists>w'. (case res of
          Inl e \<Rightarrow> Bot_Error X c (''cannot send notice: '' @ e)
        | Inr msgID \<Rightarrow>
            bindM (readM domains) (\<lambda>ds.
            bindM (liftM (SanitizeDomain ds (Room_Domain cfg))) (\<lambda>host.
            thenM (setThreadID (e_room evt) (MessageID (e_id evt) host) t)
            (thenM (setThreadID (e_room evt) (MessageID msgID host) t) (setLastEventID (e_room evt) t msgID))))) w1 = (Ret (), w')"
      by (cases res)
        (auto simp: run_bindM_Ret run_readM liftM_def intro!: returnsD_unit returns_threads returns_thenM)
  qed
  then show thesis using that preservesD_run [OF mailing_kept(5) _ w] by blast
qed

text \<open>The deliveries that are accepted: \<open>fault\<close> from the \<open>n\<close>-th call on.\<close>

fun accepted_mails ::
  "(nat \<Rightarrow> string option) \<Rightarrow> nat \<Rightarrow> mailaddr \<Rightarrow> (mailaddr \<Rightarrow> string) \<Rightarrow> url option \<Rightarrow> mailaddr list \<Rightarrow>
   (mailaddr \<times> mailaddr \<times> string \<times> url option) list" where
  "accepted_mails fault n from data relay [] = []"
| "accepted_mails fault n from data relay (to # tos) =
     (if fault n = None then [(from, to, data to, relay)] else []) @ accepted_mails fault (Suc n) from data relay tos"

lemma send_loop_run:
  assumes "mailing bc w0 n sent w" and c: "ctxEvent c = Some evt'"
    and host: "SanitizeDomain (domains w0) (Room_Domain cfg) = Ret host"
    and relay: "Room_Relay X cfg \<noteq> None \<or> (\<forall>n. mail_fault w0 n = None)"
    and data: "\<forall>to \<in> set tos. \<forall>now. data to \<noteq> [] \<and>
      Compose X (email_New X now ID [] ('' '' @ ID) subject from to to [] body html [] []) (DKIMPrivateKey bc) = Ret (data to)"
  shows "\<exists>w'. send_loop X c evt cfg from ID subject body html tos w = (Ret True, w') \<and>
    mailing bc w0 (n + length tos) (sent @ accepted_mails (mail_fault w0) n from data (Room_Relay X cfg) tos) w'"
  using assms(1) data
proof (induction tos arbitrary: n sent w)
  case Nil
  then show ?case by (simp add: run_simps)
next
  case (Cons to tos)
  let ?sent = "sent @ (if mail_fault w0 n = None then [(from, to, data to, Room_Relay X cfg)] else [])"
  let ?eml = "email_New X (now_sec w) ID [] ('' '' @ ID) subject from to to [] body html [] []"
  have w: "bot_ready w bc" "mail_calls w = n" "mail_fault w = mail_fault w0" "mail_sent w = sent"
    using Cons.prems(1) mailing_domains [OF Cons.prems(1)] by (auto simp: mailing_def)
  obtain queued err w1 where w1: "Sendmail (e_id evt) from to (data to) (Room_Relay X cfg) w = (Ret (queued, err), w1)"
    "mailing bc w0 (Suc n) ?sent w1"
  proof (cases "mail_fault w0 n")
    case None
    then show ?thesis
      using that [of False None] Cons.prems(1) w
      by (auto simp: Sendmail_def sendmail_def run_simps mailing_def server_kept_def server_view_def bot_ready_def)
  next
    case (Some e)
    let ?w = "w\<lparr>mail_calls := Suc n\<rparr>"
    have refused: "sendmail from to (data to) (Room_Relay X cfg) w = (Ret (Some e), ?w)"
      using Some w by (simp add: sendmail_def)
    have kept: "mailing bc w0 (Suc n) ?sent ?w"
      using Some Cons.prems(1) by (auto simp: mailing_def server_kept_def server_view_def bot_ready_def)
    obtain u where u: "Room_Relay X cfg = Some u" using relay Some by auto
    have add: "returns (queue_Add (e_id evt) from to (data to) [Some u])"
      unfolding queue_Add_def by (auto simp: Let_def intro!: returns_rules)
    obtain aerr w' where "queue_Add (e_id evt) from to (data to) [Some u] ?w = (Ret aerr, w')" "mailing bc w0 (Suc n) ?sent w'"
      by (rule mailing_step [OF add mailing_kept(4) kept])
    then show ?thesis
      using that [of True aerr w'] that [of False "Some e" ?w] kept refused u
      by (cases "shouldQueue e") (auto simp: Sendmail_def run_simps)
  qed
  obtain w2 where w2: "(if queued then saveSentMetadata X c True (e_id evt) to ?eml cfg None
       else case err of
         Some e \<Rightarrow> Bot_Error X c (''cannot send email to '' @ to @ '': '' @ e)
       | None \<Rightarrow> saveSentMetadata X c False (e_id evt) to ?eml cfg None) w1 = (Ret (), w2)"
    "mailing bc w0 (Suc n) ?sent w2"
  proof -
    have err: "returns (Bot_Error X c msg)" for msg using c by (intro returns_Bot_Error) simp
    obtain x :: unit and w2 where "Bot_Error X c (''cannot send email to '' @ to @ '': '' @ the err) w1 = (Ret x, w2)"
        "mailing bc w0 (Suc n) ?sent w2"
      by (rule mailing_step [OF err mailing_kept(3) w1(2)])
    moreover obtain w3 where "saveSentMetadata X c queued (e_id evt) to ?eml cfg None w1 = (Ret (), w3)"
        "mailing bc w0 (Suc n) ?sent w3"
      by (rule saved [OF w1(2) c host])
    ultimately show ?thesis using that by (cases queued; cases err) auto
  qed
  have "send_loop X c evt cfg from ID subject body html (to # tos) w = send_loop X c evt cfg from ID subject body html tos w2"
    unfolding send_loop.simps(2)
    using w(1) Cons.prems(2) w1(1) w2(1) by (simp add: run_simps Let_def liftM_def split del: if_split del: send_loop.simps append_Cons append_Nil append.simps)
  with Cons.IH [OF w2(2)] Cons.prems(2) show ?case by auto
qed


section \<open>Witnesses\<close>

text \<open>The second delivery is refused.\<close>

abbreviation demo_refuses :: bot_state where
  "demo_refuses \<equiv> demo_inbox\<lparr>mail_fault := \<lambda>n. if n = 1 then Some ''550 no such user'' else None\<rparr>"

lemma demo_mail: "mail_fault demo_inbox = (\<lambda>_. None)" "mail_sent demo_inbox = []" "mail_calls demo_inbox = 0"
  by (simp_all add: bot_demo_def queue_state.defs bot_state.defs queue_demo_def)

definition demo_submission :: session where
  "demo_submission =
     \<lparr>s_addr = ''192.0.2.7:25'', s_domains = [''example.com''], s_dir = Outgoing,
      s_tos = [''eve@example.org'', ''mallory@example.org'', ''trent@example.org''],
      s_from = ''bob@example.com'', s_roomID = [], s_privkey = [], s_fromRoom = ''!r''\<rparr>"



end
