(* ===== verification/Ownership.thy ===== *)
theory Ownership
  imports Isolation
begin

text \<open>
  What the commands of a room do when they do something: the mailbox of a room, its spam list, and
  the refusal of a command. \<open>silent\<close> relates two states between which only the homeserver was
  called and messages were sent: the cache of the account data and the fields of the bot are
  the same.
\<close>

section \<open>Silent actions\<close>

definition same :: "'a lp_state_scheme \<Rightarrow> 'a lp_state_scheme \<Rightarrow> bool" where
  "same w w' \<longleftrightarrow> acc w' = acc w \<and> lp_state.more w' = lp_state.more w"

definition silent :: "('a lp_state_scheme, 'b) action \<Rightarrow> bool" where
  "silent m \<longleftrightarrow> (\<forall>w. \<exists>x w'. m w = (Ret x, w') \<and> same w w')"

lemma same_refl [simp]: "same w w"
  by (simp add: same_def)

lemma same_trans: "same w w' \<Longrightarrow> same w' w'' \<Longrightarrow> same w w''"
  by (simp add: same_def)

lemma same_bot:
  fixes w :: "'a bot_state_scheme"
  assumes "same w w'"
  shows "acc w' = acc w" "rooms w' = rooms w" "domains w' = domains w" "mbxc w' = mbxc w"
    "allowedUsers w' = allowedUsers w" "allowedAdmins w' = allowedAdmins w" "adminRooms w' = adminRooms w"
    "prefix w' = prefix w" "mail_sent w' = mail_sent w"
  using assms by (cases w; cases w'; simp add: same_def)+

lemma silentD: "silent m \<Longrightarrow> \<exists>x w'. m w = (Ret x, w') \<and> same w w'"
  by (simp add: silent_def)

lemma silent_unit:
  assumes "silent m"
  obtains w' where "m w = (Ret (), w')" and "same w w'"
proof -
  obtain x :: unit and w' where "m w = (Ret x, w')" "same w w'" using silentD [OF assms] by blast
  then show ?thesis using that by simp
qed

lemma silent_returnM: "silent (returnM x)"
  by (simp add: silent_def returnM_def)

lemma silent_bindM:
  assumes "silent m" and "\<And>x. silent (f x)"
  shows "silent (bindM m f)"
  unfolding silent_def
proof
  fix w
  obtain x w1 where m: "m w = (Ret x, w1)" "same w w1" using silentD [OF assms(1)] by blast
  obtain y w2 where f: "f x w1 = (Ret y, w2)" "same w1 w2" using silentD [OF assms(2)] by blast
  show "\<exists>z w'. bindM m f w = (Ret z, w') \<and> same w w'"
    using m f same_trans by (auto simp: bindM_def)
qed

lemma silent_skipM: "silent skipM"
  by (simp add: skipM_def silent_returnM)

lemma silent_api_call: "silent api_call"
  by (simp add: silent_def api_call_def same_def)

lemma silent_lp_Send: "silent (lp_Send room content)"
  by (simp add: silent_def lp_Send_def api_call_def bindM_def thenM_def readM_def modifyM_def returnM_def
      same_def split: option.split)

lemma silent_SendNotice: "silent (SendNotice X room msg rel)"
proof -
  have "silent (case r of Inr _ \<Rightarrow> skipM | Inl _ \<Rightarrow>
      if rel \<noteq> None then bindM (lp_Send room (notice_content X msg None)) (\<lambda>_. skipM) else skipM)" for r :: "string + string"
    by (cases r) (auto intro: silent_skipM silent_bindM silent_lp_Send)
  then show ?thesis unfolding SendNotice_def Let_def by (intro silent_bindM silent_lp_Send)
qed

lemma silent_typing: "silent typing"
  unfolding typing_def by (intro silent_bindM silent_api_call silent_skipM)

lemma silent_answer: "silent (answer X evt cfg msg)"
  unfolding answer_def by (rule silent_SendNotice)

lemma silent_activateNotice: "silent (notify_loop X msg ars)"
  by (induction ars) (auto intro!: silent_skipM silent_bindM silent_lp_Send split: sum.split)

lemma run_Error:
  assumes "ctxEvent c = Some evt" and "room_cfg w (e_room evt) = Some cfg"
  obtains w' where "Bot_Error X c msg w = (Ret (), w')" and "same w w'"
proof -
  let ?tid = "if ctxThreadID c = [] then EventParent (e_id evt) (e_content evt) else ctxThreadID c"
  have run: "Bot_Error X c msg w = SendNotice X (e_room evt) (''ERROR: '' @ msg)
      (Some (if ?tid \<noteq> [] then RelatesTo ?tid (Room_NoThreads cfg) else None)) w"
    using assms by (cases "ctxThreadID c = []") (simp_all add: Bot_Error_def run_simps Let_def)
  show ?thesis
    by (rule silent_unit [OF silent_SendNotice]) (rule that, (subst run, assumption), assumption)
qed

text \<open>Storing settings and answering.\<close>

lemma run_store:
  assumes "ctxEvent c = Some evt" and "silent m"
  obtains w' where "bindM (SetRoom (e_room evt) cfg) (\<lambda>err.
      case err of Some e \<Rightarrow> Room_failed X c failure e | None \<Rightarrow> m) w = (Ret (), w')"
    and "acc w' = fmupd (RoomData (e_room evt) acRoomKey) cfg (acc w)"
    and "lp_state.more w' = lp_state.more w"
proof -
  obtain w1 where set: "SetRoom (e_room evt) cfg w = (Ret (hs_fault w (hs_calls w)), w1)"
    "acc w1 = fmupd (RoomData (e_room evt) acRoomKey) cfg (acc w)" "lp_state.more w1 = lp_state.more w"
    by (simp add: SetRoom_def run_SetAccountData)
  have cached: "room_cfg w1 (e_room evt) = Some cfg" using set(2) by simp
  have err: "\<exists>w'. Bot_Error X c (failure @ '': '' @ e) w1 = (Ret (), w') \<and> same w1 w'" for e
    by (rule run_Error [OF assms(1) cached]) blast
  have ans: "\<exists>w'. m w1 = (Ret (), w') \<and> same w1 w'"
    by (rule silent_unit [OF assms(2)]) blast
  obtain w' where "bindM (SetRoom (e_room evt) cfg) (\<lambda>err.
      case err of Some e \<Rightarrow> Room_failed X c failure e | None \<Rightarrow> m) w = (Ret (), w')" "same w1 w'"
    using err ans set(1)
    by (cases "hs_fault w (hs_calls w)") (auto simp: Room_failed_def bindM_def)
  then show ?thesis using that set by (simp add: same_def)
qed

lemma run_store_answer:
  assumes "ctxEvent c = Some evt"
  obtains w' where "store_answer X c evt cfg failure msg w = (Ret (), w')"
    and "acc w' = fmupd (RoomData (e_room evt) acRoomKey) cfg (acc w)"
    and "lp_state.more w' = lp_state.more w"
  unfolding store_answer_def using run_store [OF assms silent_answer] .

section \<open>Mailboxes\<close>

text \<open>
  C19: a mailbox that belongs to another room, or is reserved, cannot be taken: the command leaves
  the mailbox table and all settings as they are.
\<close>

theorem setMailbox_taken:
  assumes "v \<in> set (Reserved (mbxc w)) \<or>
      (\<exists>r. fmlookup (rooms w) v = Some r \<and> r \<noteq> [] \<and> r \<noteq> e_room evt)"
  shows "rooms (snd (setMailbox X c evt v w)) = rooms w \<and> acc (snd (setMailbox X c evt v w)) = acc w"
proof -
  have "taken evt v w = (Ret True, w)"
    using assms by (auto simp: taken_def isReserved_def run_simps)
  then have run: "setMailbox X c evt v w = already_taken X evt v w" by (simp add: setMailbox_def run_simps)
  show ?thesis
  proof (cases "EmailsList (domains w) v []")
    case (Ret emails)
    obtain w' where "SendNotice X (e_room evt) (''Mailbox `'' @ v @ ''` ('' @ emails @ '') already taken, kupo'') None w = (Ret (), w')"
      and "same w w'" by (rule silent_unit [OF silent_SendNotice])
    then show ?thesis
      using run Ret by (simp add: already_taken_def run_simps same_bot)
  qed (simp add: run already_taken_def run_simps)
qed

lemma run_activation:
  obtains w' where "activation_flow X a r v al w = (Ret True, w')"
    and "same (w\<lparr>rooms := fmupd v r (rooms w)\<rparr>) w'"
proof (cases "Activation (mbxc w) = ''notify'' \<and> adminRooms w \<noteq> []")
  case True
  let ?w = "w\<lparr>rooms := fmupd v r (rooms w)\<rparr>"
  let ?msg = "(if al then ''Alias '' else ''Mailbox '') @ GoQuote v @
               '' has been registered by '' @ GoQuote a @ '' for the room '' @ GoQuote r"
  obtain w' where "notify_loop X ?msg (adminRooms w) ?w = (Ret (), w')" and same: "same ?w w'"
    by (rule silent_unit [OF silent_activateNotice])
  then have "activation_flow X a r v al w = (Ret True, w')"
    using True by (simp add: activation_flow_def activateNotify_def rooms_Store_def run_simps Let_def)
  then show ?thesis using same by (rule that)
next
  case False
  then have "activation_flow X a r v al w = (Ret True, w\<lparr>rooms := fmupd v r (rooms w)\<rparr>)"
    by (cases "Activation (mbxc w) = ''notify''")
      (simp_all add: activation_flow_def activateNone_def activateNotify_def rooms_Store_def run_simps)
  then show ?thesis by (rule that) simp
qed

lemma SanitizeDomain_total: "ds \<noteq> [] \<Longrightarrow> \<exists>h. SanitizeDomain ds d = Ret h"
  by (cases ds) (simp_all add: SanitizeDomain_def first_domain_def Let_def)

definition demo_event :: mxevent where
  "demo_event =
     \<lparr>e_id = ''$1'', e_room = ''!r'', e_sender = ''@eve:example.com'', e_ts = 1,
      e_content = \<lparr>c_body = [], c_formatted = [], c_notice = False, c_rel = None, c_raw = fmempty\<rparr>\<rparr>"

abbreviation demo_room :: bot_state where
  "demo_room \<equiv> bot_demo fmempty [(''!r'', fmupd RoomMailbox ''old'' fmempty)] [(''old'', ''!r''), (''bob'', ''!b'')]"

text \<open>
  C18: a mailbox that is free, or the room's own, becomes the mailbox of the room: the table maps it to
  the room and no longer maps the room's old mailbox, all other entries stay, the settings hold the
  mailbox, its owner and that it is active, and no other room's settings change. This holds also
  when the homeserver does not store the settings.
\<close>

theorem setMailbox_sets:
  assumes c: "ctxEvent c = Some evt" and cfg: "room_cfg w (e_room evt) = Some cfg" and "domains w \<noteq> []"
    and free: "v \<notin> set (Reserved (mbxc w))"
      "fmlookup (rooms w) v = None \<or> fmlookup (rooms w) v = Some [] \<or> fmlookup (rooms w) v = Some (e_room evt)"
  shows "\<exists>w' cfg'. setMailbox X c evt v w = (Ret (), w') \<and>
    rooms w' = fmupd v (e_room evt)
      (if Room_Get cfg RoomMailbox = [] then rooms w else fmdrop (Room_Get cfg RoomMailbox) (rooms w)) \<and>
    room_cfg w' (e_room evt) = Some cfg' \<and> Room_Mailbox cfg' = v \<and> Room_Owner cfg' = e_sender evt \<and>
    Room_Active cfg' \<and> (\<forall>r. r \<noteq> e_room evt \<longrightarrow> room_cfg w' r = room_cfg w r)"
proof -
  let ?r = "e_room evt" and ?k = "RoomData (e_room evt) acRoomKey"
  let ?c1 = "fmupd RoomMailbox v cfg"
  let ?c2 = "fmupd RoomOwner (e_sender evt) ?c1"
  let ?c3 = "fmupd RoomActive (FormatBool True) ?c2"
  let ?rooms = "if Room_Get cfg RoomMailbox = [] then rooms w else fmdrop (Room_Get cfg RoomMailbox) (rooms w)"
  let ?w1 = "w\<lparr>acc := fmupd ?k ?c2 (acc w), rooms := ?rooms\<rparr>"
  have tk: "taken evt v w = (Ret False, w)"
    using free by (auto simp: taken_def isReserved_def run_simps)
  obtain w2 where w2: "activation_flow X (e_sender evt) ?r v False ?w1 = (Ret True, w2)"
    and s2: "same (?w1\<lparr>rooms := fmupd v ?r (rooms ?w1)\<rparr>) w2" by (rule run_activation)
  obtain host where host: "SanitizeDomain (domains w2) (Room_Domain ?c3) = Ret host"
    using SanitizeDomain_total [of "domains w2"] \<open>domains w \<noteq> []\<close> same_bot(3) [OF s2] by auto
  let ?w3 = "w2\<lparr>acc := fmupd ?k ?c3 (acc w2)\<rparr>"
  obtain w' where w': "store_answer X c evt ?c3 ''cannot update settings''
      (''mailbox of this room set to `'' @ v @ ''@'' @ host @ ''`'') ?w3 = (Ret (), w')"
    "acc w' = fmupd ?k ?c3 (acc ?w3)" "lp_state.more w' = lp_state.more ?w3"
    by (rule run_store_answer [OF c])
  have acc2: "acc w2 = fmupd ?k ?c2 (acc w)" using same_bot(1) [OF s2] by simp
  have del: "(if Room_Get cfg RoomMailbox \<noteq> [] then rooms_Delete (Room_Get cfg RoomMailbox) else skipM)
      (w\<lparr>acc := fmupd ?k ?c2 (acc w)\<rparr>) = (Ret (), ?w1)"
    by (simp add: rooms_Delete_def run_simps)
  have "setMailbox X c evt v w = (Ret (), w')"
    unfolding setMailbox_def run_bindM_Ret [where m = "taken evt v", OF tk]
    using cfg del w2 acc2 host w'(1)
    by (simp add: ActivateMailbox_def RoomSetOption_def run_simps Let_def)
  moreover have "rooms w' = fmupd v ?r ?rooms"
    using w'(3) same_bot(2) [OF s2] by (cases w'; cases w2) simp
  moreover have "room_cfg w' ?r = Some ?c3" using w'(2) by simp
  moreover have "room_cfg w' r = room_cfg w r" if "r \<noteq> ?r" for r
    using w'(2) acc2 that by simp
  moreover have "Room_Mailbox ?c3 = v" "Room_Owner ?c3 = e_sender evt" "Room_Active ?c3"
    by (simp_all add: room_option_defs Room_Get_def)
  ultimately show ?thesis by blast
qed

theorem setMailbox_sets_witness:
  "\<exists>w'. setMailbox demo_ext (newContext background demo_event) demo_event ''eve'' demo_room = (Ret (), w') \<and>
     fmlookup (rooms w') ''eve'' = Some ''!r'' \<and> fmlookup (rooms w') ''old'' = None"
  using setMailbox_sets [of "newContext background demo_event" demo_event demo_room
      "fmupd RoomMailbox ''old'' fmempty" "''eve''" demo_ext]
  by (auto simp: newContext_def demo_event_def Room_Get_def fmlookup_of_list)

theorem setMailbox_taken_witness:
  "rooms (snd (setMailbox demo_ext (newContext background demo_event) demo_event ''bob'' demo_room)) = rooms demo_room"
  using setMailbox_taken [of "''bob''" demo_room demo_event demo_ext "newContext background demo_event"]
  by (simp add: demo_event_def fmlookup_of_list)

section \<open>The spam list\<close>

lemma raw_spamlist: "raw_spamlist cfg = Room_Spamlist cfg"
  by (simp add: raw_spamlist_def Room_Spamlist_def Room_Get_def)

lemma set_add_items: "set (add_items l is) = set l \<union> TrimSpace ` set is"
  by (induction l "is" rule: add_items.induct) auto

lemma index_of_Some: "index_of xs y = Some i \<Longrightarrow> i < length xs \<and> xs ! i = y"
  by (induction xs arbitrary: i) (auto split: if_splits)

lemma index_of_in: "y \<in> set xs \<Longrightarrow> \<exists>i. index_of xs y = Some i"
  by (induction xs) auto

lemma set_to_remove: "set (to_remove xs is) = {i. \<exists>t \<in> set is. index_of xs (TrimSpace t) = Some i}"
  by (auto simp: to_remove_def List.map_filter_def image_iff) force

lemma set_without_positions: "set (without_positions ps xs) = {xs ! i | i. i < length xs \<and> i \<notin> set ps}"
  by (force simp: without_positions_def in_set_enumerate_eq image_iff)

lemma set_removed:
  assumes "distinct xs"
  shows "set (without_positions (to_remove xs is) xs) = set xs - TrimSpace ` set is"
proof -
  have "i \<in> set (to_remove xs is) \<longleftrightarrow> xs ! i \<in> TrimSpace ` set is" if i: "i < length xs" for i
  proof
    assume "i \<in> set (to_remove xs is)"
    then show "xs ! i \<in> TrimSpace ` set is" by (auto simp: set_to_remove dest: index_of_Some)
  next
    assume "xs ! i \<in> TrimSpace ` set is"
    then obtain t where t: "t \<in> set is" "TrimSpace t = xs ! i" by auto
    moreover obtain j where j: "index_of xs (xs ! i) = Some j" using index_of_in [OF nth_mem [OF i]] by blast
    moreover have "j = i" using index_of_Some [OF j] assms i nth_eq_iff_index_eq by blast
    ultimately have "index_of xs (TrimSpace t) = Some i" by simp
    then show "i \<in> set (to_remove xs is)" using t(1) by (auto simp: set_to_remove)
  qed
  then show ?thesis unfolding set_without_positions by (auto simp: in_set_conv_nth [of _ xs]) metis
qed

lemma Spamlist_SliceString:
  assumes "\<forall>i \<in> set l. CHR '','' \<notin> set i"
  shows "set (Room_Spamlist (fmupd RoomSpamlist (SliceString l) cfg)) = {TrimSpace i | i. i \<in> set l \<and> TrimSpace i \<noteq> []}"
  using StringSlice_SliceString [OF assms]
  by (auto simp: Room_Spamlist_def Room_Get_def slice_items_def sortStrings_def)

lemma Room_Spamlist_clean: "i \<in> set (Room_Spamlist cfg) \<Longrightarrow> TrimSpace i = i \<and> CHR '','' \<notin> set i"
  by (auto simp: Room_Spamlist_def StringSlice_trimmed dest: StringSlice_no_comma)

lemma Spamlist_SliceString_clean:
  assumes "\<And>i. i \<in> set l \<Longrightarrow> TrimSpace i = i \<and> CHR '','' \<notin> set i"
  shows "set (Room_Spamlist (fmupd RoomSpamlist (SliceString l) cfg)) = set l - {[]}"
proof -
  have "TrimSpace ` set l = id ` set l" using assms by (intro image_cong) simp_all
  moreover have "{TrimSpace i | i. i \<in> set l \<and> TrimSpace i \<noteq> []} = TrimSpace ` set l - {[]}" by auto
  ultimately show ?thesis using assms by (simp add: Spamlist_SliceString)
qed

lemma set_TrimSpace_comma: "CHR '','' \<notin> set i \<Longrightarrow> CHR '','' \<notin> set (TrimSpace i)"
  using set_TrimSpace [of i] by auto

text \<open>
  Adding to the spam list: afterwards the list of the room holds what it held and the new items,
  without spaces around them and without empty ones, as a set. Items with a comma are not covered:
  the stored text is separated by commas.
\<close>

theorem spamlist_add:
  assumes c: "ctxEvent c = Some evt" and cfg: "room_cfg w (e_room evt) = Some cfg"
    and items: "items \<noteq> []" "\<forall>i \<in> set items. CHR '','' \<notin> set i"
  shows "\<exists>w' cfg'. runSpamlistAdd X c evt (name # items) w = (Ret (), w') \<and>
    room_cfg w' (e_room evt) = Some cfg' \<and>
    set (Room_Spamlist cfg') = (set (Room_Spamlist cfg) \<union> TrimSpace ` set items) - {[]}"
proof -
  let ?k = "RoomData (e_room evt) acRoomKey"
  let ?l = "add_items (Room_Spamlist cfg) items"
  let ?cfg = "fmupd RoomSpamlist (SliceString ?l) cfg"
  let ?w = "w\<lparr>acc := fmupd ?k ?cfg (acc w)\<rparr>"
  have two: "\<not> length (name # items) < 2" using items(1) by (cases items) simp_all
  have clean: "TrimSpace i = i \<and> CHR '','' \<notin> set i" if "i \<in> set ?l" for i
    using that items(2) Room_Spamlist_clean [of i cfg] by (auto simp: set_add_items set_TrimSpace_comma)
  let ?tid = "if ctxThreadID c = [] then e_id evt else ctxThreadID c"
  have run: "runSpamlistAdd X c evt (name # items) w = bindM (SetRoom (e_room evt) ?cfg) (\<lambda>err.
      case err of Some e \<Rightarrow> Room_failed X c ''cannot store room settings'' e
      | None \<Rightarrow> SendNotice X (e_room evt) ''spamlist has been updated, kupo''
                   (Some (RelatesTo ?tid (Room_NoThreads ?cfg)))) ?w"
    using two cfg unfolding runSpamlistAdd_def Let_def
    by (simp add: raw_spamlist RoomSetOption_def run_simps)
  obtain w' where "runSpamlistAdd X c evt (name # items) w = (Ret (), w')"
    and acc': "acc w' = fmupd ?k ?cfg (acc ?w)"
    unfolding run by (rule run_store [OF c silent_SendNotice])
  moreover have "set (Room_Spamlist ?cfg) = (set (Room_Spamlist cfg) \<union> TrimSpace ` set items) - {[]}"
    using Spamlist_SliceString_clean [of ?l cfg, OF clean] by (simp add: set_add_items)
  ultimately show ?thesis using acc' by auto
qed

text \<open>
  Removing from the spam list: afterwards the list of the room holds what it held, without the
  given items; when none of them is in the list, its settings do not change. The list has no
  duplicates, as the commands leave it.
\<close>

theorem spamlist_remove:
  assumes c: "ctxEvent c = Some evt" and cfg: "room_cfg w (e_room evt) = Some cfg"
    and items: "items \<noteq> []" and dist: "distinct (Room_Spamlist cfg)"
  shows "\<exists>w' cfg'. runSpamlistRemove X c evt (name # items) w = (Ret (), w') \<and>
    room_cfg w' (e_room evt) = Some cfg' \<and>
    (if set (Room_Spamlist cfg) \<inter> TrimSpace ` set items = {} then cfg' = cfg
     else set (Room_Spamlist cfg') = set (Room_Spamlist cfg) - TrimSpace ` set items - {[]})"
proof (cases "to_remove (Room_Spamlist cfg) items = []")
  case True
  have none: "set (Room_Spamlist cfg) \<inter> TrimSpace ` set items = {}"
  proof (rule ccontr)
    assume "set (Room_Spamlist cfg) \<inter> TrimSpace ` set items \<noteq> {}"
    then obtain t where "t \<in> set items" "TrimSpace t \<in> set (Room_Spamlist cfg)" by auto
    then have "set (to_remove (Room_Spamlist cfg) items) \<noteq> {}"
      using index_of_in unfolding set_to_remove by blast
    then show False using True by simp
  qed
  obtain w' where "answer X evt cfg ''nothing new, kupo.'' w = (Ret (), w')" and "same w w'"
    by (rule silent_unit [OF silent_answer])
  then show ?thesis
    using True items cfg none
    by (cases items) (simp_all add: runSpamlistRemove_def raw_spamlist run_simps Let_def same_bot(1))
next
  case False
  let ?k = "RoomData (e_room evt) acRoomKey"
  let ?l = "without_positions (to_remove (Room_Spamlist cfg) items) (Room_Spamlist cfg)"
  let ?cfg = "fmupd RoomSpamlist (SliceString ?l) cfg"
  have l: "set ?l = set (Room_Spamlist cfg) - TrimSpace ` set items" by (rule set_removed [OF dist])
  have some: "set (Room_Spamlist cfg) \<inter> TrimSpace ` set items \<noteq> {}"
  proof -
    obtain i where "i \<in> set (to_remove (Room_Spamlist cfg) items)" using False last_in_set by blast
    then obtain t where "t \<in> set items" "index_of (Room_Spamlist cfg) (TrimSpace t) = Some i"
      unfolding set_to_remove by blast
    then show ?thesis using index_of_Some nth_mem by blast
  qed
  have run: "runSpamlistRemove X c evt (name # items) w =
      store_answer X c evt ?cfg ''cannot store room settings'' ''spamlist has been updated, kupo''
        (w\<lparr>acc := fmupd ?k ?cfg (acc w)\<rparr>)"
    using False items cfg
    by (cases items) (simp_all add: runSpamlistRemove_def raw_spamlist RoomSetOption_def run_simps Let_def)
  obtain w' where "runSpamlistRemove X c evt (name # items) w = (Ret (), w')"
    and acc': "acc w' = fmupd ?k ?cfg (acc (w\<lparr>acc := fmupd ?k ?cfg (acc w)\<rparr>))"
    unfolding run by (rule run_store_answer [OF c])
  moreover have "set (Room_Spamlist ?cfg) = set ?l - {[]}"
    by (rule Spamlist_SliceString_clean) (use Room_Spamlist_clean [of _ cfg] l in blast)
  ultimately show ?thesis using acc' l some by simp
qed

abbreviation demo_spam :: bot_state where
  "demo_spam \<equiv> bot_demo fmempty [(''!r'', fmupd RoomSpamlist ''a@b.c'' fmempty)] [(''old'', ''!r'')]"

theorem spamlist_add_witness:
  "\<exists>w' cfg'. runSpamlistAdd demo_ext (newContext background demo_event) demo_event [''spam:add'', '' x@y.z''] demo_spam = (Ret (), w') \<and>
     room_cfg w' ''!r'' = Some cfg' \<and> set (Room_Spamlist cfg') = {''a@b.c'', ''x@y.z''}"
proof -
  have "set (Room_Spamlist (fmupd RoomSpamlist ''a@b.c'' fmempty)) = {''a@b.c''}" "TrimSpace '' x@y.z'' = ''x@y.z''"
    by code_simp+
  then show ?thesis
    using spamlist_add [of "newContext background demo_event" demo_event demo_spam
        "fmupd RoomSpamlist ''a@b.c'' fmempty" "['' x@y.z'']" demo_ext "''spam:add''"]
    by (simp add: newContext_def demo_event_def fmlookup_of_list insert_commute)
qed

theorem spamlist_remove_witness:
  "\<exists>w' cfg'. runSpamlistRemove demo_ext (newContext background demo_event) demo_event [''spam:remove'', ''a@b.c''] demo_spam = (Ret (), w') \<and>
     room_cfg w' ''!r'' = Some cfg' \<and> set (Room_Spamlist cfg') = {}"
proof -
  have "Room_Spamlist (fmupd RoomSpamlist ''a@b.c'' fmempty) = [''a@b.c'']" "TrimSpace ''a@b.c'' = ''a@b.c''"
    by code_simp+
  then show ?thesis
    using spamlist_remove [of "newContext background demo_event" demo_event demo_spam
        "fmupd RoomSpamlist ''a@b.c'' fmempty" "[''a@b.c'']" demo_ext "''spam:remove''"]
    by (simp add: newContext_def demo_event_def fmlookup_of_list)
qed

end
