(* ===== verification/Locks.thy ===== *)
theory Locks
  imports Queue
begin

text \<open>
  The locks of the program: the lock per room that the bot holds while it handles an email, a
  reply or the send command (internal/bot), and the locks of the queue, one for its index and one
  per item (internal/bot/queue). The other theories let every operation run to its end; here an
  operation is the sequence of locks it takes and releases, and the operations of all threads
  interleave. The locks are those of the package go-kit: a lock is free or held by one thread, and
  a thread that asks for a held lock waits.

  \<open>lock_order\<close> is the contract between threads: each takes its locks in the order of a rank. It
  gives progress of every run up to its end. The operations of the queue keep it as long as no
  email is added under an identifier that is being processed; with one they can wait for each
  other forever.
\<close>

section \<open>Locks and threads\<close>

datatype lock_key = RoomLock string | ItemLock string | IndexLock

datatype lock_op = Lock lock_key | Unlock lock_key

type_synonym lock_conf = "lock_op list list \<times> (lock_key \<Rightarrow> nat option)"

text \<open>A thread takes a lock nobody holds, or releases one it holds.\<close>

inductive lock_step :: "lock_conf \<Rightarrow> lock_conf \<Rightarrow> bool" where
  acquire: "i < length ps \<Longrightarrow> ps ! i = Lock k # p \<Longrightarrow> own k = None \<Longrightarrow>
    lock_step (ps, own) (ps[i := p], own(k := Some i))"
| release: "i < length ps \<Longrightarrow> ps ! i = Unlock k # p \<Longrightarrow> own k = Some i \<Longrightarrow>
    lock_step (ps, own) (ps[i := p], own(k := None))"

inductive_cases lock_stepE: "lock_step (ps, own) c"

section \<open>The operations of the program\<close>

text \<open>
  \<open>Add\<close> holds the item while it takes the index; when the item cannot be stored it returns before
  that. Deferred calls release in reverse order.
\<close>

definition Add_locks :: "string \<times> bool \<Rightarrow> lock_op list" where
  "Add_locks a =
     (let (i, stored) = a; item = ItemLock (item_key i) in
      [Lock item] @ (if stored then [Lock IndexLock, Unlock IndexLock] else []) @ [Unlock item])"

text \<open>
  One turn of the loop of \<open>Process\<close>: \<open>try\<close>, and \<open>Remove\<close> when it takes the lock of the item. The
  index maps an identifier to the key of its item.
\<close>

definition entry_locks :: "string \<times> bool \<Rightarrow> lock_op list" where
  "entry_locks e =
     (let (i, removed) = e; item = ItemLock (item_key i) in
      [Lock item, Unlock item] @ (if removed then [Lock item, Unlock item] else []))"

definition Process_locks :: "(string \<times> bool) list \<Rightarrow> lock_op list" where
  "Process_locks entries = [Lock IndexLock] @ concat (map entry_locks entries) @ [Unlock IndexLock]"

text \<open>
  A handler of the bot for a room: \<open>SendEmailReply\<close>, \<open>runSendCommand\<close>, or \<open>IncomingEmail\<close> with its
  autoreply. It may queue emails while it holds the room.
\<close>

definition handler_locks :: "string \<Rightarrow> (string \<times> bool) list \<Rightarrow> lock_op list" where
  "handler_locks room adds = [Lock (RoomLock room)] @ concat (map Add_locks adds) @ [Unlock (RoomLock room)]"

section \<open>Threads that keep an order\<close>

fun ordered :: "(lock_key \<Rightarrow> nat) \<Rightarrow> lock_key set \<Rightarrow> lock_op list \<Rightarrow> bool" where
  "ordered rank H [] \<longleftrightarrow> H = {}"
| "ordered rank H (Lock k # p) \<longleftrightarrow> (\<forall>h \<in> H. rank h < rank k) \<and> ordered rank (insert k H) p"
| "ordered rank H (Unlock k # p) \<longleftrightarrow> k \<in> H \<and> ordered rank (H - {k}) p"

definition held :: "(lock_key \<Rightarrow> nat option) \<Rightarrow> nat \<Rightarrow> lock_key set" where
  "held own i = {k. own k = Some i}"

definition wants :: "lock_op list \<Rightarrow> lock_key option" where
  "wants p = (case p of Lock k # _ \<Rightarrow> Some k | _ \<Rightarrow> None)"

abbreviation remaining :: "lock_op list list \<Rightarrow> nat" where
  "remaining ps \<equiv> sum_list (map length ps)"

lemma held_upd:
  "held (own(k := Some i)) j = (if j = i then insert k (held own j) else held own j - {k})"
  "held (own(k := None)) j = held own j - {k}"
  by (auto simp: held_def)

lemma remaining_update:
  "i < length ps \<Longrightarrow> ps ! i = a # p \<Longrightarrow> remaining ps = Suc (remaining (ps[i := p]))"
proof (induction ps arbitrary: i)
  case (Cons q ps)
  then show ?case by (cases i) auto
qed simp

lemma lock_step_remaining: "lock_step (ps, own) (qs, own') \<Longrightarrow> remaining ps = Suc (remaining qs)"
  by (erule lock_stepE) (auto dest: remaining_update)

lemma remaining_0: "remaining ps = 0 \<longleftrightarrow> (\<forall>p \<in> set ps. p = [])"
  by (induction ps) auto

locale lock_order =
  fixes rank :: "lock_key \<Rightarrow> nat" and prog :: "lock_op list \<Rightarrow> bool"
  assumes prog_ordered: "prog p \<Longrightarrow> ordered rank {} p"
begin

definition keeps_order :: "lock_conf \<Rightarrow> bool" where
  "keeps_order c \<longleftrightarrow> (\<forall>i < length (fst c). ordered rank (held (snd c) i) (fst c ! i)) \<and>
     (\<forall>k i. snd c k = Some i \<longrightarrow> i < length (fst c))"

lemma keeps_order_start: "\<forall>p \<in> set ps. prog p \<Longrightarrow> keeps_order (ps, \<lambda>_. None)"
  by (auto simp: keeps_order_def held_def prog_ordered)

lemma keeps_order_step: "lock_step c c' \<Longrightarrow> keeps_order c \<Longrightarrow> keeps_order c'"
proof (induction rule: lock_step.induct)
  case (acquire i ps k p own)
  have free: "held own j - {k} = held own j" for j using acquire(3) by (auto simp: held_def)
  have i: "ordered rank (held own i) (Lock k # p)" using acquire unfolding keeps_order_def by fastforce
  then show ?case
    using acquire free by (auto simp: keeps_order_def held_upd nth_list_update)
next
  case (release i ps k p own)
  have others: "j \<noteq> i \<Longrightarrow> held own j - {k} = held own j" for j using release(3) by (auto simp: held_def)
  have i: "ordered rank (held own i) (Unlock k # p)" using release unfolding keeps_order_def by fastforce
  then show ?case
    using release others by (auto simp: keeps_order_def held_upd nth_list_update)
qed

lemma keeps_order_run: "(lock_step ^^ n) c c' \<Longrightarrow> keeps_order c \<Longrightarrow> keeps_order c'"
  by (induction n arbitrary: c') (auto intro: keeps_order_step)

text \<open>Among the threads that wait, the one that wants the lock of the highest rank can have it.\<close>

lemma progress:
  assumes keeps: "keeps_order (ps, own)" and left: "remaining ps \<noteq> 0"
  shows "\<exists>c. lock_step (ps, own) c"
proof (rule ccontr)
  assume stuck: "\<nexists>c. lock_step (ps, own) c"
  have ord: "ordered rank (held own i) (ps ! i)" if "i < length ps" for i
    using keeps that by (simp add: keeps_order_def)
  have waits: "\<exists>k p. ps ! i = Lock k # p \<and> own k \<noteq> None" if i: "i < length ps" "ps ! i \<noteq> []" for i
  proof (cases "ps ! i")
    case (Cons a p)
    show ?thesis
    proof (cases a)
      case (Lock k)
      then show ?thesis using stuck Cons i lock_step.acquire by blast
    next
      case (Unlock k)
      then have "own k = Some i" using ord [OF i(1)] Cons by (simp add: held_def)
      then show ?thesis using stuck Cons Unlock i lock_step.release by blast
    qed
  qed (use i in simp)
  let ?W = "{k. \<exists>i < length ps. wants (ps ! i) = Some k}"
  have "finite ?W"
    by (rule finite_subset [of _ "(\<lambda>i. the (wants (ps ! i))) ` {..< length ps}"]) force+
  moreover obtain j where j: "j < length ps" "ps ! j \<noteq> []"
    using left by (auto simp: remaining_0 in_set_conv_nth)
  then have "?W \<noteq> {}" using waits [OF j] by (force simp: wants_def)
  ultimately have "Max (rank ` ?W) \<in> rank ` ?W" and le: "\<forall>k \<in> ?W. rank k \<le> Max (rank ` ?W)" by simp_all
  then obtain k where k: "k \<in> ?W" and "Max (rank ` ?W) = rank k" by blast
  then have max: "\<forall>k' \<in> ?W. rank k' \<le> rank k" using le by simp
  obtain i where i: "i < length ps" "wants (ps ! i) = Some k" using k by blast
  then obtain p where p: "ps ! i = Lock k # p" by (auto simp: wants_def split: list.splits lock_op.splits)
  obtain t where t: "own k = Some t" using waits [OF i(1)] p by auto
  then have t_len: "t < length ps" using keeps by (auto simp: keeps_order_def)
  have "k \<in> held own t" using t by (simp add: held_def)
  then have "ps ! t \<noteq> []" using ord [OF t_len] by auto
  then obtain k' q where q: "ps ! t = Lock k' # q" using waits [OF t_len] by blast
  then have "rank k < rank k'" using ord [OF t_len] \<open>k \<in> held own t\<close> by simp
  moreover have "k' \<in> ?W" using t_len q by (force simp: wants_def)
  ultimately show False using max by fastforce
qed

lemma run_ends:
  assumes "\<forall>p \<in> set ps. prog p" and "(lock_step ^^ n) (ps, \<lambda>_. None) (qs, own)"
  shows "n + remaining qs = remaining ps \<and> (remaining qs = 0 \<or> (\<exists>c. lock_step (qs, own) c))"
proof -
  have len: "(lock_step ^^ n) c (qs, own) \<Longrightarrow> n + remaining qs = remaining (fst c)" for c
  proof (induction n arbitrary: qs own)
    case (Suc n)
    then obtain rs own' where "(lock_step ^^ n) c (rs, own')" "lock_step (rs, own') (qs, own)" by auto
    then show ?case using Suc.IH lock_step_remaining by fastforce
  qed auto
  have "keeps_order (qs, own)" using assms keeps_order_run keeps_order_start by blast
  then show ?thesis using len [OF assms(2)] progress by auto
qed

end

section \<open>The order of the queue\<close>

text \<open>
  Rooms come first, then the items that are being added, then the index, then all other items. \<open>new\<close>
  are the identifiers that are being added.
\<close>

definition lock_rank :: "string set \<Rightarrow> lock_key \<Rightarrow> nat" where
  "lock_rank new k =
     (case k of RoomLock _ \<Rightarrow> 0 | ItemLock i \<Rightarrow> if i \<in> item_key ` new then 1 else 3 | IndexLock \<Rightarrow> 2)"

definition queue_program :: "string set \<Rightarrow> lock_op list \<Rightarrow> bool" where
  "queue_program new p \<longleftrightarrow>
     (\<exists>room adds. p = handler_locks room adds \<and> fst ` set adds \<subseteq> new) \<or>
     (\<exists>entries. p = Process_locks entries \<and> fst ` set entries \<inter> new = {})"

lemma inj_item_key: "item_key i = item_key j \<longleftrightarrow> i = j"
  by (simp add: item_key_def)

lemma lock_rank_simps [simp]:
  "lock_rank new (RoomLock r) = 0" "lock_rank new IndexLock = 2"
  "lock_rank new (ItemLock (item_key i)) = (if i \<in> new then 1 else 3)"
  by (auto simp: lock_rank_def inj_item_key)

lemma ordered_Add:
  assumes "i \<in> new" and "ordered (lock_rank new) {RoomLock room} p"
  shows "ordered (lock_rank new) {RoomLock room} (Add_locks (i, stored) @ p)"
  using assms by (auto simp: Add_locks_def Let_def insert_Diff_if)

lemma ordered_entry:
  assumes "i \<notin> new" and "ordered (lock_rank new) {IndexLock} p"
  shows "ordered (lock_rank new) {IndexLock} (entry_locks (i, removed) @ p)"
  using assms by (auto simp: entry_locks_def Let_def insert_Diff_if)

lemma ordered_adds:
  "fst ` set adds \<subseteq> new \<Longrightarrow> ordered (lock_rank new) {RoomLock room} p \<Longrightarrow>
   ordered (lock_rank new) {RoomLock room} (concat (map Add_locks adds) @ p)"
  by (induction adds) (auto intro: ordered_Add)

lemma ordered_entries:
  "fst ` set entries \<inter> new = {} \<Longrightarrow> ordered (lock_rank new) {IndexLock} p \<Longrightarrow>
   ordered (lock_rank new) {IndexLock} (concat (map entry_locks entries) @ p)"
  by (induction entries) (auto intro: ordered_entry)

interpretation queue_locks: lock_order "lock_rank new" "queue_program new" for new
  by unfold_locales
    (auto simp: queue_program_def handler_locks_def Process_locks_def intro!: ordered_adds ordered_entries)

section \<open>Properties\<close>



text \<open>
  C36: an email added under an identifier that is in the queue can block the program: the thread
  that adds it holds the item and waits for the index, \<open>Process\<close> holds the index and waits for the
  item. The event of a reply with two recipients is added twice under one identifier.
\<close>

theorem queue_deadlock:
  "\<exists>qs own. lock_step\<^sup>*\<^sup>* ([handler_locks room ((i, True) # adds), Process_locks ((i, b) # entries)], \<lambda>_. None) (qs, own) \<and>
     remaining qs \<noteq> 0 \<and> (\<nexists>c. lock_step (qs, own) c)"
proof -
  let ?item = "ItemLock (item_key i)"
  obtain p q where p: "handler_locks room ((i, True) # adds) = Lock (RoomLock room) # Lock ?item # Lock IndexLock # p"
    and q: "Process_locks ((i, b) # entries) = Lock IndexLock # Lock ?item # q"
    by (simp add: handler_locks_def Process_locks_def Add_locks_def entry_locks_def Let_def)
  let ?o1 = "(\<lambda>_. None)(RoomLock room := Some (0::nat))"
  let ?o2 = "?o1(?item := Some 0)"
  let ?o3 = "?o2(IndexLock := Some 1)"
  let ?qs = "[Lock IndexLock # p, Lock ?item # q]"
  have "lock_step ([Lock (RoomLock room) # Lock ?item # Lock IndexLock # p, Lock IndexLock # Lock ?item # q], \<lambda>_. None)
      ([Lock ?item # Lock IndexLock # p, Lock IndexLock # Lock ?item # q], ?o1)"
    using lock_step.acquire [of 0 "[Lock (RoomLock room) # Lock ?item # Lock IndexLock # p, Lock IndexLock # Lock ?item # q]"
        "RoomLock room" _ "\<lambda>_. None"] by simp
  moreover have "lock_step ([Lock ?item # Lock IndexLock # p, Lock IndexLock # Lock ?item # q], ?o1)
      ([Lock IndexLock # p, Lock IndexLock # Lock ?item # q], ?o2)"
    using lock_step.acquire [of 0 "[Lock ?item # Lock IndexLock # p, Lock IndexLock # Lock ?item # q]" ?item _ ?o1] by simp
  moreover have "lock_step ([Lock IndexLock # p, Lock IndexLock # Lock ?item # q], ?o2) (?qs, ?o3)"
    using lock_step.acquire [of 1 "[Lock IndexLock # p, Lock IndexLock # Lock ?item # q]" IndexLock _ ?o2] by simp
  moreover have "\<nexists>c. lock_step (?qs, ?o3) c"
    by (auto elim!: lock_stepE simp: less_Suc_eq nth_Cons')
  ultimately show ?thesis
    unfolding p q by (intro exI [of _ ?qs] exI [of _ ?o3] conjI) (simp_all add: rtranclp.rtrancl_into_rtrancl)
qed

end
