(* ===== verification/Blocklists.thy ===== *)
theory Blocklists
  imports Smtp_Conn
begin

text \<open>
  The check of an address against the DNS block lists (internal/smtp/dnsbl.go): what it decides,
  and what its goroutines do to the slice of results they share. \<open>CheckDNSBLs\<close> lets one append
  follow the other; here an append is three steps, as it runs: the length of the slice is read,
  the pointer to the result is written behind the last element, and the new length is stored. The
  slice has capacity for all results, so its array is never replaced.
\<close>

section \<open>The decision\<close>

definition rbl_lists :: "smtp_ext \<Rightarrow> netaddr \<Rightarrow> string \<times> string list \<Rightarrow> bool" where
  "rbl_lists S addr e \<longleftrightarrow>
     (case sx_LookupHost S (getHost S addr (fst e)) of
        HostAddrs ips \<Rightarrow> set ips \<inter> set (snd e) \<noteq> {} | _ \<Rightarrow> False)"

definition rbl_clears :: "smtp_ext \<Rightarrow> netaddr \<Rightarrow> string \<times> string list \<Rightarrow> bool" where
  "rbl_clears S addr e \<longleftrightarrow> sx_LookupHost S (getHost S addr (fst e)) \<noteq> HostFailed \<and> \<not> rbl_lists S addr e"

abbreviation result_lists :: "dnsblResult \<Rightarrow> bool" where
  "result_lists r \<equiv> \<not> r_Error r \<and> r_Listed r"

abbreviation result_clears :: "dnsblResult \<Rightarrow> bool" where
  "result_clears r \<equiv> \<not> r_Error r \<and> \<not> r_Listed r"

lemma checkRBL_lists: "result_lists (checkRBL S addr e) \<longleftrightarrow> rbl_lists S addr e"
  by (cases e) (auto simp: checkRBL_def rbl_lists_def Let_def split: dnsres.split)

lemma checkRBL_clears: "result_clears (checkRBL S addr e) \<longleftrightarrow> rbl_clears S addr e"
  by (cases e) (auto simp: checkRBL_def rbl_clears_def rbl_lists_def Let_def split: dnsres.split)

text \<open>The decision depends on how many lists name the address and how many do not, in no order.\<close>

lemma evaluate_blocks:
  "fst (evaluate_results rs) \<longleftrightarrow>
     (let l = size (filter_mset result_lists (mset rs)); u = size (filter_mset result_clears (mset rs)) in
      1 < l \<or> u < l)"
proof -
  have "filter r_Listed (filter (\<lambda>r. \<not> r_Error r) rs) = filter result_lists rs"
    "filter (\<lambda>r. \<not> r_Listed r) (filter (\<lambda>r. \<not> r_Error r) rs) = filter result_clears rs"
    by (simp_all add: conj_commute)
  then show ?thesis
    by (auto simp: evaluate_results_def decision_def Let_def simp flip: mset_filter)
qed

lemma evaluate_reasons: "mset (snd (evaluate_results rs)) = image_mset r_Reasons (filter_mset result_lists (mset rs))"
  by (simp add: evaluate_results_def Let_def conj_commute flip: mset_filter)


text \<open>An address that the first two lists name, and the others do not know.\<close>

definition two_lists :: smtp_ext where
  "two_lists = demo_smtp\<lparr>sx_ParseIP := \<lambda>_. Some [192, 0, 2, 1], sx_order := (\<lambda>xs. xs),
     sx_LookupHost := (\<lambda>h. if h \<in> {''1.2.0.192.b.barracudacentral.org.'', ''1.2.0.192.bl.spamcop.net.''}
                          then HostAddrs [''127.0.0.2''] else HostNotFound)\<rparr>"

lemma two_lists_counts:
  "length (filter (rbl_lists two_lists a) DNSBLs) = 2"
  "0 < length (filter (rbl_clears two_lists a) DNSBLs)"
proof -
  have "sx_ParseIP two_lists x = Some [192, 0, 2, 1]" for x by (simp add: two_lists_def)
  then have h: "getHost two_lists a = getHost two_lists []" by (simp add: getHost_def fun_eq_iff)
  then have l: "rbl_lists two_lists a = rbl_lists two_lists []" by (simp add: rbl_lists_def fun_eq_iff)
  then have c: "rbl_clears two_lists a = rbl_clears two_lists []" by (simp add: rbl_clears_def fun_eq_iff h)
  have "length (filter (rbl_lists two_lists []) DNSBLs) = 2" "0 < length (filter (rbl_clears two_lists []) DNSBLs)"
    by code_simp+
  then show "length (filter (rbl_lists two_lists a) DNSBLs) = 2" "0 < length (filter (rbl_clears two_lists a) DNSBLs)"
    using l c by simp_all
qed

lemma two_lists_order: "sx_order two_lists = (\<lambda>xs. xs)"
  by (simp add: two_lists_def)



section \<open>Concurrent appends\<close>

text \<open>
  A goroutine has not appended yet, has read the length, has written its element, or is done. The
  array holds pointers: the numbers of the goroutines whose results they are.
\<close>

datatype append_pc = Waiting | Loaded nat | Written nat | Finished

type_synonym append_conf = "nat \<times> (nat \<Rightarrow> nat option) \<times> append_pc list"

inductive append_step :: "append_conf \<Rightarrow> append_conf \<Rightarrow> bool" where
  load: "i < length pcs \<Longrightarrow> pcs ! i = Waiting \<Longrightarrow> append_step (n, a, pcs) (n, a, pcs[i := Loaded n])"
| store: "i < length pcs \<Longrightarrow> pcs ! i = Loaded m \<Longrightarrow> append_step (n, a, pcs) (n, a(m := Some i), pcs[i := Written m])"
| grow: "i < length pcs \<Longrightarrow> pcs ! i = Written m \<Longrightarrow> append_step (n, a, pcs) (Suc m, a, pcs[i := Finished])"

definition append_start :: "nat \<Rightarrow> append_conf" where
  "append_start k = (0, \<lambda>_. None, replicate k Waiting)"

definition all_done :: "append_conf \<Rightarrow> bool" where
  "all_done c \<longleftrightarrow> (case c of (_, _, pcs) \<Rightarrow> \<forall>pc \<in> set pcs. pc = Finished)"

text \<open>The elements of the slice, as the check reads them after all goroutines are done.\<close>

definition elements :: "append_conf \<Rightarrow> nat list" where
  "elements c = (case c of (n, a, _) \<Rightarrow> map (\<lambda>j. the (a j)) [0 ..< n])"

subsection \<open>What is kept\<close>

definition finished :: "append_pc list \<Rightarrow> nat set" where
  "finished pcs = {i. i < length pcs \<and> pcs ! i = Finished}"

definition owned :: "append_pc list \<Rightarrow> (nat \<Rightarrow> nat option) \<Rightarrow> bool" where
  "owned pcs a \<longleftrightarrow> (\<forall>j i. a j = Some i \<longrightarrow> i < length pcs \<and> (pcs ! i = Written j \<or> pcs ! i = Finished)) \<and>
     (\<forall>j j' i. a j = Some i \<longrightarrow> a j' = Some i \<longrightarrow> j = j')"

definition filled :: "nat \<Rightarrow> (nat \<Rightarrow> nat option) \<Rightarrow> bool" where
  "filled n a \<longleftrightarrow> (\<forall>j < n. a j \<noteq> None)"

definition append_inv :: "append_conf \<Rightarrow> bool" where
  "append_inv c \<longleftrightarrow> (case c of (n, a, pcs) \<Rightarrow>
     owned pcs a \<and> filled n a \<and> n \<le> card (finished pcs) \<and> (finished pcs \<noteq> {} \<longrightarrow> 0 < n) \<and>
     (\<forall>i m. i < length pcs \<longrightarrow> pcs ! i = Loaded m \<longrightarrow> filled m a \<and> m \<le> card (finished pcs)) \<and>
     (\<forall>i m. i < length pcs \<longrightarrow> pcs ! i = Written m \<longrightarrow> filled (Suc m) a \<and> m \<le> card (finished pcs)))"

lemma finite_finished [simp]: "finite (finished pcs)"
  by (simp add: finished_def)

lemma finished_update:
  "i < length pcs \<Longrightarrow> pcs ! i \<noteq> Finished \<Longrightarrow>
   finished (pcs[i := pc]) = (if pc = Finished then insert i (finished pcs) else finished pcs)"
  by (auto simp: finished_def nth_list_update)

lemma card_finished_insert: "pcs ! i \<noteq> Finished \<Longrightarrow> card (insert i (finished pcs)) = Suc (card (finished pcs))"
  by (simp add: finished_def)

lemma filled_upd: "filled n a \<Longrightarrow> filled n (a(m := Some i))" "filled m a \<Longrightarrow> filled (Suc m) (a(m := Some i))"
  by (auto simp: filled_def less_Suc_eq)

lemma append_inv_start: "append_inv (append_start k)"
  by (simp add: append_inv_def append_start_def owned_def filled_def finished_def)

lemma owned_free: "owned pcs a \<Longrightarrow> pcs ! i = Waiting \<or> pcs ! i = Loaded m \<Longrightarrow> a j \<noteq> Some i"
  by (metis append_pc.distinct owned_def)

lemma owned_load:
  assumes "owned pcs a" and "i < length pcs" and "pcs ! i = Waiting"
  shows "owned (pcs[i := Loaded n]) a"
  using assms owned_free [OF assms(1), of i] by (auto simp: owned_def nth_list_update)

lemma owned_store:
  assumes "owned pcs a" and "i < length pcs" and "pcs ! i = Loaded m"
  shows "owned (pcs[i := Written m]) (a(m := Some i))"
  using assms owned_free [OF assms(1), of i] by (auto simp: owned_def nth_list_update)

lemma owned_grow:
  assumes "owned pcs a" and "i < length pcs"
  shows "owned (pcs[i := Finished]) a"
  using assms by (auto simp: owned_def nth_list_update)

lemma append_inv_load:
  assumes "append_inv (n, a, pcs)" and "i < length pcs" and "pcs ! i = Waiting"
  shows "append_inv (n, a, pcs[i := Loaded n])"
  using assms by (auto simp: append_inv_def finished_update nth_list_update owned_load)

lemma append_inv_store:
  assumes "append_inv (n, a, pcs)" and "i < length pcs" and "pcs ! i = Loaded m"
  shows "append_inv (n, a(m := Some i), pcs[i := Written m])"
  using assms by (auto simp: append_inv_def finished_update nth_list_update owned_store filled_upd)

lemma append_inv_grow:
  assumes "append_inv (n, a, pcs)" and "i < length pcs" and "pcs ! i = Written m"
  shows "append_inv (Suc m, a, pcs[i := Finished])"
  using assms
  by (auto simp: append_inv_def finished_update card_finished_insert owned_grow nth_list_update intro: le_SucI)

lemma append_inv_step: "append_step c c' \<Longrightarrow> append_inv c \<Longrightarrow> append_inv c'"
  by (induction rule: append_step.induct) (auto intro: append_inv_load append_inv_store append_inv_grow)

lemma append_inv_reachable: "append_step\<^sup>*\<^sup>* (append_start k) c \<Longrightarrow> append_inv c"
  by (induction rule: rtranclp_induct) (auto intro: append_inv_start append_inv_step)

lemma append_step_length: "append_step c c' \<Longrightarrow> length (snd (snd c')) = length (snd (snd c))"
  by (induction rule: append_step.induct) auto

lemma append_length: "append_step\<^sup>*\<^sup>* (append_start k) c \<Longrightarrow> length (snd (snd c)) = k"
  by (induction rule: rtranclp_induct) (auto simp: append_start_def append_step_length)

lemma map_checkRBL: "map (checkRBL S addr) DNSBLs = map (\<lambda>i. checkRBL S addr (DNSBLs ! i)) [0 ..< length DNSBLs]"
  by (rule nth_equalityI) simp_all

text \<open>
  C33: whatever the interleaving, the slice holds results of different goroutines and no empty
  pointer, at most one per list and at least one.
\<close>

theorem dnsbl_results_sound:
  assumes run: "append_step\<^sup>*\<^sup>* (append_start (length DNSBLs)) c" and "all_done c"
  shows "distinct (elements c) \<and> set (elements c) \<subseteq> {..< length DNSBLs} \<and> elements c \<noteq> [] \<and>
    mset (map (\<lambda>i. checkRBL S addr (DNSBLs ! i)) (elements c)) \<subseteq># mset (map (checkRBL S addr) DNSBLs)"
proof -
  obtain n a pcs where c: "c = (n, a, pcs)" by (cases c)
  have inv: "owned pcs a" "filled n a" "finished pcs \<noteq> {} \<Longrightarrow> 0 < n"
    using append_inv_reachable [OF run] by (auto simp: c append_inv_def)
  have len: "length pcs = length DNSBLs" using append_length [OF run] by (simp add: c)
  have "pcs \<noteq> []" using len by (auto simp: DNSBLs_def)
  then have "finished pcs \<noteq> {}" using \<open>all_done c\<close> by (auto simp: c all_done_def finished_def intro!: exI [of _ 0])
  then have ne: "elements c \<noteq> []" using inv(3) by (simp add: c elements_def)
  have sub: "set (elements c) \<subseteq> {..< length DNSBLs}"
    using inv(1,2) len by (force simp: c elements_def owned_def filled_def)
  have "inj_on (\<lambda>j. the (a j)) {0 ..< n}"
  proof (rule inj_onI)
    fix j j' assume "j \<in> {0 ..< n}" "j' \<in> {0 ..< n}" "the (a j) = the (a j')"
    then obtain i where "a j = Some i" "a j' = Some i" using inv(2) by (force simp: filled_def)
    then show "j = j'" using inv(1) unfolding owned_def by blast
  qed
  then have dist: "distinct (elements c)" by (simp add: c elements_def distinct_map)
  have "mset (elements c) = mset_set (set (elements c))" using dist by (simp add: mset_set_set)
  also have "\<dots> \<subseteq># mset_set {..< length DNSBLs}" using sub by (simp add: subset_imp_msubset_mset_set)
  also have "\<dots> = mset [0 ..< length DNSBLs]" by (simp add: atLeast0LessThan)
  finally have "image_mset f (mset (elements c)) \<subseteq># image_mset f (mset [0 ..< length DNSBLs])" for f :: "nat \<Rightarrow> dnsblResult"
    by (rule image_mset_subseteq_mono)
  then have "mset (map (\<lambda>i. checkRBL S addr (DNSBLs ! i)) (elements c)) \<subseteq># mset (map (checkRBL S addr) DNSBLs)"
    unfolding map_checkRBL by (simp only: mset_map)
  then show ?thesis using dist sub ne by blast
qed


subsection \<open>What is lost\<close>

lemma append_one:
  assumes "i < length pcs" and "pcs ! i = Waiting"
  shows "append_step\<^sup>*\<^sup>* (n, a, pcs) (Suc n, a(n := Some i), pcs[i := Finished])"
proof -
  have "append_step (n, a, pcs) (n, a, pcs[i := Loaded n])" using assms by (rule append_step.load)
  moreover have "append_step (n, a, pcs[i := Loaded n]) (n, a(n := Some i), pcs[i := Written n])"
    using append_step.store [of i "pcs[i := Loaded n]" n n a] assms by simp
  moreover have "append_step (n, a(n := Some i), pcs[i := Written n]) (Suc n, a(n := Some i), pcs[i := Finished])"
    using append_step.grow [of i "pcs[i := Written n]" n n "a(n := Some i)"] assms by simp
  ultimately show ?thesis by (meson converse_rtranclp_into_rtranclp rtranclp.rtrancl_refl)
qed

lemma append_in_turn:
  assumes "distinct ks" and "\<forall>k \<in> set ks. k < length pcs \<and> pcs ! k = Waiting"
  shows "\<exists>a' pcs'. append_step\<^sup>*\<^sup>* (n, a, pcs) (n + length ks, a', pcs') \<and>
    map (\<lambda>j. the (a' j)) [0 ..< n + length ks] = map (\<lambda>j. the (a j)) [0 ..< n] @ ks \<and>
    length pcs' = length pcs \<and> (\<forall>k < length pcs. pcs' ! k = (if k \<in> set ks then Finished else pcs ! k))"
  using assms
proof (induction ks arbitrary: n a pcs)
  case (Cons k ks)
  have one: "append_step\<^sup>*\<^sup>* (n, a, pcs) (Suc n, a(n := Some k), pcs[k := Finished])"
    using Cons.prems by (intro append_one) simp_all
  have waiting: "\<forall>x \<in> set ks. x < length (pcs[k := Finished]) \<and> pcs[k := Finished] ! x = Waiting"
    using Cons.prems by (auto simp: nth_list_update)
  obtain a' pcs' where rest: "append_step\<^sup>*\<^sup>* (Suc n, a(n := Some k), pcs[k := Finished]) (Suc n + length ks, a', pcs')"
    "map (\<lambda>j. the (a' j)) [0 ..< Suc n + length ks] = map (\<lambda>j. the ((a(n := Some k)) j)) [0 ..< Suc n] @ ks"
    "length pcs' = length pcs"
    "\<forall>j < length pcs. pcs' ! j = (if j \<in> set ks then Finished else pcs[k := Finished] ! j)"
    using Cons.IH [OF _ waiting, of "Suc n" "a(n := Some k)"] Cons.prems(1) by (metis distinct.simps(2) length_list_update)
  have "map (\<lambda>j. the ((a(n := Some k)) j)) [0 ..< n] = map (\<lambda>j. the (a j)) [0 ..< n]" by simp
  then have "map (\<lambda>j. the (a' j)) [0 ..< n + length (k # ks)] = map (\<lambda>j. the (a j)) [0 ..< n] @ (k # ks)"
    using rest(2) by simp
  moreover have "\<forall>j < length pcs. pcs' ! j = (if j \<in> set (k # ks) then Finished else pcs ! j)"
    using rest(4) by (auto simp: nth_list_update)
  moreover have "append_step\<^sup>*\<^sup>* (n, a, pcs) (n + length (k # ks), a', pcs')" using one rest(1) by simp
  ultimately show ?case using rest(3) by blast
qed auto

lemma append_over:
  assumes "i < k" and "j < k" and "i \<noteq> j"
  shows "append_step\<^sup>*\<^sup>* (append_start k)
    (1, (\<lambda>_. None)(0 := Some j), (replicate k Waiting)[i := Finished, j := Finished])"
proof -
  let ?r = "replicate k Waiting"
  have "append_step (append_start k) (0, \<lambda>_. None, ?r[j := Loaded 0])"
    using append_step.load [of j ?r 0 "\<lambda>_. None"] assms by (simp add: append_start_def)
  moreover have "append_step\<^sup>*\<^sup>* (0, \<lambda>_. None, ?r[j := Loaded 0])
      (1, (\<lambda>_. None)(0 := Some i), ?r[j := Loaded 0, i := Finished])"
    using append_one [of i "?r[j := Loaded 0]" 0 "\<lambda>_. None"] assms by simp
  moreover have "append_step (1, (\<lambda>_. None)(0 := Some i), ?r[j := Loaded 0, i := Finished])
      (1, (\<lambda>_. None)(0 := Some j), ?r[j := Loaded 0, i := Finished, j := Written 0])"
    using append_step.store [of j "?r[j := Loaded 0, i := Finished]" 0 1 "(\<lambda>_. None)(0 := Some i)"] assms
    by simp
  moreover have "append_step (1, (\<lambda>_. None)(0 := Some j), ?r[j := Loaded 0, i := Finished, j := Written 0])
      (1, (\<lambda>_. None)(0 := Some j), ?r[j := Loaded 0, i := Finished, j := Finished])"
    using append_step.grow [of j "?r[j := Loaded 0, i := Finished, j := Written 0]" 0 1 "(\<lambda>_. None)(0 := Some j)"] assms
    by simp
  moreover have "?r[j := Loaded 0, i := Finished, j := Finished] = ?r[i := Finished, j := Finished]"
    using assms(3) by (metis list_update_overwrite list_update_swap)
  ultimately show ?thesis by (metis (no_types, lifting) converse_rtranclp_into_rtranclp rtranclp.rtrancl_into_rtrancl)
qed

lemma append_loses:
  assumes "i < k" and "j < k" and "i \<noteq> j"
  shows "\<exists>c. append_step\<^sup>*\<^sup>* (append_start k) c \<and> all_done c \<and> mset (i # elements c) = mset [0 ..< k]"
proof -
  let ?ks = "filter (\<lambda>x. x \<noteq> i \<and> x \<noteq> j) [0 ..< k]"
  let ?pcs = "(replicate k Waiting)[i := Finished, j := Finished]"
  obtain a pcs where run: "append_step\<^sup>*\<^sup>* (1, (\<lambda>_. None)(0 := Some j), ?pcs) (1 + length ?ks, a, pcs)"
    "map (\<lambda>j. the (a j)) [0 ..< 1 + length ?ks] = map (\<lambda>x. the (((\<lambda>_. None)(0 := Some j)) x)) [0 ..< 1] @ ?ks"
    "length pcs = length ?pcs" "\<forall>x < length ?pcs. pcs ! x = (if x \<in> set ?ks then Finished else ?pcs ! x)"
    using append_in_turn [of ?ks ?pcs 1 "(\<lambda>_. None)(0 := Some j)"] by (auto simp: nth_list_update)
  let ?c = "(1 + length ?ks, a, pcs)"
  have "elements ?c = j # ?ks" using run(2) by (simp add: elements_def)
  moreover have "mset (i # j # ?ks) = mset [0 ..< k]"
    by (rule set_eq_iff_mset_eq_distinct [THEN iffD1]) (use assms in auto)
  moreover have "all_done ?c" using run(3,4) assms by (auto simp: all_done_def in_set_conv_nth nth_list_update)
  moreover have "append_step\<^sup>*\<^sup>* (append_start k) ?c" using append_over [OF assms] run(1) by simp
  ultimately show ?thesis by metis
qed

text \<open>
  C34: the goroutines do not synchronise, so results can be lost: an address that two lists name, and
  some other list does not, is blocked when every result is kept, but there is an interleaving
  after which the check lets it through.
\<close>

theorem dnsbl_race_unblocks:
  assumes two: "length (filter (rbl_lists S addr) DNSBLs) = 2" and one: "0 < length (filter (rbl_clears S addr) DNSBLs)"
  shows "fst (evaluate_results (map (checkRBL S addr) DNSBLs)) \<and>
    (\<exists>c. append_step\<^sup>*\<^sup>* (append_start (length DNSBLs)) c \<and> all_done c \<and>
      \<not> fst (evaluate_results (map (\<lambda>i. checkRBL S addr (DNSBLs ! i)) (elements c))))"
proof -
  let ?f = "\<lambda>i. checkRBL S addr (DNSBLs ! i)"
  obtain i where i: "i < length DNSBLs" "rbl_lists S addr (DNSBLs ! i)"
    using two by (metis filter_False in_set_conv_nth length_0_conv zero_neq_numeral)
  obtain j where j: "j < length DNSBLs" "j \<noteq> i"
    using i(1) by (cases "i = 0") (auto simp: DNSBLs_def intro: that [of 0] that [of 1])
  obtain c where c: "append_step\<^sup>*\<^sup>* (append_start (length DNSBLs)) c" "all_done c"
    and m: "mset (i # elements c) = mset [0 ..< length DNSBLs]"
    using append_loses [OF i(1) j(1)] j(2) by blast
  have "mset (map (checkRBL S addr) DNSBLs) = image_mset ?f (mset [0 ..< length DNSBLs])"
    unfolding map_checkRBL by (simp only: mset_map)
  then have all: "mset (map (checkRBL S addr) DNSBLs) = add_mset (?f i) (mset (map ?f (elements c)))"
    unfolding m [symmetric] by simp
  have sizes: "size (filter_mset result_lists (mset (map (checkRBL S addr) DNSBLs))) = 2"
    "0 < size (filter_mset result_clears (mset (map (checkRBL S addr) DNSBLs)))"
    using two one by (simp_all add: filter_mset_image_mset checkRBL_lists checkRBL_clears flip: mset_filter)
  then have "fst (evaluate_results (map (checkRBL S addr) DNSBLs))" by (simp add: evaluate_blocks)
  moreover have "size (filter_mset result_lists (mset (map ?f (elements c)))) = 1"
    "0 < size (filter_mset result_clears (mset (map ?f (elements c))))"
    using sizes i(2) checkRBL_lists [of S addr "DNSBLs ! i"] unfolding all by simp_all
  then have "\<not> fst (evaluate_results (map ?f (elements c)))" unfolding evaluate_blocks Let_def by linarith
  ultimately show ?thesis using c by blast
qed

theorem dnsbl_race_unblocks_witness:
  "fst (evaluate_results (map (checkRBL two_lists ''192.0.2.1:25'') DNSBLs))"
  using dnsbl_race_unblocks [OF two_lists_counts, of "''192.0.2.1:25''"] by (rule conjunct1)

theorem dnsbl_results_sound_witness:
  "\<exists>c. append_step\<^sup>*\<^sup>* (append_start (length DNSBLs)) c \<and> all_done c \<and> distinct (elements c)"
proof -
  have "0 < length DNSBLs" "1 < length DNSBLs" by (simp_all add: DNSBLs_def)
  then obtain c where "append_step\<^sup>*\<^sup>* (append_start (length DNSBLs)) c" "all_done c"
    using append_loses [of 0 "length DNSBLs" 1] by auto
  then show ?thesis using dnsbl_results_sound [of c demo_smtp "[]"] by blast
qed

end
