(* ===== verification/Smtp_Policy.thy ===== *)
theory Smtp_Policy
  imports Smtp_Conn Listener
begin

text \<open>
  Who may do what on an SMTP connection: the two mechanisms of authentication, the senders a
  session accepts, and the addresses a failed authentication shuts out. These properties join the
  session and the authentication servers (internal/smtp/session.go, authserver.go), the bot behind
  them (internal/bot/access.go) and the listener (internal/smtp/listener.go).
\<close>

lemmas auth_defs = auth_Next_def Login_Next_def Plain_Next_def NewLoginAuthServer_def

lemmas bindM_laws = bindM_assoc bindM_returnM

text \<open>The three turns of LOGIN.\<close>

lemma login_first:
  "auth_exchange X B s (LoginServer NewLoginAuthServer) ir (u # rs) =
   auth_exchange X B s (LoginServer (NewLoginAuthServer\<lparr>ls_state := loginStateUsername\<rparr>)) (Some u) rs"
  by (subst auth_exchange.simps) (simp add: auth_defs bindM_laws)

lemma login_username:
  "auth_exchange X B s (LoginServer (NewLoginAuthServer\<lparr>ls_state := loginStateUsername\<rparr>)) (Some u) (p # rs) =
   auth_exchange X B s (LoginServer (NewLoginAuthServer\<lparr>ls_username := u, ls_state := loginStatePassword\<rparr>)) (Some p) rs"
  by (subst auth_exchange.simps) (simp add: auth_defs bindM_laws)

lemma login_password:
  "auth_exchange X B s (LoginServer (NewLoginAuthServer\<lparr>ls_username := u, ls_state := loginStatePassword\<rparr>)) (Some p) rs =
   bindM (authPlain X B s u p) (\<lambda>(s, err). returnM (s, case err of None \<Rightarrow> 235 | Some e \<Rightarrow> writeError 454 e))"
  by (subst auth_exchange.simps)
    (auto simp: auth_defs bindM_laws case_prod_unfold intro!: arg_cong2 [where f = bindM] split: option.split)

text \<open>
  C30: LOGIN and PLAIN are one check: a client that answers the two questions of LOGIN and a client
  that sends the same name and password in one response of PLAIN get the same reply, the same
  session and leave the bot in the same state. An initial response to LOGIN is ignored.
\<close>

theorem LOGIN_equals_PLAIN:
  assumes "CHR 0x00 \<notin> set identity \<union> set username \<union> set password"
  shows "auth_exchange X B s (LoginServer NewLoginAuthServer) ir [username, password] =
    auth_exchange X B s (PlainServer False)
      (Some (identity @ [CHR 0x00] @ username @ [CHR 0x00] @ password)) answers"
proof -
  have "Split (CHR 0x00) (identity @ [CHR 0x00] @ username @ [CHR 0x00] @ password) = [identity, username, password]"
    using assms by (simp add: Split_append)
  then have plain: "auth_Next X B s (PlainServer False) (Some (identity @ [CHR 0x00] @ username @ [CHR 0x00] @ password)) =
      bindM (authPlain X B s username password) (\<lambda>(s, err). returnM (PlainServer True, s, [], True, err))"
    by (simp add: auth_defs bindM_laws case_prod_unfold)
  show ?thesis
    unfolding login_first login_username login_password auth_exchange.simps [of X B s "PlainServer False"] plain
    by (auto simp: bindM_laws case_prod_unfold intro!: arg_cong2 [where f = bindM] split: option.split)
qed

theorem LOGIN_equals_PLAIN_witness:
  "auth_exchange demo_ext (postmoogle demo_ext) demo_session (LoginServer NewLoginAuthServer) None [''bob@example.com'', ''secret''] demo_server =
   auth_exchange demo_ext (postmoogle demo_ext) demo_session (PlainServer False)
      (Some ([CHR 0x00] @ ''bob@example.com'' @ [CHR 0x00] @ ''secret'')) [] demo_server"
  using LOGIN_equals_PLAIN [of "[]" "''bob@example.com''" "''secret''" demo_ext "postmoogle demo_ext :: bot_state matrixbot"
      demo_session None "[]"] by simp

text \<open>
  C12: the sender of a message. Without authentication a session accepts a valid address that is not
  of a domain of the server; with it, a valid address of such a domain whose mailbox belongs to
  the room the client authenticated as. Nobody can use an address of the server without
  the password of its room.
\<close>

theorem Mail_accepts_iff:
  "(\<exists>s'. fst (session_Mail X (postmoogle X) s sender w) = Ret (s', None)) \<longleftrightarrow>
    AddressValid X sender \<and>
    (if s_dir s = Outgoing
     then Hostname X sender \<in> set (s_domains s) \<and>
          fst (GetMapping (Mailbox X sender) w) = Ret (Some (s_fromRoom s))
     else Hostname X sender \<notin> set (s_domains s))"
proof -
  obtain m w1 where m: "GetMapping (Mailbox X sender) w = (Ret m, w1)"
    using returns_access(12) [of "Mailbox X sender"] unfolding returns_def by (metis prod.collapse)
  obtain w2 where b: "BanAuto X (s_addr s) w = (Ret (), w2)"
    using returns_access(8) [of X "s_addr s"] unfolding returns_def by (metis (full_types) old.unit.exhaust prod.collapse)
  show ?thesis
    using m b
    by (cases m)
      (auto simp: session_Mail_def validateOutgoingMail_def postmoogle_def run_simps thenM_def bindM_def returnM_def)
qed

subsection \<open>Shutting out\<close>

lemma BanAuth_effect:
  assumes "bot_ready w bc" and "BanlistEnabled bc" and "BanlistAuth bc" and "banned w = Some l"
    and "AddrIP addr \<notin> set (proxies w)"
  obtains w' where "BanAuth X addr w = (Ret (), w')" and "bot_ready w' bc"
    and "banned w' = Some (List_Add X (now_sec w) l addr)"
proof -
  obtain w' where "ban_now X addr w = (Ret (), w')" "bot_ready w' bc"
      "banned w' = Some (List_Add X (now_sec w) l addr)"
    by (rule ban_now_effect [OF assms(1,2,4,5)])
  then show ?thesis using assms that by (simp add: BanAuth_def run_simps)
qed

lemma Accept_skips:
  assumes "bot_ready w bc" and "BanlistEnabled bc" and "banned w = Some bl" and "List_Has bl addr"
  shows "Accept (postmoogle X) l (Arrives addr # evs) w = Accept (postmoogle X) l evs w"
  using run_IsBanned [OF assms(1-3), of addr] assms(4) by (simp add: postmoogle_def run_simps)

text \<open>
  C15: a client that authenticates with a wrong name or password is refused with the code for banned
  clients and, where failed authentication bans, shut out: the listener drops every later connection
  from its address, whatever the port. Trusted proxies are not shut out.
\<close>

theorem failed_auth_shuts_out:
  assumes "bot_ready w bc" and "BanlistEnabled bc" and "BanlistAuth bc" and "banned w = Some l"
    and "AddrIP (s_addr s) \<notin> set (proxies w)"
    and "\<not> AddressValid X username \<or> AllowAuth X username password w = (Ret None, w)"
  shows "\<exists>w'. authPlain X (postmoogle X) s username password w = (Ret (s, Some ErrBanned), w') \<and>
    (\<forall>a lis evs. AddrIP a = AddrIP (s_addr s) \<longrightarrow>
       Accept (postmoogle X) lis (Arrives a # evs) w' = Accept (postmoogle X) lis evs w')"
proof -
  obtain w' where w': "BanAuth X (s_addr s) w = (Ret (), w')" "bot_ready w' bc"
      "banned w' = Some (List_Add X (now_sec w) l (s_addr s))"
    by (rule BanAuth_effect [OF assms(1-5)])
  have "authPlain X (postmoogle X) s username password w = (Ret (s, Some ErrBanned), w')"
    using assms(6) w'(1) by (auto simp: authPlain_def postmoogle_def run_simps)
  moreover have "Accept (postmoogle X) lis (Arrives a # evs) w' = Accept (postmoogle X) lis evs w'"
    if "AddrIP a = AddrIP (s_addr s)" for a lis evs
    by (rule Accept_skips [OF w'(2) assms(2) w'(3)]) (simp add: List_Has_Add that)
  ultimately show ?thesis by blast
qed


theorem failed_auth_shuts_out_witness:
  "\<exists>w'. authPlain demo_ext (postmoogle demo_ext) demo_session ''nobody'' ''x''
       (bot_demo (fmupd BotBanlistEnabled ''true'' (fmupd BotBanlistAuth ''true'' fmempty)) [] []) = (Ret (demo_session, Some ErrBanned), w') \<and>
     Accept (postmoogle demo_ext) (\<lparr>l_done = False, l_tls = None\<rparr> :: string listener) [Arrives ''192.0.2.7:4711''] w' =
       (Ret (\<lparr>l_done = False, l_tls = None\<rparr>, None), w')"
proof -
  let ?c = "fmupd BotDKIMPrivateKey ''pem'' (fmupd BotBanlistEnabled ''true'' (fmupd BotBanlistAuth ''true'' fmempty))"
  have on: "BanlistEnabled ?c" "BanlistAuth ?c"
    by (simp_all add: BanlistEnabled_def BanlistAuth_def Bot_Get_def; code_simp)+
  have ip: "AddrIP ''192.0.2.7:25'' = ''192.0.2.7''" "AddrIP ''192.0.2.7:4711'' = ''192.0.2.7''"
    "\<not> AddressValid demo_ext ''nobody''" by code_simp+
  let ?w = "bot_demo (fmupd BotBanlistEnabled ''true'' (fmupd BotBanlistAuth ''true'' fmempty)) [] []"
  obtain w' where "authPlain demo_ext (postmoogle demo_ext) demo_session ''nobody'' ''x'' ?w = (Ret (demo_session, Some ErrBanned), w')"
    and shut: "\<And>a (lis :: string listener) evs. AddrIP a = ''192.0.2.7'' \<Longrightarrow>
       Accept (postmoogle demo_ext) lis (Arrives a # evs) w' = Accept (postmoogle demo_ext) lis evs w'"
    using failed_auth_shuts_out [of ?w ?c fmempty demo_session demo_ext "''nobody''" "''x''"] on ip
    by (auto simp: demo_session_def simp del: Accept.simps)
  moreover have "Accept (postmoogle demo_ext) (\<lparr>l_done = False, l_tls = None\<rparr> :: string listener) [Arrives ''192.0.2.7:4711''] w' =
       (Ret (\<lparr>l_done = False, l_tls = None\<rparr>, None), w')"
    unfolding shut [OF ip(2)] by (simp add: run_simps)
  ultimately show ?thesis by blast
qed


section \<open>Replies\<close>

text \<open>
  C31: the loop of an authentication ends: LOGIN reads at most two answers of the client and PLAIN at
  most one, whatever else the client would send.
\<close>

theorem AUTH_ends:
  "auth_exchange X B s (LoginServer NewLoginAuthServer) ir answers =
     auth_exchange X B s (LoginServer NewLoginAuthServer) ir (take 2 answers) \<and>
   auth_exchange X B s (PlainServer False) ir answers =
     auth_exchange X B s (PlainServer False) ir (take 1 answers)"
proof
  show "auth_exchange X B s (LoginServer NewLoginAuthServer) ir answers =
      auth_exchange X B s (LoginServer NewLoginAuthServer) ir (take 2 answers)"
    by (cases answers; cases "tl answers") (auto simp: login_first login_username login_password)
  have given: "auth_exchange X B s (PlainServer False) (Some r) rs = auth_exchange X B s (PlainServer False) (Some r) []" for r rs
    by (subst (1 2) auth_exchange.simps)
      (auto simp: auth_defs bindM_laws case_prod_unfold thenM_def intro!: arg_cong2 [where f = bindM] split: list.split option.split)
  have missing: "auth_exchange X B s (PlainServer False) None (r # rs) = auth_exchange X B s (PlainServer False) (Some r) rs" for r rs
    by (subst auth_exchange.simps) (simp add: auth_defs bindM_laws)
  show "auth_exchange X B s (PlainServer False) ir answers = auth_exchange X B s (PlainServer False) ir (take 1 answers)"
  proof (cases ir)
    case None
    then show ?thesis using given by (cases answers) (simp_all add: missing)
  next
    case (Some r)
    then show ?thesis using given [of r answers] given [of r "take 1 answers"] by simp
  qed
qed

text \<open>The codes of the session's errors, and those of the server's replies.\<close>

definition error_codes :: "nat set" where
  "error_codes = {NoUserCode, BannedCode, GreylistCode, RBLCode, AuthRequiredCode}"

definition reply_codes :: "nat set" where
  "reply_codes = error_codes \<union> {235, 250, 421, 451, 454, 501, 502, 503, 523, 554}"

definition coded :: "smtp_error option \<Rightarrow> bool" where
  "coded err \<longleftrightarrow> (\<forall>c ec msg. err = Some (SMTPError c ec msg) \<longrightarrow> c \<in> error_codes)"

lemma coded_simps [simp]:
  "coded None" "coded (Some (OtherError e))" "coded (Some ErrBanned)" "coded (Some ErrNoUser)" "coded (Some ErrGreylisted)"
  "coded (Some ErrRBL)" "coded (Some ErrAuthRequired)" "coded (Some ErrInvalidEmail)" "coded (Some (extendErrRBL rs))"
  "coded (Some ErrUnexpectedClientResponse)"
  by (simp_all add: coded_def error_codes_def ErrBanned_def ErrNoUser_def ErrGreylisted_def ErrRBL_def ErrAuthRequired_def
      ErrInvalidEmail_def extendErrRBL_def ErrUnexpectedClientResponse_def)

lemma writeError_coded: "coded (Some e) \<Longrightarrow> code \<in> reply_codes \<Longrightarrow> writeError code e \<in> reply_codes"
  by (cases e) (auto simp: coded_def writeError_def reply_codes_def)

lemma reply_codes_simps [simp]:
  "235 \<in> reply_codes" "250 \<in> reply_codes" "421 \<in> reply_codes" "451 \<in> reply_codes" "454 \<in> reply_codes"
  "501 \<in> reply_codes" "502 \<in> reply_codes" "503 \<in> reply_codes" "523 \<in> reply_codes" "554 \<in> reply_codes"
  by (simp_all add: reply_codes_def)

lemma coded_authPlain: "yields (\<lambda>(_, err). coded err) (authPlain X B s u p)"
  unfolding authPlain_def by (intro yields_rules) simp_all

lemma coded_auth_Next: "yields (\<lambda>(_, _, _, _, err). coded err) (auth_Next X B s a r)"
proof (cases a)
  case (LoginServer l)
  have step: "yields (\<lambda>(_, _, _, _, err). coded err) (Login_Next X B s l r')" for r'
    unfolding Login_Next_def
    by (cases "ls_state l") (auto intro!: yields_rules yields_bind_inv [OF coded_authPlain])
  show ?thesis
    unfolding auth_Next_def LoginServer authServer.case
    by (rule yields_bind_inv [OF step]) (auto intro!: yields_rules)
next
  case (PlainServer f)
  have step: "yields (\<lambda>(_, _, _, _, err). coded err) (Plain_Next X B s f r)"
    unfolding Plain_Next_def by (intro yields_rules yields_bind_inv [OF coded_authPlain]) auto
  show ?thesis
    unfolding auth_Next_def PlainServer authServer.case
    by (rule yields_bind_inv [OF step]) (auto intro!: yields_rules)
qed

lemma coded_auth_exchange: "yields (\<lambda>(_, code). code \<in> reply_codes) (auth_exchange X B s a r rs)"
proof (induction rs arbitrary: s a r)
  case Nil
  show ?case
    unfolding auth_exchange.simps [of X B s a r]
    by (rule yields_bind_inv [OF coded_auth_Next]) (auto intro!: yields_rules writeError_coded split: option.split)
next
  case (Cons r' rs)
  show ?case
    unfolding auth_exchange.simps [of X B s a r]
    by (rule yields_bind_inv [OF coded_auth_Next])
      (auto intro!: yields_rules writeError_coded Cons.IH split: option.split)
qed

lemma coded_Mail: "yields (\<lambda>(_, err). coded err) (session_Mail X B s sender)"
  unfolding session_Mail_def validateOutgoingMail_def
  by (intro yields_rules yields_bind_inv [where P = coded]) simp_all

lemma coded_Rcpt: "yields (\<lambda>(_, err). coded err) (session_Rcpt X S B s to)"
proof -
  have "yields (\<lambda>(_, err). coded err) (validateIncomingRcpt X B s' to)" for s'
    unfolding validateIncomingRcpt_def by (intro yields_rules) simp_all
  then show ?thesis
    unfolding session_Rcpt_def by (intro yields_rules yields_bind_inv [where P = "\<lambda>(_, err). coded err"]) auto
qed

lemma coded_Data: "yields coded (session_Data X S B send s data)"
proof -
  have inc: "yields coded (incoming_loop B eml tos)" for eml tos
    by (induction tos arbitrary: eml) (auto intro!: yields_rules)
  have out: "yields coded (outgoing_loop X B send s eml tos)" for eml tos
    by (induction tos arbitrary: eml) (auto simp: Let_def intro!: yields_rules)
  show ?thesis
    unfolding session_Data_def outgoingData_def incomingData_def deliver_incoming_def
    by (intro yields_rules inc out) simp_all
qed

lemma coded_cmd: "yields (\<lambda>(_, code). code \<in> reply_codes) (handle_cmd X S B send ds k c)"
proof (cases c)
  case (AUTH mech ir answers)
  have auth: "yields (\<lambda>r. case r of Inl e \<Rightarrow> coded (Some e) | Inr _ \<Rightarrow> True) (session_Auth B s mech)" for s
    unfolding session_Auth_def by (intro yields_rules) simp_all
  show ?thesis
    unfolding AUTH handle_cmd.simps handleAuth_def
    by (intro yields_option yields_if yields_returnM yields_bind_inv [OF auth])
      (auto intro!: yields_rules yields_bind_inv [OF coded_auth_exchange] writeError_coded split: sum.splits)
next
  case (MAIL a)
  then show ?thesis
    by (auto simp: handleMail_def intro!: yields_rules yields_bind_inv [OF coded_Mail] writeError_coded split: option.split)
next
  case (RCPT to)
  then show ?thesis
    by (auto simp: handleRcpt_def intro!: yields_rules yields_bind_inv [OF coded_Rcpt] writeError_coded split: option.split)
next
  case (DATA d)
  then show ?thesis
    by (auto simp: handleData_def intro!: yields_rules yields_bind_inv [OF coded_Data] writeError_coded split: option.split)
qed (auto simp: handleGreet_def intro!: yields_rules)

lemma coded_handle: "yields (\<lambda>(_, code). code \<in> reply_codes) (conn_handle X S B send ds k c)"
  using coded_cmd [of X S B send ds k c]
  by (auto simp: conn_handle_def recover421_def yields_def returnM_def split: prod.splits res.splits)



end
