(* ===== verification/Spec2Isabelle.thy ===== *)
theory Spec2Isabelle
  imports System Lifecycle Queue_Refinement Submission Ownership Locks Blocklists Smtp_Policy
begin

text \<open>
  postmoogle is an SMTP server and client that is operated from Matrix: every Matrix room can own a
  mailbox, incoming emails are posted to the room of their recipient, and messages of the room are sent
  as emails. This development models the program's own code, src/internal and src/cmd/postmoogle,
  together with the vendored code whose behaviour it depends on most (the connection of go-smtp, the
  account data of go-linkpearl, the patterns of go-mxidwc, the environment of go-env, the levels of
  zerolog, the client of go-healthchecks).

  \<^bold>\<open>The parts and how they interact.\<close> The bot (internal/bot) receives events of the Matrix sync and calls
  of the SMTP session. It keeps its settings, those of the rooms, the ban list and the greylist as
  account data on the homeserver (internal/bot/config), behind the cache of linkpearl. The SMTP server
  (internal/smtp) accepts connections that are not banned, runs one session per connection, asks the bot
  who may log in and where an email goes, and hands incoming emails to it. Outgoing emails go through
  the SMTP client; one that is refused for now is put into the queue (internal/bot/queue), which a cron
  job runs every minute. main.go reads the environment (internal/config), builds these parts, starts
  the goroutines and shuts them down.

  \<^bold>\<open>Effects.\<close> A function of the source with effects is an \<open>action\<close>: a function from the state to a result
  and the new state, where the result is \<open>Ret\<close> or \<open>Panic\<close> (theory Prelude). Records are extended layer
  by layer: \<open>lp_state\<close> (homeserver and cache), \<open>cfg_state\<close> (settings), \<open>queue_state\<close> (mail client and
  queue), \<open>bot_state\<close> (the bot's fields), so that every operation works on the state of the layers above
  it. Errors of Go are values of option and sum types; a panic is a result. The homeserver may fail
  any call (\<open>hs_fault\<close>), the mail client any delivery (\<open>mail_fault\<close>), a name server any lookup.
  Integers of Go are integers with \<open>wrap64\<close> where a sum or a product can leave the range.

  \<^bold>\<open>Theories.\<close>
  \<^item> Prelude: actions and their laws, \<open>preserves\<close>, \<open>returns\<close> and \<open>yields\<close> with their rules, Go maps.
  \<^item> GoStrings: the functions of the packages strings and strconv the source uses.
  \<^item> Externals: code that is not in the repository's own sources, as the record \<open>externals\<close>, and its
    documented laws as named hypotheses.
  \<^item> Utils: internal/utils.
  \<^item> Email: internal/email.
  \<^item> Config: internal/bot/config.
  \<^item> Queue: internal/bot/queue.
  \<^item> Queue_Refinement: the queue as a map of pending emails, and runs as sequences of attempts.
  \<^item> Linkpearl: account data, events and messages of linkpearl; its cache and the maps callers hold are one
    object.
  \<^item> Mxidwc: wildcard patterns of user ids.
  \<^item> Bot: bot.go, access.go, activation.go, data.go, mutex.go, context.go.
  \<^item> Bot_Email: email.go.
  \<^item> Commands, Commands_Owner, Commands_Admin: command.go, command_owner.go, command_admin.go.
  \<^item> Bot_Sync: sync.go, reaction.go and the dispatch of commands.
  \<^item> Smtp_Session: session.go, server.go, errors.go, dnsbl.go, authserver.go.
  \<^item> Listener: listener.go.
  \<^item> Smtp_Conn: the connection of go-smtp as the caller of the session.
  \<^item> Smtp_Client: client.go.
  \<^item> Logging: the levels of the logger, \<open>initLog\<close> of main.go, logger.go, and what the SMTP server copies
    of its traffic to the log.
  \<^item> Monitoring: the client of the health checks.
  \<^item> Setup: internal/config, the SMTP manager (manager.go) and the initialisation in main.go.
  \<^item> Lifecycle: the goroutines of manager.go and main.go from the start to the exit.
  \<^item> Locks: the locks of bot and queue under interleaving.
  \<^item> Blocklists: the goroutines of dnsbl.go.
  \<^item> Isolation, Ownership, Delivery, Submission, Smtp_Policy, System: properties that span the parts.

  \<^bold>\<open>Interfaces.\<close> Each contract between parts is a locale that is interpreted on the model: the account
  data of linkpearl (Linkpearl), the mail client and the queue (Queue), the bot as the SMTP server sees it
  (\<open>mail_contract\<close> in Smtp_Conn, \<open>ban_check\<close> in Listener), what a room and an administrator may change
  (\<open>room_contract\<close> and \<open>admin_contract\<close> in Isolation) and its extension to SMTP and cron
  (\<open>system_contract\<close> in System, from which the contract of the SMTP server follows as a sublocale), and
  the order of locks (\<open>lock_order\<close> in Locks).

  \<^bold>\<open>What is shown.\<close>
  \<^item> The server is no open relay: a client that has not authenticated never makes the mail client send.
    Which senders and which credentials are accepted is decided exactly; LOGIN and PLAIN agree; failed
    authentication shuts an address out; every command gets one reply with a code of a fixed set.
  \<^item> Users that are not administrators cannot change the settings of the server, by Matrix events alone
    and in every sequence of Matrix events, SMTP connections and cron jobs. No SMTP connection changes
    the fields of the bot. No room takes a reserved mailbox or that of another room.
  \<^item> An incoming email is posted to the room of its recipient and nowhere else; answers find the thread.
  \<^item> A run of the queue refines a specification on pending emails: it delivers what is due, in batches of a
    bounded size, counts refused attempts and gives up after a bounded number of them, and touches
    nothing else; an email that is refused for now arrives later.
  \<^item> What an authenticated client submits and what the send command sends reaches the mail client, recipient
    by recipient, with the relay of the room; how the two differ on a refusal is part of the statements.
  \<^item> The SMTP client implements a specification by the first server that can be reached.
  \<^item> Threads of bot and queue do not block each other, the slice of the block lists stays well-formed, the
    process exits with 0 only after a complete shutdown and ends after every signal; each with the case
    in which the code fails.
  \<^item> What leaves the program beside emails and Matrix events: the log has the whole traffic of the SMTP
    server at the default level, and the health check never hears of the exit.
  \<^item> Errors the model shows in the code are theorems too: they are listed as findings of the manifest.

  \<^bold>\<open>Bounds.\<close> Loops of the source run over finite lists and are structural recursions, or functions with
  a measure (\<open>chunks_loop\<close>, \<open>strip_style\<close>). The loop of an authentication, which the client drives, ends by
  \<open>AUTH_ends\<close>. A dialogue is the list of the commands a client sends. No definition uses fuel.

  \<^bold>\<open>Sequences and interleavings.\<close> Except in Locks, Blocklists and Lifecycle a handler runs to its end before
  the next one starts, so races between handlers on the fields of the bot and on shared maps are not
  modelled. Go ranges over maps in any order: the order is a parameter or the result does not depend on it.

  \<^bold>\<open>Not modelled.\<close> Sockets and TLS beyond the events they cause; the syntax of SMTP commands, BDAT and
  STARTTLS; MIME, DKIM, markdown, address and URL parsers, password hashes and the email validator,
  which are parameters; the encryption of account data and the eviction of cache entries; lines that only
  log, Sentry, the pings of the health check and the way of its requests over HTTP. \<open>recovery\<close> of main.go is
  modelled on its own: no panic reaches it, as the main goroutine only waits. Vendored packages beyond those named above are left
  out, and so are docs/docs.go and the tests.
\<close>

end
